theory Spec2Isabelle
  imports Main "HOL-Library.Word"
begin

section \<open>JavaScript values\<close>

text \<open>
  The relay handles values that come out of \<^verbatim>\<open>JSON.parse\<close>. An object is the list of its own
  properties; \<open>None\<close> of type \<open>jsval\<close> is JavaScript's \<^verbatim>\<open>undefined\<close>.
  Numbers are the integers (timestamps, identifiers and sizes are integers well inside the
  range where double arithmetic is exact), extended by \<^verbatim>\<open>NaN\<close> and the two infinities,
  which \<^verbatim>\<open>Number(...)\<close> and \<^verbatim>\<open>Math.max(...)\<close> can produce. The limits of the engine (the
  number of arguments that a call can spread, memory) are not part of the model.
\<close>

datatype json =
    JNull
  | JBool bool
  | JNum int
  | JStr string
  | JArr "json list"
  | JObj "(string \<times> json) list"

type_synonym jsval = "json option"

datatype jsnum = NaN | NegInf | Num int | PosInf

type_synonym bytes = "8 word list"

text \<open>
  Two library functions are parameters of the embedding: \<^verbatim>\<open>JSON.parse(b.toString())\<close> on a
  buffer (\<open>None\<close> when it throws), and the numeric reading \<^verbatim>\<open>Number(v)\<close> of a string, an array
  or an object (ECMAScript's StringToNumber after ToPrimitive), consulted only where
  ToPrimitive returns.
\<close>

record runtime =
  JSON_parse :: "bytes \<Rightarrow> json option"
  ToNumber_text :: "json \<Rightarrow> jsnum"

text \<open>\<^verbatim>\<open>v.k\<close> for the property names the relay reads, on a value that is not null.\<close>

fun get :: "json \<Rightarrow> string \<Rightarrow> jsval" where
  "get (JObj ps) k = map_of ps k"
| "get _ k = None"

text \<open>\<^verbatim>\<open>v?.k\<close>: undefined on null and undefined.\<close>

fun opt_get :: "jsval \<Rightarrow> string \<Rightarrow> jsval" where
  "opt_get None k = None"
| "opt_get (Some JNull) k = None"
| "opt_get (Some v) k = get v k"

definition nullish :: "jsval \<Rightarrow> bool" where
  "nullish v = (v = None \<or> v = Some JNull)"

text \<open>\<^verbatim>\<open>a ?? b\<close>, and the same with a right operand that is not undefined.\<close>

definition coalesce :: "jsval \<Rightarrow> jsval \<Rightarrow> jsval" where
  "coalesce a b = (if nullish a then b else a)"

fun or_else :: "jsval \<Rightarrow> json \<Rightarrow> json" where
  "or_else None b = b"
| "or_else (Some JNull) b = b"
| "or_else (Some v) b = v"

text \<open>
  Conversion to a primitive. \<^verbatim>\<open>Number(v)\<close>, \<^verbatim>\<open>String(v)\<close> and the interpolation
  \<^verbatim>\<open>`${v}`\<close> of an object call its \<^verbatim>\<open>toString\<close> and \<^verbatim>\<open>valueOf\<close>. On a parsed object an own
  property \<^verbatim>\<open>toString\<close> is never callable and hides \<^verbatim>\<open>Object.prototype.toString\<close>, and
  \<^verbatim>\<open>valueOf\<close> gives no primitive: the conversion throws a \<^verbatim>\<open>TypeError\<close>. An array is
  joined from the conversions of its elements, \<^verbatim>\<open>null\<close> elements apart.
\<close>

fun to_primitive_throws :: "json \<Rightarrow> bool" where
  "to_primitive_throws (JObj ps) = (map_of ps ''toString'' \<noteq> None)"
| "to_primitive_throws (JArr xs) = (\<exists>x \<in> set xs. to_primitive_throws x)"
| "to_primitive_throws v = False"

fun converts :: "jsval \<Rightarrow> bool" where
  "converts None = True"
| "converts (Some v) = (\<not> to_primitive_throws v)"

text \<open>\<^verbatim>\<open>Number(v)\<close>, where the conversion of \<open>v\<close> to a primitive returns.\<close>

fun Number :: "runtime \<Rightarrow> jsval \<Rightarrow> jsnum" where
  "Number rt None = NaN"
| "Number rt (Some JNull) = Num 0"
| "Number rt (Some (JBool b)) = Num (if b then 1 else 0)"
| "Number rt (Some (JNum n)) = Num n"
| "Number rt (Some v) = ToNumber_text rt v"

text \<open>Truthiness of a value and of a number.\<close>

fun truthy :: "jsval \<Rightarrow> bool" where
  "truthy None = False"
| "truthy (Some JNull) = False"
| "truthy (Some (JBool b)) = b"
| "truthy (Some (JNum n)) = (n \<noteq> 0)"
| "truthy (Some (JStr s)) = (s \<noteq> [])"
| "truthy (Some (JArr xs)) = True"
| "truthy (Some (JObj ps)) = True"

fun truthy_num :: "jsnum \<Rightarrow> bool" where
  "truthy_num NaN = False"
| "truthy_num (Num n) = (n \<noteq> 0)"
| "truthy_num NegInf = True"
| "truthy_num PosInf = True"

text \<open>\<^verbatim>\<open>a >= b\<close>, \<^verbatim>\<open>a < b\<close>, \<^verbatim>\<open>a + 1\<close> and \<^verbatim>\<open>Math.max\<close> on numbers.\<close>

fun num_ge :: "jsnum \<Rightarrow> jsnum \<Rightarrow> bool" where
  "num_ge NaN b = False"
| "num_ge a NaN = False"
| "num_ge PosInf b = True"
| "num_ge a NegInf = True"
| "num_ge NegInf b = False"
| "num_ge a PosInf = False"
| "num_ge (Num x) (Num y) = (y \<le> x)"

fun num_lt :: "jsnum \<Rightarrow> jsnum \<Rightarrow> bool" where
  "num_lt NaN b = False"
| "num_lt a NaN = False"
| "num_lt a b = (\<not> num_ge a b)"

fun plus1 :: "jsnum \<Rightarrow> jsnum" where
  "plus1 (Num n) = Num (n + 1)"
| "plus1 a = a"

fun max2 :: "jsnum \<Rightarrow> jsnum \<Rightarrow> jsnum" where
  "max2 NaN b = NaN"
| "max2 a NaN = NaN"
| "max2 a b = (if num_ge a b then a else b)"

definition Math_max :: "jsnum list \<Rightarrow> jsnum" where
  "Math_max xs = foldl max2 NegInf xs"

text \<open>
  Errors. A remote error carries what the template literal of \<^verbatim>\<open>waitFor\<close> interpolates: the
  description, else the error code, else the serialized payload.
\<close>

datatype detail = Described jsval | Coded jsval | Serialized jsval

datatype error =
    Timeout int
  | CTraderError jsnum detail
  | TypeError
  | ConnectTimeout
  | ConnectError

text \<open>
  What \<^verbatim>\<open>for (const x of v)\<close> and \<^verbatim>\<open>...v\<close> run over: the elements of an array, the characters of
  a string (each taken as one unit of its length); any other value is not iterable.
\<close>

fun iterate :: "json \<Rightarrow> error + json list" where
  "iterate (JArr xs) = Inr xs"
| "iterate (JStr s) = Inr (map (\<lambda>c. JStr [c]) s)"
| "iterate _ = Inl TypeError"

text \<open>\<^verbatim>\<open>v.length\<close> on a value that is not null.\<close>

fun length_of :: "json \<Rightarrow> jsval" where
  "length_of (JArr xs) = Some (JNum (int (length xs)))"
| "length_of (JStr s) = Some (JNum (int (length s)))"
| "length_of (JObj ps) = map_of ps ''length''"
| "length_of _ = None"

section \<open>The connection and the request/response correlator\<close>

text \<open>
  The remote side and the clock are the list \<open>inbound\<close>: the data events and timer expiries that
  occur while a wait is pending, in order. When the list is exhausted the remote side is silent
  and the pending wait's timer is what fires next. \<open>sent\<close> is the log of \<^verbatim>\<open>sendMsg\<close> calls
  (the \<^verbatim>\<open>clientMsgId\<close>, made from the clock, is left out), \<open>received\<close> the log of the messages
  that resolved a wait, \<open>connects\<close> counts the calls of \<^verbatim>\<open>new WebSocket\<close> and of
  \<^verbatim>\<open>tls.connect\<close>. \<open>terminated\<close> counts the
  calls of \<^verbatim>\<open>ws.terminate()\<close> made by \<^verbatim>\<open>connectWS\<close> and by \<^verbatim>\<open>syncAccount\<close>, and in the TCP
  variant the calls of \<^verbatim>\<open>sock.destroy()\<close> made by \<^verbatim>\<open>syncAccount\<close>.

  Three fields belong to the TCP variant alone, and the WebSocket variants never touch them:
  \<open>buf\<close> is the buffer of the frame reader; \<open>idle_destroys\<close> counts the calls of
  \<^verbatim>\<open>sock.destroy()\<close> made by the \<^verbatim>\<open>'timeout'\<close> listener that \<^verbatim>\<open>connectCtrader\<close> registers with
  \<^verbatim>\<open>sock.setTimeout(12000)\<close> and never removes; \<open>destroyed\<close> tells that this listener has
  destroyed the socket, after which the socket emits neither data nor a further \<^verbatim>\<open>'timeout'\<close>.
  The event \<open>SocketIdle\<close> is the socket's \<^verbatim>\<open>'timeout'\<close> event; a WebSocket has none. Sending
  on a socket is only logged: what the socket does with the bytes, and a close by the remote
  side, are not part of the model.
\<close>

datatype event = Data bytes | TimerFired | SocketIdle

datatype pval = PJson jsval | PNum jsnum | PBool bool | PNums "jsnum list"

record conn =
  inbound :: "event list"
  buf :: bytes
  sent :: "(int \<times> (string \<times> pval) list) list"
  received :: "json list"
  terminated :: nat
  connects :: nat
  destroyed :: bool
  idle_destroys :: nat

definition sendMsg :: "conn \<Rightarrow> int \<Rightarrow> (string \<times> pval) list \<Rightarrow> conn" where
  "sendMsg ws payloadType payload = ws\<lparr>sent := sent ws @ [(payloadType, payload)]\<rparr>"

text \<open>
  A pending wait of \<^verbatim>\<open>waitFor\<close>: whether its handler is registered on the message stream,
  whether its timer is armed, and its promise. A settled promise ignores \<^verbatim>\<open>resolve\<close> and
  \<^verbatim>\<open>reject\<close>.
\<close>

datatype promise = Pending | Resolved json | Rejected error

record wait =
  listening :: bool
  timer :: bool
  promise :: promise

definition resolve :: "json \<Rightarrow> wait \<Rightarrow> wait" where
  "resolve msg w = (if promise w = Pending then w\<lparr>promise := Resolved msg\<rparr> else w)"

definition reject :: "error \<Rightarrow> wait \<Rightarrow> wait" where
  "reject e w = (if promise w = Pending then w\<lparr>promise := Rejected e\<rparr> else w)"

text \<open>
  \<^verbatim>\<open>Number(msg.payloadType ?? 0)\<close> on a parsed message. It throws, the result \<open>None\<close>, on a
  parsed \<^verbatim>\<open>null\<close> (\<^verbatim>\<open>null.payloadType\<close>) and on a \<^verbatim>\<open>payloadType\<close> whose conversion throws.
\<close>

definition payloadType_of :: "runtime \<Rightarrow> json \<Rightarrow> jsnum option" where
  "payloadType_of rt msg =
     (if msg = JNull then None
      else let v = or_else (get msg ''payloadType'') (JNum 0) in
           if to_primitive_throws v then None else Some (Number rt (Some v)))"

text \<open>\<^verbatim>\<open>msg.payload?.description ?? msg.payload?.errorCode ?? JSON.stringify(msg.payload)\<close>\<close>

definition error_detail :: "json \<Rightarrow> detail" where
  "error_detail msg =
     (let payload = get msg ''payload'';
          description = opt_get payload ''description'';
          errorCode = opt_get payload ''errorCode''
      in if \<not> nullish description then Described description
         else if \<not> nullish errorCode then Coded errorCode
         else Serialized payload)"

text \<open>
  Whether the template literal that makes the error's message returns: the description or the
  error code is converted to a string, the serialized payload is a string already (or
  \<^verbatim>\<open>undefined\<close>; \<^verbatim>\<open>JSON.stringify\<close> does not throw on a parsed value).
\<close>

fun interpolates :: "detail \<Rightarrow> bool" where
  "interpolates (Described v) = converts v"
| "interpolates (Coded v) = converts v"
| "interpolates (Serialized v) = True"

text \<open>
  The handler of \<^verbatim>\<open>waitFor\<close> on a parsed message, the same text in the three files. An
  exception inside the event listener is caught by nothing: the process dies, which is the
  result \<open>None\<close>. That is what reading the payload type can do, and what the template literal
  of the error branch can do: there the timer has been cleared and the handler removed, and
  \<^verbatim>\<open>reject\<close> is not reached.
\<close>

definition on_message :: "runtime \<Rightarrow> int \<Rightarrow> json \<Rightarrow> wait \<Rightarrow> wait option" where
  "on_message rt wantType msg w =
     (case payloadType_of rt msg of
        None \<Rightarrow> None
      | Some pt \<Rightarrow>
          if pt = Num wantType then
            Some (resolve msg (w\<lparr>timer := False, listening := False\<rparr>))
          else if pt = Num 50 \<or> pt = Num 2142 then
            (if interpolates (error_detail msg) then
               Some (reject (CTraderError pt (error_detail msg))
                            (w\<lparr>timer := False, listening := False\<rparr>))
             else None)
          else Some w)"

text \<open>The WebSocket handler parses the frame first; data that does not parse is dropped.\<close>

definition handler :: "runtime \<Rightarrow> int \<Rightarrow> bytes \<Rightarrow> wait \<Rightarrow> wait option" where
  "handler rt wantType data w =
     (case JSON_parse rt data of
        None \<Rightarrow> Some w
      | Some msg \<Rightarrow> on_message rt wantType msg w)"

text \<open>The timer callback of \<^verbatim>\<open>waitFor\<close>.\<close>

definition on_timeout :: "int \<Rightarrow> wait \<Rightarrow> wait" where
  "on_timeout wantType w = reject (Timeout wantType) (w\<lparr>listening := False\<rparr>)"

text \<open>
  One event reaches the wait: a frame calls the handler while it is registered, the clock
  runs the timer callback once while the timer is armed. Nothing listens to the idle event.
\<close>

fun emit :: "runtime \<Rightarrow> int \<Rightarrow> wait \<Rightarrow> event \<Rightarrow> wait option" where
  "emit rt wantType w (Data d) = (if listening w then handler rt wantType d w else Some w)"
| "emit rt wantType w TimerFired =
     (if timer w then Some (on_timeout wantType (w\<lparr>timer := False\<rparr>)) else Some w)"
| "emit rt wantType w SocketIdle = Some w"

text \<open>Events are delivered until the promise is settled; with no event left the timer fires.\<close>

fun pump :: "runtime \<Rightarrow> int \<Rightarrow> wait \<Rightarrow> event list \<Rightarrow> (wait \<times> event list) option" where
  "pump rt wantType w [] =
     (case emit rt wantType w TimerFired of None \<Rightarrow> None | Some w' \<Rightarrow> Some (w', []))"
| "pump rt wantType w (e # es) =
     (case emit rt wantType w e of
        None \<Rightarrow> None
      | Some w' \<Rightarrow> if promise w' = Pending then pump rt wantType w' es else Some (w', es))"

text \<open>
  What an awaited operation comes to: it returns, it throws, or its promise never settles
  (the process died of an uncaught exception).
\<close>

datatype 'a result = Never | Threw error | Returned 'a

definition new_wait :: wait where
  "new_wait = \<lparr>listening = True, timer = True, promise = Pending\<rparr>"

text \<open>What \<^verbatim>\<open>await\<close> makes of the promise of a wait.\<close>

fun settle :: "promise \<Rightarrow> conn \<Rightarrow> json result \<times> conn" where
  "settle (Resolved msg) ws = (Returned msg, ws\<lparr>received := received ws @ [msg]\<rparr>)"
| "settle (Rejected e) ws = (Threw e, ws)"
| "settle Pending ws = (Never, ws)"

definition waitFor :: "runtime \<Rightarrow> conn \<Rightarrow> int \<Rightarrow> json result \<times> conn" where
  "waitFor rt ws wantType =
     (case pump rt wantType new_wait (inbound ws) of
        None \<Rightarrow> (Never, ws)
      | Some (w, rest) \<Rightarrow> settle (promise w) (ws\<lparr>inbound := rest\<rparr>))"

section \<open>The frame reader of the TCP variant (src/unnamed/part\_000)\<close>

text \<open>\<^verbatim>\<open>buf.readUInt32BE(0)\<close>, called on four bytes or more.\<close>

definition readUInt32BE :: "bytes \<Rightarrow> nat" where
  "readUInt32BE b =
     unat (b ! 0) * 16777216 + unat (b ! 1) * 65536 + unat (b ! 2) * 256 + unat (b ! 3)"

text \<open>
  The \<^verbatim>\<open>while (buf.length >= 4)\<close> loop of the data listener. \<open>fn\<close> is what
  \<^verbatim>\<open>handlers.forEach(fn => fn(msg))\<close> does to the registered handlers' state \<open>h\<close>; a handler that
  throws ends the process (\<open>None\<close>). The result is the buffer left and the handlers' state.
\<close>

function frame_loop ::
  "runtime \<Rightarrow> (json \<Rightarrow> 'h \<Rightarrow> 'h option) \<Rightarrow> bytes \<Rightarrow> 'h \<Rightarrow> (bytes \<times> 'h) option" where
  "frame_loop rt fn b h =
     (if 4 \<le> length b then
        (let len = readUInt32BE b in
         if len \<le> 0 \<or> 2000000 < len then Some ([], h)
         else if length b < 4 + len then Some (b, h)
         else (case JSON_parse rt (take len (drop 4 b)) of
                 None \<Rightarrow> Some (b, h)
               | Some msg \<Rightarrow>
                   (case fn msg h of
                      None \<Rightarrow> None
                    | Some h' \<Rightarrow> frame_loop rt fn (drop (4 + len) b) h')))
      else Some (b, h))"
  by pat_completeness auto
termination
  by (relation "measure (\<lambda>(rt, fn, b, h). length b)") auto

declare frame_loop.simps [simp del]

text \<open>The data listener: \<^verbatim>\<open>buf = Buffer.concat([buf, chunk])\<close>, then the loop.\<close>

definition on_data ::
  "runtime \<Rightarrow> (json \<Rightarrow> 'h \<Rightarrow> 'h option) \<Rightarrow> bytes \<Rightarrow> bytes \<Rightarrow> 'h \<Rightarrow> (bytes \<times> 'h) option" where
  "on_data rt fn b chunk h = frame_loop rt fn (b @ chunk) h"

text \<open>A handler that only records the messages it is given, to observe what a read yields.\<close>

definition collect :: "json \<Rightarrow> json list \<Rightarrow> json list option" where
  "collect msg acc = Some (acc @ [msg])"

text \<open>
  \<^verbatim>\<open>waitFor\<close> of the TCP variant: the handler of the wait is in the reader's list while the
  wait is listening; messages decoded after it left the list reach no handler.
\<close>

definition reader_handler :: "runtime \<Rightarrow> int \<Rightarrow> json \<Rightarrow> wait \<Rightarrow> wait option" where
  "reader_handler rt wantType msg w = (if listening w then on_message rt wantType msg w else Some w)"

text \<open>
  The \<^verbatim>\<open>'timeout'\<close> listener of \<^verbatim>\<open>connectCtrader\<close>, which stays on the socket after the
  connection is made: \<^verbatim>\<open>sock.destroy(); reject(...)\<close>, where \<^verbatim>\<open>reject\<close> does nothing to the
  promise of the connection once that is settled.
\<close>

definition on_idle :: "conn \<Rightarrow> conn" where
  "on_idle sock = sock\<lparr>destroyed := True, idle_destroys := idle_destroys sock + 1\<rparr>"

text \<open>
  One event reaches the socket and the wait. A destroyed socket emits nothing any more; the
  timer of the wait is not the socket's.
\<close>

fun emit_tcp :: "runtime \<Rightarrow> int \<Rightarrow> wait \<times> conn \<Rightarrow> event \<Rightarrow> (wait \<times> conn) option" where
  "emit_tcp rt wantType (w, sock) (Data chunk) =
     (if destroyed sock then Some (w, sock)
      else (case on_data rt (reader_handler rt wantType) (buf sock) chunk w of
              None \<Rightarrow> None
            | Some (b', w') \<Rightarrow> Some (w', sock\<lparr>buf := b'\<rparr>)))"
| "emit_tcp rt wantType (w, sock) TimerFired =
     (if timer w then Some (on_timeout wantType (w\<lparr>timer := False\<rparr>), sock) else Some (w, sock))"
| "emit_tcp rt wantType (w, sock) SocketIdle =
     (if destroyed sock then Some (w, sock) else Some (w, on_idle sock))"

fun pump_tcp ::
  "runtime \<Rightarrow> int \<Rightarrow> wait \<times> conn \<Rightarrow> event list \<Rightarrow> ((wait \<times> conn) \<times> event list) option" where
  "pump_tcp rt wantType ws [] =
     (case emit_tcp rt wantType ws TimerFired of None \<Rightarrow> None | Some ws' \<Rightarrow> Some (ws', []))"
| "pump_tcp rt wantType ws (e # es) =
     (case emit_tcp rt wantType ws e of
        None \<Rightarrow> None
      | Some ws' \<Rightarrow>
          if promise (fst ws') = Pending then pump_tcp rt wantType ws' es else Some (ws', es))"

definition waitFor_tcp :: "runtime \<Rightarrow> conn \<Rightarrow> int \<Rightarrow> json result \<times> conn" where
  "waitFor_tcp rt sock wantType =
     (case pump_tcp rt wantType (new_wait, sock) (inbound sock) of
        None \<Rightarrow> (Never, sock)
      | Some ((w, sock'), rest) \<Rightarrow> settle (promise w) (sock'\<lparr>inbound := rest\<rparr>))"

section \<open>The session protocol sequencer\<close>

text \<open>The argument of \<^verbatim>\<open>syncAccount\<close>, the tables it builds and the object it returns.\<close>

record account =
  host :: jsval
  clientId :: jsval
  clientSecret :: jsval
  accessToken :: jsval
  ctidAccountId :: jsnum
  fromTimestamp :: jsnum
  toTimestamp :: jsnum

type_synonym symtab = "jsnum \<rightharpoonup> json"
type_synonym lottab = "jsnum \<rightharpoonup> jsnum"

text \<open>
  The returned object, with the type of its \<^verbatim>\<open>symbols\<close> as a parameter; \<^verbatim>\<open>lotSizes\<close> is \<open>None\<close>
  in the two files that return no such property.
\<close>

record 's sync_result =
  res_deals :: "json list"
  res_symbols :: 's
  res_lotSizes :: "lottab option"
  res_pages :: nat
  res_total :: nat

text \<open>
  \<^verbatim>\<open>connectWS\<close> of the WebSocket variants. The address is made with the template literal
  \<^verbatim>\<open>`wss://${host}:5036`\<close> inside the executor of the promise: when the conversion of the host
  throws, the promise is rejected and no socket is constructed. How the attempt ends
  otherwise is the environment's choice. On the connect timeout the socket is terminated by
  the timer callback of \<^verbatim>\<open>connectWS\<close> itself.
\<close>

datatype handshake = Opens | OpenTimesOut | OpenFails

definition connectWS :: "handshake \<Rightarrow> jsval \<Rightarrow> conn \<Rightarrow> unit result \<times> conn" where
  "connectWS h host' s =
     (if \<not> converts host' then (Threw TypeError, s)
      else (case h of
              Opens \<Rightarrow> (Returned (), s\<lparr>connects := connects s + 1\<rparr>)
            | OpenTimesOut \<Rightarrow>
                (Threw ConnectTimeout, s\<lparr>connects := connects s + 1, terminated := terminated s + 1\<rparr>)
            | OpenFails \<Rightarrow> (Threw ConnectError, s\<lparr>connects := connects s + 1\<rparr>)))"

text \<open>
  \<^verbatim>\<open>connectCtrader\<close> of the TCP variant. \<^verbatim>\<open>tls.connect\<close> is called inside the executor of the
  promise and converts the host to a string (to tell an address from a name): when that
  conversion throws, the promise is rejected before any listener is registered. Otherwise the
  host converts, also where the callback of the connection and the \<^verbatim>\<open>'timeout'\<close> listener
  interpolate it. On the connect timeout the listener destroys the socket before it rejects.
\<close>

definition connectCtrader :: "handshake \<Rightarrow> jsval \<Rightarrow> conn \<Rightarrow> unit result \<times> conn" where
  "connectCtrader h host' s =
     (let sock = s\<lparr>connects := connects s + 1, destroyed := False\<rparr>
      in if \<not> converts host' then (Threw TypeError, sock)
         else (case h of
                 Opens \<Rightarrow> (Returned (), sock)
               | OpenTimesOut \<Rightarrow> (Threw ConnectTimeout, on_idle sock)
               | OpenFails \<Rightarrow> (Threw ConnectError, sock)))"

subsection \<open>Deal pagination\<close>

text \<open>\<^verbatim>\<open>deals.map(d => Number(d.executionTimestamp))\<close>\<close>

fun execution_timestamps :: "runtime \<Rightarrow> json list \<Rightarrow> error + jsnum list" where
  "execution_timestamps rt [] = Inr []"
| "execution_timestamps rt (JNull # ds) = Inl TypeError"
| "execution_timestamps rt (d # ds) =
     (if \<not> converts (get d ''executionTimestamp'') then Inl TypeError
      else case execution_timestamps rt ds of
             Inl e \<Rightarrow> Inl e
           | Inr ts \<Rightarrow> Inr (Number rt (get d ''executionTimestamp'') # ts))"

fun map_timestamps :: "runtime \<Rightarrow> json \<Rightarrow> error + jsnum list" where
  "map_timestamps rt (JArr ds) = execution_timestamps rt ds"
| "map_timestamps rt _ = Inl TypeError"

text \<open>The payload of a deal-list request, and \<^verbatim>\<open>r.payload?.deal ?? []\<close>.\<close>

definition deal_request :: "account \<Rightarrow> jsnum \<Rightarrow> (string \<times> pval) list" where
  "deal_request a pageFrom =
     [(''ctidTraderAccountId'', PNum (ctidAccountId a)), (''fromTimestamp'', PNum pageFrom),
      (''toTimestamp'', PNum (toTimestamp a)), (''maxRows'', PNum (Num 500))]"

definition deal_of :: "json \<Rightarrow> json" where
  "deal_of r = or_else (opt_get (get r ''payload'') ''deal'') (JArr [])"

text \<open>
  The \<^verbatim>\<open>while (pages < 40)\<close> loop, the same text in the three files up to the \<^verbatim>\<open>waitFor\<close> it
  calls (\<open>awaitFor\<close>) and the request and response types (2133 and 2134 in src/index.js, 2155 and
  2156 in the other two). It returns \<^verbatim>\<open>allDeals\<close> and \<^verbatim>\<open>pages\<close>.
\<close>

function dealLoop ::
  "(conn \<Rightarrow> int \<Rightarrow> json result \<times> conn) \<Rightarrow> runtime \<Rightarrow> int \<Rightarrow> int \<Rightarrow> account \<Rightarrow> conn
     \<Rightarrow> json list \<Rightarrow> jsnum \<Rightarrow> nat \<Rightarrow> (json list \<times> nat) result \<times> conn" where
  "dealLoop awaitFor rt req res a ws allDeals pageFrom pages =
     (if pages < 40 then
        (let ws1 = sendMsg ws req (deal_request a pageFrom)
         in case awaitFor ws1 res of
              (Never, ws2) \<Rightarrow> (Never, ws2)
            | (Threw e, ws2) \<Rightarrow> (Threw e, ws2)
            | (Returned r, ws2) \<Rightarrow>
                (let deals = deal_of r
                 in if \<not> truthy (length_of deals) then (Returned (allDeals, pages), ws2)
                    else case iterate deals of
                           Inl e \<Rightarrow> (Threw e, ws2)
                         | Inr ds \<Rightarrow>
                             if num_lt (Number rt (length_of deals)) (Num 500)
                             then (Returned (allDeals @ ds, pages + 1), ws2)
                             else (case map_timestamps rt deals of
                                     Inl e \<Rightarrow> (Threw e, ws2)
                                   | Inr ts \<Rightarrow>
                                       if num_ge (plus1 (Math_max ts)) (toTimestamp a)
                                       then (Returned (allDeals @ ds, pages + 1), ws2)
                                       else dealLoop awaitFor rt req res a ws2 (allDeals @ ds)
                                              (plus1 (Math_max ts)) (pages + 1))))
      else (Returned (allDeals, pages), ws))"
  by pat_completeness auto
termination
  by (relation "measure (\<lambda>(awaitFor, rt, req, res, a, ws, allDeals, pageFrom, pages). 40 - pages)") auto

declare dealLoop.simps [simp del]

subsection \<open>src/index.js: symbol list\<close>

text \<open>The body of \<^verbatim>\<open>for (const s of symList)\<close>; the table built so far survives a throw.\<close>

fun symbol_entries :: "runtime \<Rightarrow> json list \<Rightarrow> symtab \<Rightarrow> error option \<times> symtab" where
  "symbol_entries rt [] symbols = (None, symbols)"
| "symbol_entries rt (JNull # ss) symbols = (Some TypeError, symbols)"
| "symbol_entries rt (s # ss) symbols =
     (let v = or_else (coalesce (get s ''symbolId'') (get s ''id'')) (JNum 0)
      in if to_primitive_throws v then (Some TypeError, symbols)
         else (let id = Number rt (Some v);
                   name = or_else (coalesce (get s ''symbolName'') (get s ''name'')) JNull
               in symbol_entries rt ss
                    (if truthy_num id \<and> truthy (Some name) then symbols(id \<mapsto> name)
                     else symbols)))"

text \<open>The \<^verbatim>\<open>try\<close> block of the symbol-list step.\<close>

definition symbolList :: "runtime \<Rightarrow> account \<Rightarrow> conn \<Rightarrow> symtab \<Rightarrow> (unit result \<times> symtab) \<times> conn" where
  "symbolList rt a ws symbols =
     (let ws1 = sendMsg ws 2119 [(''ctidTraderAccountId'', PNum (ctidAccountId a)),
                                 (''includeArchivedSymbols'', PBool False)]
      in case waitFor rt ws1 2120 of
           (Never, ws2) \<Rightarrow> ((Never, symbols), ws2)
         | (Threw e, ws2) \<Rightarrow> ((Threw e, symbols), ws2)
         | (Returned symRes, ws2) \<Rightarrow>
             (let symList = or_else (coalesce (opt_get (get symRes ''payload'') ''symbol'')
                                              (opt_get (get symRes ''payload'') ''symbols'')) (JArr [])
              in case iterate symList of
                   Inl e \<Rightarrow> ((Threw e, symbols), ws2)
                 | Inr ss \<Rightarrow>
                     (case symbol_entries rt ss symbols of
                        (Some e, symbols') \<Rightarrow> ((Threw e, symbols'), ws2)
                      | (None, symbols') \<Rightarrow> ((Returned (), symbols'), ws2))))"

subsection \<open>src/index.js: symbol details and lot sizes\<close>

text \<open>\<^verbatim>\<open>allDeals.map(d => Number(d.symbolId ?? 0))\<close>\<close>

fun symbol_ids :: "runtime \<Rightarrow> json list \<Rightarrow> error + jsnum list" where
  "symbol_ids rt [] = Inr []"
| "symbol_ids rt (JNull # ds) = Inl TypeError"
| "symbol_ids rt (d # ds) =
     (if to_primitive_throws (or_else (get d ''symbolId'') (JNum 0)) then Inl TypeError
      else case symbol_ids rt ds of
             Inl e \<Rightarrow> Inl e
           | Inr ids \<Rightarrow> Inr (Number rt (Some (or_else (get d ''symbolId'') (JNum 0))) # ids))"

text \<open>\<^verbatim>\<open>[...new Set(xs)]\<close>: the first occurrence of each element, in insertion order.\<close>

fun distinct_in_order :: "'a list \<Rightarrow> 'a list" where
  "distinct_in_order [] = []"
| "distinct_in_order (x # xs) = x # distinct_in_order (filter (\<lambda>y. y \<noteq> x) xs)"

definition uniqueIds_of :: "runtime \<Rightarrow> json list \<Rightarrow> error + jsnum list" where
  "uniqueIds_of rt allDeals =
     (case symbol_ids rt allDeals of
        Inl e \<Rightarrow> Inl e
      | Inr ids \<Rightarrow> Inr (distinct_in_order (filter truthy_num ids)))"

text \<open>The body of \<^verbatim>\<open>for (const d of detRes.payload?.symbolDetails ?? [])\<close>.\<close>

fun detail_entries ::
  "runtime \<Rightarrow> json list \<Rightarrow> symtab \<times> lottab \<Rightarrow> error option \<times> symtab \<times> lottab" where
  "detail_entries rt [] (symbols, lotSizes) = (None, symbols, lotSizes)"
| "detail_entries rt (JNull # ds) (symbols, lotSizes) = (Some TypeError, symbols, lotSizes)"
| "detail_entries rt (d # ds) (symbols, lotSizes) =
     (if to_primitive_throws (or_else (get d ''symbolId'') (JNum 0))
         \<or> to_primitive_throws (or_else (get d ''lotSize'') (JNum 0))
      then (Some TypeError, symbols, lotSizes)
      else (let id = Number rt (Some (or_else (get d ''symbolId'') (JNum 0)));
                lot = Number rt (Some (or_else (get d ''lotSize'') (JNum 0)));
                nm = or_else (coalesce (get d ''symbolName'') (get d ''name'')) JNull
            in detail_entries rt ds
                 (if truthy_num id \<and> truthy (Some nm) \<and> \<not> truthy (symbols id)
                  then symbols(id \<mapsto> nm) else symbols,
                  if truthy_num id \<and> truthy_num lot then lotSizes(id \<mapsto> lot) else lotSizes)))"

text \<open>The \<^verbatim>\<open>for (let i = 0; i < uniqueIds.length; i += 50)\<close> loop inside the \<^verbatim>\<open>try\<close>.\<close>

function detailLoop ::
  "runtime \<Rightarrow> account \<Rightarrow> jsnum list \<Rightarrow> nat \<Rightarrow> conn \<Rightarrow> symtab \<times> lottab
     \<Rightarrow> (unit result \<times> symtab \<times> lottab) \<times> conn" where
  "detailLoop rt a uniqueIds i ws tabs =
     (if i < length uniqueIds then
        (let chunk = take 50 (drop i uniqueIds);
             ws1 = sendMsg ws 2125 [(''ctidTraderAccountId'', PNum (ctidAccountId a)),
                                    (''symbolId'', PNums chunk)]
         in case waitFor rt ws1 2126 of
              (Never, ws2) \<Rightarrow> ((Never, tabs), ws2)
            | (Threw e, ws2) \<Rightarrow> ((Threw e, tabs), ws2)
            | (Returned detRes, ws2) \<Rightarrow>
                (case iterate (or_else (opt_get (get detRes ''payload'') ''symbolDetails'') (JArr [])) of
                   Inl e \<Rightarrow> ((Threw e, tabs), ws2)
                 | Inr ds \<Rightarrow>
                     (case detail_entries rt ds tabs of
                        (Some e, tabs') \<Rightarrow> ((Threw e, tabs'), ws2)
                      | (None, tabs') \<Rightarrow> detailLoop rt a uniqueIds (i + 50) ws2 tabs')))
      else ((Returned (), tabs), ws))"
  by pat_completeness auto
termination
  by (relation "measure (\<lambda>(rt, a, uniqueIds, i, ws, tabs). length uniqueIds - i)") auto

declare detailLoop.simps [simp del]

text \<open>
  The symbol-detail step: the distinct identifiers are computed outside the inner \<^verbatim>\<open>try\<close>; whatever
  the batch loop throws is caught and the tables collected so far are kept.
\<close>

definition symbolDetails ::
  "runtime \<Rightarrow> account \<Rightarrow> json list \<Rightarrow> conn \<Rightarrow> symtab \<times> lottab
     \<Rightarrow> (symtab \<times> lottab) result \<times> conn" where
  "symbolDetails rt a allDeals ws tabs =
     (case uniqueIds_of rt allDeals of
        Inl e \<Rightarrow> (Threw e, ws)
      | Inr uniqueIds \<Rightarrow>
          if uniqueIds \<noteq> [] then
            (case detailLoop rt a uniqueIds 0 ws tabs of
               ((Never, tabs'), ws') \<Rightarrow> (Never, ws')
             | ((Threw e, tabs'), ws') \<Rightarrow> (Returned tabs', ws')
             | ((Returned u, tabs'), ws') \<Rightarrow> (Returned tabs', ws'))
          else (Returned tabs, ws))"

subsection \<open>src/index.js: syncAccount\<close>

text \<open>From the deal pagination to the \<^verbatim>\<open>return\<close>, given the Symbol Table of the symbol-list step.\<close>

definition fetchDeals :: "runtime \<Rightarrow> account \<Rightarrow> symtab \<Rightarrow> conn \<Rightarrow> symtab sync_result result \<times> conn" where
  "fetchDeals rt a symbols ws =
     (case dealLoop (waitFor rt) rt 2133 2134 a ws [] (fromTimestamp a) 0 of
        (Never, ws1) \<Rightarrow> (Never, ws1)
      | (Threw e, ws1) \<Rightarrow> (Threw e, ws1)
      | (Returned (allDeals, pages), ws1) \<Rightarrow>
          (case symbolDetails rt a allDeals ws1 (symbols, Map.empty) of
             (Never, ws2) \<Rightarrow> (Never, ws2)
           | (Threw e, ws2) \<Rightarrow> (Threw e, ws2)
           | (Returned (symbols', lotSizes), ws2) \<Rightarrow>
               (Returned \<lparr>res_deals = allDeals, res_symbols = symbols',
                          res_lotSizes = Some lotSizes, res_pages = pages,
                          res_total = length allDeals\<rparr>, ws2)))"

text \<open>The symbol-list step with its \<^verbatim>\<open>catch\<close>, and what follows it.\<close>

definition fetchSymbols :: "runtime \<Rightarrow> account \<Rightarrow> conn \<Rightarrow> symtab sync_result result \<times> conn" where
  "fetchSymbols rt a ws =
     (case symbolList rt a ws Map.empty of
        ((Never, symbols), ws1) \<Rightarrow> (Never, ws1)
      | ((Threw e, symbols), ws1) \<Rightarrow> fetchDeals rt a symbols ws1
      | ((Returned u, symbols), ws1) \<Rightarrow> fetchDeals rt a symbols ws1)"

text \<open>
  Application auth and account auth, the same in the three files up to the \<^verbatim>\<open>waitFor\<close>; \<open>rest\<close>
  is what follows them in the \<^verbatim>\<open>try\<close> block.
\<close>

definition authenticate ::
  "(conn \<Rightarrow> int \<Rightarrow> json result \<times> conn) \<Rightarrow> account \<Rightarrow> conn \<Rightarrow> (conn \<Rightarrow> 'r result \<times> conn)
     \<Rightarrow> 'r result \<times> conn" where
  "authenticate awaitFor a ws rest =
     (case awaitFor (sendMsg ws 2100 [(''clientId'', PJson (clientId a)),
                                (''clientSecret'', PJson (clientSecret a))]) 2101 of
        (Never, ws1) \<Rightarrow> (Never, ws1)
      | (Threw e, ws1) \<Rightarrow> (Threw e, ws1)
      | (Returned appAuth, ws1) \<Rightarrow>
          (case awaitFor (sendMsg ws1 2102 [(''ctidTraderAccountId'', PNum (ctidAccountId a)),
                                      (''accessToken'', PJson (accessToken a))]) 2103 of
             (Never, ws2) \<Rightarrow> (Never, ws2)
           | (Threw e, ws2) \<Rightarrow> (Threw e, ws2)
           | (Returned accountAuth, ws2) \<Rightarrow> rest ws2))"

text \<open>
  The frame of \<^verbatim>\<open>syncAccount\<close>, the same in the three files up to the connect function: the
  connection is made outside the \<^verbatim>\<open>try\<close>; the \<^verbatim>\<open>finally\<close> block terminates the socket when the
  \<^verbatim>\<open>try\<close> block returns or throws.
\<close>

definition with_connection ::
  "(conn \<Rightarrow> unit result \<times> conn) \<Rightarrow> conn \<Rightarrow> (conn \<Rightarrow> 'r result \<times> conn) \<Rightarrow> 'r result \<times> conn" where
  "with_connection connect s body =
     (case connect s of
        (Never, s') \<Rightarrow> (Never, s')
      | (Threw e, s') \<Rightarrow> (Threw e, s')
      | (Returned u, ws) \<Rightarrow>
          (case body ws of
             (Never, ws') \<Rightarrow> (Never, ws')
           | (Threw e, ws') \<Rightarrow> (Threw e, ws'\<lparr>terminated := terminated ws' + 1\<rparr>)
           | (Returned r, ws') \<Rightarrow> (Returned r, ws'\<lparr>terminated := terminated ws' + 1\<rparr>)))"

text \<open>\<^verbatim>\<open>syncAccount\<close> of src/index.js.\<close>

definition syncAccount ::
  "runtime \<Rightarrow> handshake \<Rightarrow> account \<Rightarrow> conn \<Rightarrow> symtab sync_result result \<times> conn" where
  "syncAccount rt h a s =
     with_connection (connectWS h (host a)) s
       (\<lambda>ws. authenticate (waitFor rt) a ws (fetchSymbols rt a))"

subsection \<open>src/unnamed/part\_001: no symbol list\<close>

text \<open>What follows the two auth steps: the pagination and the \<^verbatim>\<open>return\<close>, with \<^verbatim>\<open>symbols = {}\<close>.\<close>

definition plain_fetchDeals :: "runtime \<Rightarrow> account \<Rightarrow> conn \<Rightarrow> symtab sync_result result \<times> conn" where
  "plain_fetchDeals rt a ws =
     (case dealLoop (waitFor rt) rt 2155 2156 a ws [] (fromTimestamp a) 0 of
        (Never, ws1) \<Rightarrow> (Never, ws1)
      | (Threw e, ws1) \<Rightarrow> (Threw e, ws1)
      | (Returned (allDeals, pages), ws1) \<Rightarrow>
          (Returned \<lparr>res_deals = allDeals, res_symbols = Map.empty, res_lotSizes = None,
                     res_pages = pages, res_total = length allDeals\<rparr>, ws1))"

definition syncAccount_plain ::
  "runtime \<Rightarrow> handshake \<Rightarrow> account \<Rightarrow> conn \<Rightarrow> symtab sync_result result \<times> conn" where
  "syncAccount_plain rt h a s =
     with_connection (connectWS h (host a)) s
       (\<lambda>ws. authenticate (waitFor rt) a ws (plain_fetchDeals rt a))"

subsection \<open>src/unnamed/part\_000: the TCP variant\<close>

text \<open>
  \<^verbatim>\<open>for (const s of symRes.payload?.symbol ?? []) symbols[String(s.symbolId)] = s.symbolName\<close>:
  the table is kept as the list of assignments, latest first, with the value of \<^verbatim>\<open>s.symbolId\<close>
  for the key it is converted to, where that conversion returns.
\<close>

fun tcp_symbols :: "json list \<Rightarrow> (jsval \<times> jsval) list \<Rightarrow> error + (jsval \<times> jsval) list" where
  "tcp_symbols [] symbols = Inr symbols"
| "tcp_symbols (JNull # ss) symbols = Inl TypeError"
| "tcp_symbols (s # ss) symbols =
     (if \<not> converts (get s ''symbolId'') then Inl TypeError
      else tcp_symbols ss ((get s ''symbolId'', get s ''symbolName'') # symbols))"

text \<open>The pagination and the \<^verbatim>\<open>return\<close>.\<close>

definition tcp_fetchDeals ::
  "runtime \<Rightarrow> account \<Rightarrow> (jsval \<times> jsval) list \<Rightarrow> conn
     \<Rightarrow> (jsval \<times> jsval) list sync_result result \<times> conn" where
  "tcp_fetchDeals rt a symbols sock =
     (case dealLoop (waitFor_tcp rt) rt 2155 2156 a sock [] (fromTimestamp a) 0 of
        (Never, sock1) \<Rightarrow> (Never, sock1)
      | (Threw e, sock1) \<Rightarrow> (Threw e, sock1)
      | (Returned (allDeals, pages), sock1) \<Rightarrow>
          (Returned \<lparr>res_deals = allDeals, res_symbols = symbols, res_lotSizes = None,
                     res_pages = pages, res_total = length allDeals\<rparr>, sock1))"

text \<open>The symbol-list step, which is not inside a \<^verbatim>\<open>try\<close> of its own here, and what follows it.\<close>

definition tcp_fetchSymbols ::
  "runtime \<Rightarrow> account \<Rightarrow> conn \<Rightarrow> (jsval \<times> jsval) list sync_result result \<times> conn" where
  "tcp_fetchSymbols rt a sock =
     (case waitFor_tcp rt (sendMsg sock 2119 [(''ctidTraderAccountId'', PNum (ctidAccountId a)),
                                              (''includeArchivedSymbols'', PBool False)]) 2120 of
        (Never, sock1) \<Rightarrow> (Never, sock1)
      | (Threw e, sock1) \<Rightarrow> (Threw e, sock1)
      | (Returned symRes, sock1) \<Rightarrow>
          (case iterate (or_else (opt_get (get symRes ''payload'') ''symbol'') (JArr [])) of
             Inl e \<Rightarrow> (Threw e, sock1)
           | Inr ss \<Rightarrow>
               (case tcp_symbols ss [] of
                  Inl e \<Rightarrow> (Threw e, sock1)
                | Inr symbols \<Rightarrow> tcp_fetchDeals rt a symbols sock1)))"

text \<open>
  \<^verbatim>\<open>syncAccount\<close> of the TCP variant; \<^verbatim>\<open>createFrameReader\<close> starts from an empty buffer.
\<close>

definition syncAccount_tcp ::
  "runtime \<Rightarrow> handshake \<Rightarrow> account \<Rightarrow> conn
     \<Rightarrow> (jsval \<times> jsval) list sync_result result \<times> conn" where
  "syncAccount_tcp rt h a s =
     with_connection (connectCtrader h (host a)) s
       (\<lambda>sock. authenticate (waitFor_tcp rt) a (sock\<lparr>buf := []\<rparr>) (tcp_fetchSymbols rt a))"

section \<open>The service boundary: POST /sync\<close>

definition required_fields :: "string list" where
  "required_fields = [''host'', ''clientId'', ''clientSecret'', ''accessToken'', ''ctidAccountId'',
                      ''fromTimestamp'', ''toTimestamp'']"

text \<open>\<^verbatim>\<open>req.body[k] === undefined || req.body[k] === null || req.body[k] === ''\<close>\<close>

definition is_missing :: "json \<Rightarrow> string \<Rightarrow> bool" where
  "is_missing body k = (get body k = None \<or> get body k = Some JNull \<or> get body k = Some (JStr []))"

definition missing_fields :: "json \<Rightarrow> string list" where
  "missing_fields body = filter (is_missing body) required_fields"

text \<open>\<^verbatim>\<open>xs.join(sep)\<close>\<close>

fun join :: "string list \<Rightarrow> string \<Rightarrow> string" where
  "join [] sep = []"
| "join [x] sep = x"
| "join (x # y # ys) sep = x @ sep @ join (y # ys) sep"

text \<open>The \<^verbatim>\<open>error\<close> field of a failure reply: a literal text, or the message of a caught error.\<close>

datatype message = Literal string | Message_of error

datatype 's reply = Failure message | Success "'s sync_result"

text \<open>
  The argument the handler makes for \<^verbatim>\<open>syncAccount\<close>, the three numeric fields through
  \<^verbatim>\<open>Number\<close>. The object literal is evaluated inside the \<^verbatim>\<open>try\<close> block and before the call: a
  conversion that throws is caught there.
\<close>

definition account_of :: "runtime \<Rightarrow> json \<Rightarrow> error + account" where
  "account_of rt body =
     (if \<not> converts (get body ''ctidAccountId'') \<or> \<not> converts (get body ''fromTimestamp'')
         \<or> \<not> converts (get body ''toTimestamp'')
      then Inl TypeError
      else Inr \<lparr>host = get body ''host'', clientId = get body ''clientId'',
                clientSecret = get body ''clientSecret'', accessToken = get body ''accessToken'',
                ctidAccountId = Number rt (get body ''ctidAccountId''),
                fromTimestamp = Number rt (get body ''fromTimestamp''),
                toTimestamp = Number rt (get body ''toTimestamp'')\<rparr>)"

text \<open>
  The route handler, on the parsed body (an object, as the body parser delivers it), the same
  text in the three files up to the words before the list of missing fields and the
  \<^verbatim>\<open>syncAccount\<close> it calls (\<open>sync\<close>). It replies once, or never when the process died during the
  sync. A body that is \<^verbatim>\<open>null\<close> cannot be destructured: the handler throws before its \<^verbatim>\<open>try\<close>
  block and sends no reply.
\<close>

definition respond ::
  "string \<Rightarrow> (account \<Rightarrow> conn \<Rightarrow> 's sync_result result \<times> conn) \<Rightarrow> runtime \<Rightarrow> json \<Rightarrow> conn
     \<Rightarrow> 's reply option \<times> conn" where
  "respond words sync rt body s =
     (if body = JNull then (None, s)
      else let missing = missing_fields body
           in if missing \<noteq> [] then (Some (Failure (Literal (words @ join missing '', ''))), s)
              else (case account_of rt body of
                      Inl e \<Rightarrow> (Some (Failure (Message_of e)), s)
                    | Inr a \<Rightarrow>
                        (case sync a s of
                           (Never, s') \<Rightarrow> (None, s')
                         | (Threw e, s') \<Rightarrow> (Some (Failure (Message_of e)), s')
                         | (Returned result, s') \<Rightarrow> (Some (Success result), s'))))"

text \<open>The handlers of src/index.js, of src/unnamed/part\_001 and of src/unnamed/part\_000.\<close>

definition postSync :: "runtime \<Rightarrow> handshake \<Rightarrow> json \<Rightarrow> conn \<Rightarrow> symtab reply option \<times> conn" where
  "postSync rt h body s = respond ''Missing: '' (syncAccount rt h) rt body s"

definition postSync_plain ::
  "runtime \<Rightarrow> handshake \<Rightarrow> json \<Rightarrow> conn \<Rightarrow> symtab reply option \<times> conn" where
  "postSync_plain rt h body s = respond ''Missing: '' (syncAccount_plain rt h) rt body s"

definition postSync_tcp ::
  "runtime \<Rightarrow> handshake \<Rightarrow> json \<Rightarrow> conn \<Rightarrow> (jsval \<times> jsval) list reply option \<times> conn" where
  "postSync_tcp rt h body s = respond ''Missing fields: '' (syncAccount_tcp rt h) rt body s"

section \<open>Notions for the statements, and concrete inputs\<close>

text \<open>
  For the concrete runs below: a runtime whose parser is a finite table from frame bodies to
  messages and whose numeric reading of text is \<^verbatim>\<open>NaN\<close>; a fresh connection state; and the deals
  that a deal-list response adds to \<^verbatim>\<open>allDeals\<close>.
\<close>

definition table_runtime :: "(bytes \<times> json) list \<Rightarrow> runtime" where
  "table_runtime tab = \<lparr>JSON_parse = map_of tab, ToNumber_text = (\<lambda>v. NaN)\<rparr>"

definition idle :: conn where
  "idle = \<lparr>inbound = [], buf = [], sent = [], received = [], terminated = 0, connects = 0,
           destroyed = False, idle_destroys = 0\<rparr>"

definition page_deals :: "json \<Rightarrow> json list" where
  "page_deals r =
     (if truthy (length_of (deal_of r))
      then (case iterate (deal_of r) of Inl e \<Rightarrow> [] | Inr ds \<Rightarrow> ds)
      else [])"

text \<open>
  The pages of the pagination example: 500 deals executed at 1000, then 120 deals executed at
  1500, as the bodies of frames \<open>[1]\<close> and \<open>[2]\<close>; and an account whose window ends at \<open>t\<close>.
\<close>

definition full_page :: json where
  "full_page = JObj [(''payloadType'', JNum 2134),
                     (''payload'', JObj [(''deal'',
                        JArr (replicate 500 (JObj [(''executionTimestamp'', JNum 1000)])))])]"

definition partial_page :: json where
  "partial_page = JObj [(''payloadType'', JNum 2134),
                        (''payload'', JObj [(''deal'',
                           JArr (replicate 120 (JObj [(''executionTimestamp'', JNum 1500)])))])]"

definition paging_runtime :: runtime where
  "paging_runtime = table_runtime [([1], full_page), ([2], partial_page)]"

text \<open>The same two pages with the response type of the TCP variant.\<close>

definition full_page_tcp :: json where
  "full_page_tcp = JObj [(''payloadType'', JNum 2156),
                         (''payload'', JObj [(''deal'',
                            JArr (replicate 500 (JObj [(''executionTimestamp'', JNum 1000)])))])]"

definition partial_page_tcp :: json where
  "partial_page_tcp = JObj [(''payloadType'', JNum 2156),
                            (''payload'', JObj [(''deal'',
                               JArr (replicate 120 (JObj [(''executionTimestamp'', JNum 1500)])))])]"

definition paging_runtime_tcp :: runtime where
  "paging_runtime_tcp = table_runtime [([1], full_page_tcp), ([2], partial_page_tcp)]"

definition window :: "int \<Rightarrow> account" where
  "window t = \<lparr>host = None, clientId = None, clientSecret = None, accessToken = None,
               ctidAccountId = Num 1, fromTimestamp = Num 0, toTimestamp = Num t\<rparr>"

text \<open>
  A chunk that is exactly one frame of the TCP variant: the four bytes of the length \<open>L\<close> of
  its body, with \<open>0 < L \<le> 2000000\<close>, and a body of \<open>L\<close> bytes that parses to \<open>msg\<close>.
\<close>

definition single_frame :: "runtime \<Rightarrow> bytes \<Rightarrow> json \<Rightarrow> bool" where
  "single_frame rt chunk msg =
     (4 < length chunk \<and> length chunk \<le> 2000004 \<and> readUInt32BE chunk = length chunk - 4
      \<and> JSON_parse rt (drop 4 chunk) = Some msg)"


text \<open>
  What the idle-timeout listener of the TCP variant can have done between two states: nothing,
  or it destroyed the socket, once, and the socket was not destroyed before.
\<close>

definition idle_step :: "conn \<Rightarrow> conn \<Rightarrow> bool" where
  "idle_step ws ws' =
     (if idle_destroys ws' = idle_destroys ws then destroyed ws' = destroyed ws
      else idle_destroys ws' = idle_destroys ws + 1 \<and> destroyed ws' \<and> \<not> destroyed ws)"

text \<open>
  What a step does to the connection apart from reading events and sending: it appends the
  messages \<open>new\<close> to the log of resolved messages and leaves the counters of sockets and of
  terminations alone. Over TCP (\<open>tcp\<close>) the idle-timeout listener may have run; over a
  WebSocket the fields of the TCP socket are left alone.
\<close>

definition grows :: "bool \<Rightarrow> conn \<Rightarrow> conn \<Rightarrow> json list \<Rightarrow> bool" where
  "grows tcp ws ws' new =
     (received ws' = received ws @ new \<and> terminated ws' = terminated ws
      \<and> connects ws' = connects ws
      \<and> (if tcp then idle_step ws ws'
         else idle_destroys ws' = idle_destroys ws \<and> destroyed ws' = destroyed ws))"

text \<open>The messages a wait adds to the log, and the invariant that a resolved wait holds a message
  of the wanted type.\<close>

fun logged :: "json result \<Rightarrow> json list" where
  "logged (Returned m) = [m]"
| "logged _ = []"

definition typed :: "runtime \<Rightarrow> int \<Rightarrow> wait \<Rightarrow> bool" where
  "typed rt t w =
     (case promise w of Resolved m \<Rightarrow> payloadType_of rt m = Some (Num t) | _ \<Rightarrow> True)"

definition of_type :: "runtime \<Rightarrow> int \<Rightarrow> json \<Rightarrow> bool" where
  "of_type rt t m = (payloadType_of rt m = Some (Num t))"

text \<open>
  The messages that resolved a wait between two states, and what the result of a sync must
  be with respect to them: \<open>total\<close> is the number of deals, the deals are those of the deal-list
  responses (of type \<open>res\<close>) in order, \<open>pages\<close> is the number of those responses that added
  deals; and when the first deal-list response is empty the sync returns with no deal, no page
  and total zero.
\<close>

definition new_messages :: "conn \<Rightarrow> conn \<Rightarrow> json list" where
  "new_messages s s' = drop (length (received s)) (received s')"

definition counts_pages :: "runtime \<Rightarrow> int \<Rightarrow> json list \<Rightarrow> 's sync_result result \<Rightarrow> bool" where
  "counts_pages rt res new x =
     ((\<forall>r. x = Returned r \<longrightarrow>
          res_total r = length (res_deals r)
        \<and> res_deals r = concat (map page_deals (filter (of_type rt res) new))
        \<and> res_pages r = length (filter (\<lambda>p. page_deals p \<noteq> []) (filter (of_type rt res) new)))
    \<and> (\<forall>p ps. filter (of_type rt res) new = p # ps \<and> \<not> truthy (length_of (deal_of p)) \<longrightarrow>
          (\<exists>r. x = Returned r \<and> res_deals r = [] \<and> res_pages r = 0 \<and> res_total r = 0)))"

text \<open>
  A short session for the concrete runs of \<^verbatim>\<open>syncAccount\<close>: the two auth responses as the bodies
  of frames \<open>[1]\<close> and \<open>[2]\<close>, an empty deal-list response as \<open>[3]\<close>, a deal-list response
  with three deals on symbol 7 as \<open>[4]\<close>, the symbol-detail response for symbol 7 as \<open>[5]\<close>,
  the same deal-list response with the type the TCP variant waits for as \<open>[6]\<close>, a
  symbol-list response with the symbol 7 as \<open>[7]\<close>, and a remote error as \<open>[8]\<close>.
\<close>

definition three_deals :: "json list" where
  "three_deals = [JObj [(''dealId'', JNum 1), (''symbolId'', JNum 7), (''executionTimestamp'', JNum 100)],
                  JObj [(''dealId'', JNum 2), (''symbolId'', JNum 7), (''executionTimestamp'', JNum 200)],
                  JObj [(''dealId'', JNum 3), (''symbolId'', JNum 7), (''executionTimestamp'', JNum 300)]]"

definition session_runtime :: runtime where
  "session_runtime = table_runtime
     [([1], JObj [(''payloadType'', JNum 2101)]),
      ([2], JObj [(''payloadType'', JNum 2103)]),
      ([3], JObj [(''payloadType'', JNum 2134), (''payload'', JObj [])]),
      ([4], JObj [(''payloadType'', JNum 2134), (''payload'', JObj [(''deal'', JArr three_deals)])]),
      ([5], JObj [(''payloadType'', JNum 2126),
                  (''payload'', JObj [(''symbolDetails'',
                     JArr [JObj [(''symbolId'', JNum 7), (''lotSize'', JNum 100000)]])])]),
      ([6], JObj [(''payloadType'', JNum 2156), (''payload'', JObj [(''deal'', JArr three_deals)])]),
      ([7], JObj [(''payloadType'', JNum 2120),
                  (''payload'', JObj [(''symbol'',
                     JArr [JObj [(''symbolId'', JNum 7), (''symbolName'', JStr ''EURUSD'')]])])]),
      ([8], JObj [(''payloadType'', JNum 2142),
                  (''payload'', JObj [(''errorCode'', JStr ''REQUEST_FREQUENCY_EXCEEDED'')])])]"

text \<open>The symbol-detail batch of the backfill example, as the body of frame \<open>[1]\<close>, and two deals
  on the symbols 7 and 9.\<close>

definition backfill_details :: "json list" where
  "backfill_details =
     [JObj [(''symbolId'', JNum 7), (''name'', JStr ''EURUSD_X''), (''lotSize'', JNum 100000)],
      JObj [(''symbolId'', JNum 9), (''name'', JStr ''GBPUSD''), (''lotSize'', JNum 100000)]]"

definition backfill_response :: json where
  "backfill_response = JObj [(''payloadType'', JNum 2126),
                             (''payload'', JObj [(''symbolDetails'', JArr backfill_details)])]"

definition backfill_deals :: "json list" where
  "backfill_deals = [JObj [(''symbolId'', JNum 7)], JObj [(''symbolId'', JNum 9)]]"

text \<open>Two request bodies: one with \<^verbatim>\<open>clientId\<close> null, \<^verbatim>\<open>clientSecret\<close> empty and no \<^verbatim>\<open>toTimestamp\<close>,
  and a complete one.\<close>

definition incomplete_body :: json where
  "incomplete_body = JObj [(''host'', JStr ''demo.ctraderapi.com''), (''clientId'', JNull),
                           (''clientSecret'', JStr ''''), (''accessToken'', JStr ''t''),
                           (''ctidAccountId'', JNum 1), (''fromTimestamp'', JNum 0)]"

definition complete_body :: json where
  "complete_body = JObj [(''host'', JStr ''demo.ctraderapi.com''), (''clientId'', JStr ''id''),
                         (''clientSecret'', JStr ''secret''), (''accessToken'', JStr ''t''),
                         (''ctidAccountId'', JNum 1), (''fromTimestamp'', JNum 0),
                         (''toTimestamp'', JNum 5000)]"

text \<open>
  A value that has no conversion to a primitive, the parsed \<^verbatim>\<open>{"toString": 1}\<close>; a request
  body with the seven fields present whose account identifier is that value; and a remote error
  message whose description is that value.
\<close>

definition unconvertible :: json where
  "unconvertible = JObj [(''toString'', JNum 1)]"

definition unconvertible_body :: json where
  "unconvertible_body = JObj [(''host'', JStr ''demo.ctraderapi.com''), (''clientId'', JStr ''id''),
                              (''clientSecret'', JStr ''secret''), (''accessToken'', JStr ''t''),
                              (''ctidAccountId'', unconvertible), (''fromTimestamp'', JNum 0),
                              (''toTimestamp'', JNum 5000)]"

definition opaque_error :: json where
  "opaque_error = JObj [(''payloadType'', JNum 50),
                        (''payload'', JObj [(''description'', unconvertible)])]"

section \<open>The correlator: ordering and error precedence\<close>

lemma on_message_of_type:
  "payloadType_of rt msg = Some pt \<Longrightarrow> on_message rt wantType msg w =
     (if pt = Num wantType then
        Some (resolve msg (w\<lparr>timer := False, listening := False\<rparr>))
      else if pt = Num 50 \<or> pt = Num 2142 then
        (if interpolates (error_detail msg) then
           Some (reject (CTraderError pt (error_detail msg)) (w\<lparr>timer := False, listening := False\<rparr>))
         else None)
      else Some w)"
  by (simp add: on_message_def)

lemma payloadType_of_JNull: "payloadType_of rt JNull = None"
  by (simp add: payloadType_of_def)

lemma pump_skip:
  "\<forall>e\<in>set pre. emit rt A w e = Some w \<Longrightarrow> promise w = Pending \<Longrightarrow>
   pump rt A w (pre @ e # es) = pump rt A w (e # es)"
  by (induction pre) simp_all

lemma emit_ignored:
  assumes "JSON_parse rt d = Some b" "payloadType_of rt b = Some tb" "tb \<noteq> Num A"
    "tb \<noteq> Num 50" "tb \<noteq> Num 2142"
  shows "emit rt A w (Data d) = Some w"
  using assms by (simp add: handler_def on_message_of_type)

lemma emit_settled: "\<not> listening w \<Longrightarrow> \<not> timer w \<Longrightarrow> emit rt A w ev = Some w"
  by (cases ev) simp_all

text \<open>
  C3. A wait for payload type \<open>A\<close> is pending and three frames arrive in this order: a heartbeat
  (type 51), a message of a type \<open>B\<close> that is neither \<open>A\<close> nor an error type (50, 2142), and a
  message \<open>m\<close> of type \<open>A\<close>. Then the wait resolves with \<open>m\<close>, exactly as it would had the
  first two frames never arrived, and each of the two leaves the pending wait as it was. The
  handler that the TCP variant registers with its frame reader does the same on the three
  parsed messages.
\<close>

theorem correlator_ordering:
  assumes hb: "JSON_parse rt d1 = Some hb" "payloadType_of rt hb = Some (Num 51)"
      and b: "JSON_parse rt d2 = Some b" "payloadType_of rt b = Some B" "B \<noteq> Num A"
             "B \<noteq> Num 50" "B \<noteq> Num 2142"
      and m: "JSON_parse rt d3 = Some m" "payloadType_of rt m = Some (Num A)"
      and A: "A \<noteq> 51"
  shows "waitFor rt (ws\<lparr>inbound := Data d1 # Data d2 # Data d3 # rest\<rparr>) A
           = (Returned m, ws\<lparr>inbound := rest, received := received ws @ [m]\<rparr>)
       \<and> waitFor rt (ws\<lparr>inbound := Data d1 # Data d2 # Data d3 # rest\<rparr>) A
           = waitFor rt (ws\<lparr>inbound := Data d3 # rest\<rparr>) A
       \<and> emit rt A new_wait (Data d1) = Some new_wait
       \<and> emit rt A new_wait (Data d2) = Some new_wait
       \<and> reader_handler rt A hb new_wait = Some new_wait
       \<and> reader_handler rt A b new_wait = Some new_wait
       \<and> reader_handler rt A m new_wait
           = Some \<lparr>listening = False, timer = False, promise = Resolved m\<rparr>"
proof -
  have r1: "reader_handler rt A hb new_wait = Some new_wait"
    using hb(2) A by (simp add: reader_handler_def on_message_of_type new_wait_def)
  have r2: "reader_handler rt A b new_wait = Some new_wait"
    using b by (simp add: reader_handler_def on_message_of_type new_wait_def)
  have r3: "reader_handler rt A m new_wait
              = Some \<lparr>listening = False, timer = False, promise = Resolved m\<rparr>"
    using m by (simp add: reader_handler_def on_message_of_type new_wait_def resolve_def)
  have e1: "emit rt A new_wait (Data d1) = Some new_wait"
    using hb A by (intro emit_ignored[where b=hb and tb="Num 51"]) auto
  have e2: "emit rt A new_wait (Data d2) = Some new_wait"
    using b by (intro emit_ignored[where b=b and tb=B]) auto
  have e3: "emit rt A new_wait (Data d3) = Some \<lparr>listening = False, timer = False, promise = Resolved m\<rparr>"
    using m by (simp add: handler_def on_message_of_type new_wait_def resolve_def)
  have p: "promise new_wait = Pending" by (simp add: new_wait_def)
  show ?thesis
    using e1 e2 e3 p r1 r2 r3 by (simp add: waitFor_def)
qed

theorem correlator_ordering_witness:
  "waitFor (table_runtime [([1], JObj [(''payloadType'', JNum 51)]),
                           ([2], JObj [(''payloadType'', JNum 2103)]),
                           ([3], JObj [(''payloadType'', JNum 2101), (''payload'', JObj [])])])
     (idle\<lparr>inbound := [Data [1], Data [2], Data [3], Data [2]]\<rparr>) 2101
   = (Returned (JObj [(''payloadType'', JNum 2101), (''payload'', JObj [])]),
      idle\<lparr>inbound := [Data [2]],
           received := received idle @ [JObj [(''payloadType'', JNum 2101), (''payload'', JObj [])]]\<rparr>)"
  using correlator_ordering
     [where rt = "table_runtime [([1], JObj [(''payloadType'', JNum 51)]),
                                 ([2], JObj [(''payloadType'', JNum 2103)]),
                                 ([3], JObj [(''payloadType'', JNum 2101), (''payload'', JObj [])])]"
      and ?d1.0 = "[1]" and hb = "JObj [(''payloadType'', JNum 51)]"
      and ?d2.0 = "[2]" and b = "JObj [(''payloadType'', JNum 2103)]" and B = "Num 2103"
      and A = 2101
      and ?d3.0 = "[3]" and m = "JObj [(''payloadType'', JNum 2101), (''payload'', JObj [])]"
      and ws = idle and rest = "[Data [2]]"]
  by (simp add: table_runtime_def payloadType_of_def)

text \<open>
  The error branch where the message of the error can be made. A wait for payload type \<open>A\<close> is
  pending; after frames that the handler ignores, a message \<open>m\<close> of an error type (50 or 2142,
  and not the wanted type) arrives, whose description, or error code when it has no
  description, converts to a string. Then the wait rejects with a remote error that carries
  the description if the payload has one, else the error code if it has one, else the
  serialized payload. At that point the handler is off the stream and the timer is cleared: no
  later event, a message of the wanted type included, changes the wait, and the frames after
  \<open>m\<close> are left unread. The handler of the TCP variant rejects in the same way.
\<close>

lemma error_rejects:
  assumes m: "JSON_parse rt d = Some m"
      and pt: "payloadType_of rt m = Some pt" "pt = Num 50 \<or> pt = Num 2142" "pt \<noteq> Num A"
      and str: "interpolates (error_detail m)"
      and pre: "\<forall>e\<in>set pre. emit rt A new_wait e = Some new_wait"
  shows "waitFor rt (ws\<lparr>inbound := pre @ Data d # rest\<rparr>) A
           = (Threw (CTraderError pt (error_detail m)), ws\<lparr>inbound := rest\<rparr>)
       \<and> error_detail m =
           (if \<not> nullish (opt_get (get m ''payload'') ''description'')
            then Described (opt_get (get m ''payload'') ''description'')
            else if \<not> nullish (opt_get (get m ''payload'') ''errorCode'')
            then Coded (opt_get (get m ''payload'') ''errorCode'')
            else Serialized (get m ''payload''))
       \<and> (\<exists>w. pump rt A new_wait (pre @ Data d # rest) = Some (w, rest)
              \<and> \<not> listening w \<and> \<not> timer w
              \<and> (\<forall>later. emit rt A w later = Some w))
       \<and> reader_handler rt A m new_wait
           = Some \<lparr>listening = False, timer = False,
                   promise = Rejected (CTraderError pt (error_detail m))\<rparr>"
proof -
  let ?e = "CTraderError pt (error_detail m)"
  let ?w = "\<lparr>listening = False, timer = False, promise = Rejected ?e\<rparr>"
  have o: "on_message rt A m new_wait = Some ?w"
    using pt str by (auto simp: on_message_of_type new_wait_def reject_def)
  have e: "emit rt A new_wait (Data d) = Some ?w"
    using m o by (simp add: handler_def new_wait_def)
  have p: "promise new_wait = Pending" by (simp add: new_wait_def)
  have pu: "pump rt A new_wait (pre @ Data d # rest) = Some (?w, rest)"
    using pump_skip[OF pre p, of "Data d" rest] e by simp
  have 1: "waitFor rt (ws\<lparr>inbound := pre @ Data d # rest\<rparr>) A = (Threw ?e, ws\<lparr>inbound := rest\<rparr>)"
    using pu by (simp add: waitFor_def)
  have 2: "\<forall>later. emit rt A ?w later = Some ?w"
    by (simp add: emit_settled)
  have 3: "reader_handler rt A m new_wait = Some ?w"
    using o by (simp add: reader_handler_def new_wait_def)
  show ?thesis using 1 2 3 pu by (simp add: error_detail_def Let_def)
qed

lemma error_rejects_example:
  "waitFor (table_runtime
              [([1], JObj [(''payloadType'', JNum 51)]),
               ([2], JObj [(''payloadType'', JNum 2142),
                           (''payload'', JObj [(''errorCode'', JStr ''CH_ACCESS_TOKEN_INVALID'')])]),
               ([3], JObj [(''payloadType'', JNum 2103)])])
     (idle\<lparr>inbound := [Data [1], Data [2], Data [3]]\<rparr>) 2103
   = (Threw (CTraderError (Num 2142) (Coded (Some (JStr ''CH_ACCESS_TOKEN_INVALID'')))),
      idle\<lparr>inbound := [Data [3]]\<rparr>)"
  using error_rejects
     [where rt = "table_runtime
              [([1], JObj [(''payloadType'', JNum 51)]),
               ([2], JObj [(''payloadType'', JNum 2142),
                           (''payload'', JObj [(''errorCode'', JStr ''CH_ACCESS_TOKEN_INVALID'')])]),
               ([3], JObj [(''payloadType'', JNum 2103)])]"
      and d = "[2]"
      and m = "JObj [(''payloadType'', JNum 2142),
                     (''payload'', JObj [(''errorCode'', JStr ''CH_ACCESS_TOKEN_INVALID'')])]"
      and pt = "Num 2142"
      and A = 2103 and pre = "[Data [1]]" and ws = idle and rest = "[Data [3]]"]
  by (simp add: table_runtime_def payloadType_of_def handler_def on_message_def new_wait_def
        error_detail_def nullish_def)

text \<open>
  C4. A wait for payload type 2103 is pending and the remote side sends the error message
  \<^verbatim>\<open>{"payloadType": 50, "payload": {"description": {"toString": 1}}}\<close>, then a message of the
  wanted type. The message has the error type 50 and a description. The handler clears the
  timer and removes itself, and the template literal that makes the error's message throws
  before \<^verbatim>\<open>reject\<close> is called: the wait is never rejected (nor resolved), and nothing is read
  after the error message. The handler of the TCP variant does the same. With the description
  \<^verbatim>\<open>"x"\<close> in its place the wait rejects with the remote error that carries it.
\<close>

theorem error_description_conversion_throws:
  "payloadType_of (table_runtime [([1], opaque_error), ([2], JObj [(''payloadType'', JNum 2103)])])
     opaque_error = Some (Num 50)
 \<and> error_detail opaque_error = Described (Some (JObj [(''toString'', JNum 1)]))
 \<and> handler (table_runtime [([1], opaque_error), ([2], JObj [(''payloadType'', JNum 2103)])])
     2103 [1] new_wait = None
 \<and> waitFor (table_runtime [([1], opaque_error), ([2], JObj [(''payloadType'', JNum 2103)])])
     (idle\<lparr>inbound := [Data [1], Data [2]]\<rparr>) 2103
   = (Never, idle\<lparr>inbound := [Data [1], Data [2]]\<rparr>)
 \<and> reader_handler (table_runtime [([1], opaque_error), ([2], JObj [(''payloadType'', JNum 2103)])])
     2103 opaque_error new_wait = None
 \<and> waitFor (table_runtime
              [([1], JObj [(''payloadType'', JNum 50),
                           (''payload'', JObj [(''description'', JStr ''x'')])]),
               ([2], JObj [(''payloadType'', JNum 2103)])])
     (idle\<lparr>inbound := [Data [1], Data [2]]\<rparr>) 2103
   = (Threw (CTraderError (Num 50) (Described (Some (JStr ''x'')))), idle\<lparr>inbound := [Data [2]]\<rparr>)"
  by (simp add: table_runtime_def opaque_error_def unconvertible_def payloadType_of_def
        error_detail_def nullish_def handler_def on_message_def reader_handler_def waitFor_def
        new_wait_def reject_def idle_def)

section \<open>The frame reader\<close>

text \<open>A complete frame whose body parses is handed to the handlers and removed; the loop goes on
  with the rest of the buffer.\<close>

lemma frame_extracted:
  assumes "readUInt32BE b = L" "0 < L" "L \<le> 2000000" "4 + L \<le> length b"
      and "JSON_parse rt (take L (drop 4 b)) = Some msg"
  shows "frame_loop rt fn b h =
           (case fn msg h of None \<Rightarrow> None | Some h' \<Rightarrow> frame_loop rt fn (drop (4 + L) b) h')"
  using assms by (subst frame_loop.simps) (simp add: Let_def)

text \<open>A complete frame whose body does not parse stays at the head of the buffer, and so does
  everything behind it.\<close>

lemma frame_stuck:
  assumes "readUInt32BE b = L" "0 < L" "L \<le> 2000000" "4 + L \<le> length b"
      and "JSON_parse rt (take L (drop 4 b)) = None"
  shows "frame_loop rt fn b h = Some (b, h)"
  using assms by (subst frame_loop.simps) (simp add: Let_def)

lemma readUInt32BE_append:
  "4 \<le> length b \<Longrightarrow> readUInt32BE (b @ c) = readUInt32BE b"
  by (auto simp: readUInt32BE_def nth_append)

lemma stuck_forever:
  assumes "readUInt32BE b = L" "0 < L" "L \<le> 2000000" "4 + L \<le> length b"
      and "JSON_parse rt (take L (drop 4 b)) = None"
  shows "on_data rt fn b chunk h = Some (b @ chunk, h)"
  unfolding on_data_def
  using assms by (intro frame_stuck[where L=L]) (simp_all add: readUInt32BE_append)

lemma frame_loop_short: "length b < 4 \<Longrightarrow> frame_loop rt fn b h = Some (b, h)"
  by (subst frame_loop.simps) simp

text \<open>A read of exactly one frame into an empty buffer hands its message to the handlers and
  leaves the buffer empty.\<close>

lemma single_frame_read:
  assumes "single_frame rt c r"
  shows "on_data rt fn [] c h = (case fn r h of None \<Rightarrow> None | Some h' \<Rightarrow> Some ([], h'))"
proof -
  let ?L = "length c - 4"
  from assms have f: "readUInt32BE c = ?L" "0 < ?L" "?L \<le> 2000000" "4 + ?L \<le> length c"
    "JSON_parse rt (take ?L (drop 4 c)) = Some r"
    by (auto simp: single_frame_def)
  from assms have d: "drop (4 + ?L) c = []" by (simp add: single_frame_def)
  show ?thesis
    unfolding on_data_def
    by (simp add: frame_extracted[OF f] d frame_loop_short split: option.splits)
qed

lemma waitFor_tcp_hit:
  assumes "inbound sock = Data c # rest" "buf sock = []" "\<not> destroyed sock"
    "single_frame rt c r" "payloadType_of rt r = Some (Num t)"
  shows "waitFor_tcp rt sock t
           = (Returned r, sock\<lparr>buf := [], inbound := rest, received := received sock @ [r]\<rparr>)"
  using assms
  by (simp add: waitFor_tcp_def single_frame_read reader_handler_def on_message_of_type
        new_wait_def resolve_def)

section \<open>Deal pagination\<close>

lemma settle_frame:
  "sent (snd (settle p ws)) = sent ws"
  "terminated (snd (settle p ws)) = terminated ws"
  "connects (snd (settle p ws)) = connects ws"
  by (cases p; simp)+

lemma waitFor_frame:
  "sent (snd (waitFor rt ws t)) = sent ws"
  "terminated (snd (waitFor rt ws t)) = terminated ws"
  "connects (snd (waitFor rt ws t)) = connects ws"
  by (simp_all add: waitFor_def settle_frame split: option.splits prod.splits)

lemma idle_step_refl: "idle_step ws ws"
  by (simp add: idle_step_def)

lemma idle_step_trans: "idle_step ws ws1 \<Longrightarrow> idle_step ws1 ws2 \<Longrightarrow> idle_step ws ws2"
  by (auto simp: idle_step_def split: if_splits)

lemma emit_tcp_frame:
  assumes "emit_tcp rt t (w, sock) e = Some (w', sock')"
  shows "sent sock' = sent sock \<and> received sock' = received sock
       \<and> terminated sock' = terminated sock \<and> connects sock' = connects sock
       \<and> idle_step sock sock'"
  using assms
  by (cases e) (auto simp: on_idle_def idle_step_def split: if_splits option.splits)

lemma pump_tcp_frame:
  "pump_tcp rt t (w, sock) es = Some ((w', sock'), rest) \<Longrightarrow>
   sent sock' = sent sock \<and> received sock' = received sock
   \<and> terminated sock' = terminated sock \<and> connects sock' = connects sock
   \<and> idle_step sock sock'"
proof (induction es arbitrary: w sock)
  case Nil
  then show ?case by (auto simp: idle_step_refl split: if_splits)
next
  case (Cons e es)
  from Cons.prems obtain w1 sock1 where e: "emit_tcp rt t (w, sock) e = Some (w1, sock1)"
    by (cases "emit_tcp rt t (w, sock) e") auto
  note f = emit_tcp_frame[OF e]
  show ?case
  proof (cases "promise w1 = Pending")
    case True
    with Cons.prems e have "pump_tcp rt t (w1, sock1) es = Some ((w', sock'), rest)" by simp
    from Cons.IH[OF this] f show ?thesis by (auto intro: idle_step_trans)
  next
    case False
    with Cons.prems e have "sock' = sock1" by simp
    with f show ?thesis by simp
  qed
qed

lemma settle_inbound_frame:
  "idle_destroys (snd (settle p ws)) = idle_destroys ws"
  "destroyed (snd (settle p ws)) = destroyed ws"
  by (cases p; simp)+

lemma waitFor_tcp_frame:
  "sent (snd (waitFor_tcp rt ws t)) = sent ws"
  "terminated (snd (waitFor_tcp rt ws t)) = terminated ws"
  "connects (snd (waitFor_tcp rt ws t)) = connects ws"
  by (auto simp: waitFor_tcp_def settle_frame split: option.splits prod.splits
           dest!: pump_tcp_frame)

lemma dealLoop_done: "\<not> pages < 40 \<Longrightarrow>
  dealLoop awaitFor rt req res a ws allDeals pageFrom pages = (Returned (allDeals, pages), ws)"
  by (subst dealLoop.simps) simp

lemma dealLoop_unfold:
  assumes "pages < 40"
      and "awaitFor (sendMsg ws req (deal_request a pageFrom)) res = (r, ws2)"
  shows "dealLoop awaitFor rt req res a ws allDeals pageFrom pages =
     (case r of
        Never \<Rightarrow> (Never, ws2)
      | Threw e \<Rightarrow> (Threw e, ws2)
      | Returned r \<Rightarrow>
          (let deals = deal_of r
           in if \<not> truthy (length_of deals) then (Returned (allDeals, pages), ws2)
              else case iterate deals of
                     Inl e \<Rightarrow> (Threw e, ws2)
                   | Inr ds \<Rightarrow>
                       if num_lt (Number rt (length_of deals)) (Num 500)
                       then (Returned (allDeals @ ds, pages + 1), ws2)
                       else (case map_timestamps rt deals of
                               Inl e \<Rightarrow> (Threw e, ws2)
                             | Inr ts \<Rightarrow>
                                 if num_ge (plus1 (Math_max ts)) (toTimestamp a)
                                 then (Returned (allDeals @ ds, pages + 1), ws2)
                                 else dealLoop awaitFor rt req res a ws2 (allDeals @ ds)
                                        (plus1 (Math_max ts)) (pages + 1))))"
  using assms by (subst dealLoop.simps) simp

lemma dealLoop_step:
  assumes "pages < 40"
      and "awaitFor (sendMsg ws req (deal_request a pageFrom)) res = (r, ws2)"
  shows "(\<exists>x. dealLoop awaitFor rt req res a ws allDeals pageFrom pages = (x, ws2))
       \<or> (\<exists>ds ts. dealLoop awaitFor rt req res a ws allDeals pageFrom pages
                    = dealLoop awaitFor rt req res a ws2 (allDeals @ ds) (plus1 (Math_max ts)) (pages + 1))"
  unfolding dealLoop_unfold[where awaitFor=awaitFor, OF assms]
  by (simp add: Let_def split: result.splits sum.splits) blast

lemma dealLoop_bound:
  assumes fr: "\<And>ws t. sent (snd (awaitFor ws t)) = sent ws"
  shows "40 - pages = n \<Longrightarrow>
         length (sent (snd (dealLoop awaitFor rt req res a ws allDeals pageFrom pages)))
           \<le> length (sent ws) + n"
proof (induction n arbitrary: ws allDeals pageFrom pages)
  case 0
  then show ?case by (simp add: dealLoop_done)
next
  case (Suc n)
  then have lt: "pages < 40" by simp
  obtain r ws2 where w: "awaitFor (sendMsg ws req (deal_request a pageFrom)) res = (r, ws2)"
    by (cases "awaitFor (sendMsg ws req (deal_request a pageFrom)) res")
  have s2: "length (sent ws2) = length (sent ws) + 1"
    using fr[of "sendMsg ws req (deal_request a pageFrom)" res] w by (simp add: sendMsg_def)
  from dealLoop_step[where awaitFor=awaitFor and rt=rt and allDeals=allDeals, OF lt w] show ?case
  proof (elim disjE exE)
    fix x assume "dealLoop awaitFor rt req res a ws allDeals pageFrom pages = (x, ws2)"
    then show ?thesis using s2 by simp
  next
    fix ds ts
    assume e: "dealLoop awaitFor rt req res a ws allDeals pageFrom pages
                = dealLoop awaitFor rt req res a ws2 (allDeals @ ds) (plus1 (Math_max ts)) (pages + 1)"
    have "40 - (pages + 1) = n" using Suc.prems by simp
    from Suc.IH[OF this, of ws2 "allDeals @ ds" "plus1 (Math_max ts)"] show ?thesis
      using e s2 by simp
  qed
qed


lemma waitFor_hit:
  assumes "inbound ws = Data d # rest" "JSON_parse rt d = Some r" "r \<noteq> JNull"
    "payloadType_of rt r = Some (Num t)"
  shows "waitFor rt ws t = (Returned r, ws\<lparr>inbound := rest, received := received ws @ [r]\<rparr>)"
  using assms
  by (simp add: waitFor_def handler_def on_message_of_type new_wait_def resolve_def)

lemma not_JNull_by_type: "payloadType_of rt r = Some (Num t) \<Longrightarrow> t \<noteq> 0 \<Longrightarrow> r \<noteq> JNull"
  by (auto simp: payloadType_of_JNull)

lemma page_full:
  assumes "pages < 40"
      and "awaitFor (sendMsg ws req (deal_request a pageFrom)) res = (Returned r, ws2)"
      and "deal_of r = JArr ds" "500 \<le> length ds"
      and "execution_timestamps rt ds = Inr ts"
  shows "dealLoop awaitFor rt req res a ws allDeals pageFrom pages =
     (if num_ge (plus1 (Math_max ts)) (toTimestamp a)
      then (Returned (allDeals @ ds, pages + 1), ws2)
      else dealLoop awaitFor rt req res a ws2 (allDeals @ ds) (plus1 (Math_max ts)) (pages + 1))"
  using assms(3-)
  by (auto simp: dealLoop_unfold[where awaitFor=awaitFor, OF assms(1,2)] Let_def)

lemma page_last:
  assumes "pages < 40"
      and "awaitFor (sendMsg ws req (deal_request a pageFrom)) res = (Returned r, ws2)"
      and "deal_of r = JArr ds" "ds \<noteq> []" "length ds < 500"
  shows "dealLoop awaitFor rt req res a ws allDeals pageFrom pages =
           (Returned (allDeals @ ds, pages + 1), ws2)"
  using assms(3-)
  by (auto simp: dealLoop_unfold[where awaitFor=awaitFor, OF assms(1,2)] Let_def)

lemma page_empty:
  assumes "pages < 40"
      and "awaitFor (sendMsg ws req (deal_request a pageFrom)) res = (Returned r, ws2)"
      and "\<not> truthy (length_of (deal_of r))"
  shows "dealLoop awaitFor rt req res a ws allDeals pageFrom pages =
           (Returned (allDeals, pages), ws2)"
  using assms(3-)
  by (auto simp: dealLoop_unfold[where awaitFor=awaitFor, OF assms(1,2)] Let_def)

text \<open>
  Two pages: the first wait resolves with a response of 500 deals whose largest execution
  timestamp is 1000, the second with one of 120 deals, and the cursor 1001 has not reached
  \<^verbatim>\<open>toTimestamp\<close>.
\<close>

lemma two_pages_run:
  assumes p1: "JSON_parse rt d1 = Some r1" "payloadType_of rt r1 = Some (Num 2134)"
              "deal_of r1 = JArr ds1" "length ds1 = 500"
              "execution_timestamps rt ds1 = Inr ts1" "Math_max ts1 = Num 1000"
      and p2: "JSON_parse rt d2 = Some r2" "payloadType_of rt r2 = Some (Num 2134)"
              "deal_of r2 = JArr ds2" "length ds2 = 120"
      and to: "\<not> num_ge (Num 1001) (toTimestamp a)"
  shows "dealLoop (waitFor rt) rt 2133 2134 a (ws\<lparr>inbound := Data d1 # Data d2 # rest\<rparr>) []
           (fromTimestamp a) 0
         = (Returned (ds1 @ ds2, 2),
            ws\<lparr>inbound := rest,
               sent := sent ws @ [(2133, deal_request a (fromTimestamp a)),
                                  (2133, deal_request a (Num 1001))],
               received := received ws @ [r1, r2]\<rparr>)"
proof -
  let ?ws1 = "sendMsg (ws\<lparr>inbound := Data d1 # Data d2 # rest\<rparr>) 2133 (deal_request a (fromTimestamp a))"
  let ?ws2 = "?ws1\<lparr>inbound := Data d2 # rest, received := received ?ws1 @ [r1]\<rparr>"
  let ?ws3 = "sendMsg ?ws2 2133 (deal_request a (Num 1001))"
  let ?ws4 = "?ws3\<lparr>inbound := rest, received := received ?ws3 @ [r2]\<rparr>"
  have n1: "r1 \<noteq> JNull" and n2: "r2 \<noteq> JNull"
    using p1(2) p2(2) by (auto dest: not_JNull_by_type)
  have w1: "waitFor rt ?ws1 2134 = (Returned r1, ?ws2)"
    by (rule waitFor_hit[OF _ p1(1) n1 p1(2)]) (simp add: sendMsg_def)
  have w2: "waitFor rt ?ws3 2134 = (Returned r2, ?ws4)"
    by (rule waitFor_hit[OF _ p2(1) n2 p2(2)]) (simp add: sendMsg_def)
  have s1: "dealLoop (waitFor rt) rt 2133 2134 a (ws\<lparr>inbound := Data d1 # Data d2 # rest\<rparr>) []
              (fromTimestamp a) 0
            = dealLoop (waitFor rt) rt 2133 2134 a ?ws2 ([] @ ds1) (Num 1001) (0 + 1)"
    using page_full[where awaitFor="waitFor rt" and allDeals="[]", OF _ w1 p1(3) _ p1(5)] p1(4,6) to
    by simp
  have s2: "dealLoop (waitFor rt) rt 2133 2134 a ?ws2 ([] @ ds1) (Num 1001) (0 + 1)
            = (Returned (([] @ ds1) @ ds2, (0 + 1) + 1), ?ws4)"
    using p2(4) by (intro page_last[where awaitFor="waitFor rt", OF _ w2 p2(3)]) auto
  show ?thesis unfolding s1 s2 by (simp add: sendMsg_def)
qed


lemma execution_timestamps_replicate:
  "d \<noteq> JNull \<Longrightarrow> converts (get d ''executionTimestamp'') \<Longrightarrow>
   execution_timestamps rt (replicate n d) = Inr (replicate n (Number rt (get d ''executionTimestamp'')))"
proof (induction n)
  case 0
  then show ?case by simp
next
  case (Suc n)
  then show ?case by (cases d) simp_all
qed

lemma foldl_max2_same: "foldl max2 (Num k) (replicate n (Num k)) = Num k"
  by (induction n) simp_all

lemma Math_max_replicate: "0 < n \<Longrightarrow> Math_max (replicate n (Num k)) = Num k"
  by (cases n) (simp_all add: Math_max_def foldl_max2_same)

lemma full_page_facts:
  "JSON_parse paging_runtime [1] = Some full_page"
  "payloadType_of paging_runtime full_page = Some (Num 2134)"
  "deal_of full_page = JArr (replicate 500 (JObj [(''executionTimestamp'', JNum 1000)]))"
  "execution_timestamps paging_runtime (replicate 500 (JObj [(''executionTimestamp'', JNum 1000)]))
     = Inr (replicate 500 (Num 1000))"
  "Math_max (replicate 500 (Num 1000)) = Num 1000"
  by (simp_all add: paging_runtime_def table_runtime_def full_page_def payloadType_of_def deal_of_def
        execution_timestamps_replicate Math_max_replicate)

lemma partial_page_facts:
  "JSON_parse paging_runtime [2] = Some partial_page"
  "payloadType_of paging_runtime partial_page = Some (Num 2134)"
  "deal_of partial_page = JArr (replicate 120 (JObj [(''executionTimestamp'', JNum 1500)]))"
  by (simp_all add: paging_runtime_def table_runtime_def partial_page_def payloadType_of_def deal_of_def)

lemma two_pages_run_example:
  "dealLoop (waitFor paging_runtime) paging_runtime 2133 2134 (window 5000)
     (idle\<lparr>inbound := [Data [1], Data [2]]\<rparr>) [] (Num 0) 0
   = (Returned (replicate 500 (JObj [(''executionTimestamp'', JNum 1000)])
                @ replicate 120 (JObj [(''executionTimestamp'', JNum 1500)]), 2),
      idle\<lparr>inbound := [],
           sent := [(2133, deal_request (window 5000) (Num 0)),
                    (2133, deal_request (window 5000) (Num 1001))],
           received := [full_page, partial_page]\<rparr>)"
  using two_pages_run [where rt = paging_runtime and a = "window 5000" and ws = idle and rest = "[]"
      and ?d1.0 = "[1]" and ?r1.0 = full_page
      and ?ds1.0 = "replicate 500 (JObj [(''executionTimestamp'', JNum 1000)])"
      and ?ts1.0 = "replicate 500 (Num 1000)"
      and ?d2.0 = "[2]" and ?r2.0 = partial_page
      and ?ds2.0 = "replicate 120 (JObj [(''executionTimestamp'', JNum 1500)])"]
  by (simp add: full_page_facts partial_page_facts window_def idle_def)

text \<open>
  When the window ends at 1001 the cursor after the first page has reached \<^verbatim>\<open>toTimestamp\<close>: the
  loop returns after one request and there is no second response.
\<close>

lemma window_reached_run:
  "dealLoop (waitFor paging_runtime) paging_runtime 2133 2134 (window 1001)
     (idle\<lparr>inbound := [Data [1], Data [2]]\<rparr>) [] (Num 0) 0
   = (Returned (replicate 500 (JObj [(''executionTimestamp'', JNum 1000)]), 1),
      idle\<lparr>inbound := [Data [2]],
           sent := [(2133, deal_request (window 1001) (Num 0))],
           received := [full_page]\<rparr>)
   \<and> length (sent (snd (dealLoop (waitFor paging_runtime) paging_runtime 2133 2134 (window 1001)
                          (idle\<lparr>inbound := [Data [1], Data [2]]\<rparr>) [] (Num 0) 0))) = 1"
proof -
  let ?ws = "idle\<lparr>inbound := [Data [1], Data [2]]\<rparr>"
  let ?ws1 = "sendMsg ?ws 2133 (deal_request (window 1001) (Num 0))"
  have n: "full_page \<noteq> JNull" by (simp add: full_page_def)
  have w: "waitFor paging_runtime ?ws1 2134
             = (Returned full_page, ?ws1\<lparr>inbound := [Data [2]], received := received ?ws1 @ [full_page]\<rparr>)"
    by (rule waitFor_hit[OF _ full_page_facts(1) n full_page_facts(2)]) (simp add: sendMsg_def)
  have "dealLoop (waitFor paging_runtime) paging_runtime 2133 2134 (window 1001) ?ws [] (Num 0) 0
        = (Returned ([] @ replicate 500 (JObj [(''executionTimestamp'', JNum 1000)]), 0 + 1),
           ?ws1\<lparr>inbound := [Data [2]], received := received ?ws1 @ [full_page]\<rparr>)"
    using page_full[where awaitFor = "waitFor paging_runtime" and rt = paging_runtime
        and allDeals = "[]" and a = "window 1001", OF _ w full_page_facts(3) _ full_page_facts(4)]
    by (simp add: full_page_facts window_def)
  then show ?thesis by (simp add: sendMsg_def idle_def)
qed

text \<open>A run of full pages whose cursor never reaches \<^verbatim>\<open>toTimestamp\<close>.\<close>

lemma full_run:
  assumes full: "\<And>d. d \<in> set ds \<Longrightarrow> \<exists>r dl ts. JSON_parse rt d = Some r \<and> payloadType_of rt r = Some (Num res)
                    \<and> deal_of r = JArr dl \<and> length dl = 500
                    \<and> execution_timestamps rt dl = Inr ts
                    \<and> \<not> num_ge (plus1 (Math_max ts)) (toTimestamp a)"
  shows "40 - pages = n \<Longrightarrow> n \<le> length ds' \<Longrightarrow> set ds' \<subseteq> set ds \<Longrightarrow> inbound ws = map Data ds' @ rest \<Longrightarrow>
         \<exists>deals ws'. dealLoop (waitFor rt) rt req res a ws allDeals pageFrom pages
                        = (Returned (deals, max pages 40), ws')
             \<and> length deals = length allDeals + 500 * n
             \<and> length (sent ws') = length (sent ws) + n
             \<and> inbound ws' = map Data (drop n ds') @ rest"
proof (induction n arbitrary: ds' ws allDeals pageFrom pages)
  case 0
  then show ?case by (simp add: dealLoop_done max_def)
next
  case (Suc n)
  then have lt: "pages < 40" by simp
  from Suc.prems obtain d ds'' where ds': "ds' = d # ds''" by (cases ds') auto
  with Suc.prems have "d \<in> set ds" by auto
  from full[OF this] obtain r dl ts where
    r: "JSON_parse rt d = Some r" "payloadType_of rt r = Some (Num res)" "deal_of r = JArr dl"
       "length dl = 500" "execution_timestamps rt dl = Inr ts"
       "\<not> num_ge (plus1 (Math_max ts)) (toTimestamp a)"
    by blast
  have rn: "r \<noteq> JNull" using r(3,4) by (auto simp: deal_of_def)
  let ?ws1 = "sendMsg ws req (deal_request a pageFrom)"
  let ?ws2 = "?ws1\<lparr>inbound := map Data ds'' @ rest, received := received ?ws1 @ [r]\<rparr>"
  have w: "waitFor rt ?ws1 res = (Returned r, ?ws2)"
    by (rule waitFor_hit[OF _ r(1) rn r(2)]) (simp add: sendMsg_def Suc.prems ds')
  have step: "dealLoop (waitFor rt) rt req res a ws allDeals pageFrom pages
              = dealLoop (waitFor rt) rt req res a ?ws2 (allDeals @ dl) (plus1 (Math_max ts)) (pages + 1)"
    using page_full[where awaitFor="waitFor rt", OF lt w r(3) _ r(5)] r(4,6) by simp
  have "\<exists>deals ws'. dealLoop (waitFor rt) rt req res a ?ws2 (allDeals @ dl) (plus1 (Math_max ts)) (pages + 1)
                        = (Returned (deals, max (pages + 1) 40), ws')
             \<and> length deals = length (allDeals @ dl) + 500 * n
             \<and> length (sent ws') = length (sent ?ws2) + n
             \<and> inbound ws' = map Data (drop n ds'') @ rest"
    using Suc.prems ds' by (intro Suc.IH) auto
  then show ?case
    using step lt r(4) ds' by (auto simp: sendMsg_def max_def)
qed

text \<open>
  C2. When every deal-list response holds exactly 500 deals and the cursor never reaches
  \<^verbatim>\<open>toTimestamp\<close>, however many such pages the remote side has (40 or more), the loop returns
  after exactly 40 requests with 40 pages and 20000 deals and leaves the further pages unread.
  In every run, whatever arrives and whether or not the cursor reaches \<^verbatim>\<open>toTimestamp\<close>, the loop
  sends at most 40 deal-list requests; this holds with the WebSocket \<^verbatim>\<open>waitFor\<close> and with the
  TCP one.
\<close>

theorem pagination_ceiling:
  assumes full: "\<forall>d\<in>set ds. \<exists>r dl ts. JSON_parse rt d = Some r \<and> payloadType_of rt r = Some (Num res)
                    \<and> deal_of r = JArr dl \<and> length dl = 500
                    \<and> execution_timestamps rt dl = Inr ts
                    \<and> \<not> num_ge (plus1 (Math_max ts)) (toTimestamp a)"
      and many: "40 \<le> length ds"
  shows "(\<exists>deals ws'. dealLoop (waitFor rt) rt req res a (ws\<lparr>inbound := map Data ds @ rest\<rparr>) []
                        (fromTimestamp a) 0 = (Returned (deals, 40), ws')
             \<and> length deals = 20000
             \<and> length (sent ws') = length (sent ws) + 40
             \<and> inbound ws' = map Data (drop 40 ds) @ rest)
     \<and> length (sent (snd (dealLoop (waitFor rt) rt req res a ws0 [] (fromTimestamp a) 0)))
           \<le> length (sent ws0) + 40
     \<and> length (sent (snd (dealLoop (waitFor_tcp rt) rt req res a ws0 [] (fromTimestamp a) 0)))
           \<le> length (sent ws0) + 40"
proof (intro conjI)
  show "\<exists>deals ws'. dealLoop (waitFor rt) rt req res a (ws\<lparr>inbound := map Data ds @ rest\<rparr>) []
                        (fromTimestamp a) 0 = (Returned (deals, 40), ws')
             \<and> length deals = 20000
             \<and> length (sent ws') = length (sent ws) + 40
             \<and> inbound ws' = map Data (drop 40 ds) @ rest"
    using full_run[where ds=ds and ds'=ds and rt=rt and res=res and a=a and pages=0 and n=40
        and ws="ws\<lparr>inbound := map Data ds @ rest\<rparr>" and rest=rest and allDeals="[]"
        and req=req and pageFrom="fromTimestamp a"] full many
    by simp
  show "length (sent (snd (dealLoop (waitFor rt) rt req res a ws0 [] (fromTimestamp a) 0)))
           \<le> length (sent ws0) + 40"
    using dealLoop_bound[where awaitFor="waitFor rt" and pages=0 and n=40] by (simp add: waitFor_frame)
  show "length (sent (snd (dealLoop (waitFor_tcp rt) rt req res a ws0 [] (fromTimestamp a) 0)))
           \<le> length (sent ws0) + 40"
    using dealLoop_bound[where awaitFor="waitFor_tcp rt" and pages=0 and n=40]
    by (simp add: waitFor_tcp_frame)
qed

theorem pagination_ceiling_witness:
  "\<exists>deals ws'. dealLoop (waitFor paging_runtime) paging_runtime 2133 2134 (window 5000)
                  (idle\<lparr>inbound := map Data (replicate 41 [1])\<rparr>) [] (Num 0) 0
                = (Returned (deals, 40), ws')
       \<and> length deals = 20000 \<and> length (sent ws') = 40 \<and> inbound ws' = [Data [1]]"
proof -
  have "\<forall>d\<in>set (replicate 41 [1]). \<exists>r dl ts. JSON_parse paging_runtime d = Some r
          \<and> payloadType_of paging_runtime r = Some (Num 2134)
          \<and> deal_of r = JArr dl \<and> length dl = 500
          \<and> execution_timestamps paging_runtime dl = Inr ts
          \<and> \<not> num_ge (plus1 (Math_max ts)) (toTimestamp (window 5000))"
    by (simp add: full_page_facts window_def)
  from pagination_ceiling [OF this, where req = 2133 and ws = idle and rest = "[]"]
  show ?thesis
    by (simp add: window_def idle_def drop_replicate)
qed

section \<open>What the steps of the sequencer leave on the connection\<close>

lemma grows_refl: "grows k ws ws []"
  by (simp add: grows_def idle_step_refl)

lemma grows_trans: "grows k ws ws1 n1 \<Longrightarrow> grows k ws1 ws2 n2 \<Longrightarrow> grows k ws ws2 (n1 @ n2)"
  by (cases k) (auto simp: grows_def intro: idle_step_trans)

lemma grows_sendMsg: "grows k (sendMsg ws t p) ws' new = grows k ws ws' new"
  by (simp add: grows_def sendMsg_def idle_step_def)

lemma on_message_typed: "on_message rt t msg w = Some w' \<Longrightarrow> typed rt t w \<Longrightarrow> typed rt t w'"
  by (auto simp: on_message_def typed_def resolve_def reject_def
           split: if_splits promise.splits option.splits)

lemma on_timeout_typed: "typed rt t w \<Longrightarrow> typed rt t (on_timeout t (w\<lparr>timer := False\<rparr>))"
  by (auto simp: on_timeout_def typed_def reject_def split: promise.splits)

lemma emit_typed: "emit rt t w e = Some w' \<Longrightarrow> typed rt t w \<Longrightarrow> typed rt t w'"
  by (cases e)
     (auto simp: handler_def on_timeout_typed split: if_splits option.splits dest: on_message_typed)

lemma pump_typed: "pump rt t w es = Some (w', rest) \<Longrightarrow> typed rt t w \<Longrightarrow> typed rt t w'"
proof (induction es arbitrary: w)
  case Nil
  then show ?case by (auto split: option.splits if_splits simp: on_timeout_typed)
next
  case (Cons e es)
  then show ?case
    by (auto split: option.splits if_splits dest: emit_typed)
qed

lemma typed_new_wait: "typed rt t new_wait"
  by (simp add: typed_def new_wait_def)

lemma settle_log:
  "typed rt t w \<Longrightarrow> settle (promise w) ws = (x, ws') \<Longrightarrow>
   received ws' = received ws @ logged x \<and> terminated ws' = terminated ws
   \<and> connects ws' = connects ws \<and> idle_destroys ws' = idle_destroys ws
   \<and> destroyed ws' = destroyed ws \<and> list_all (of_type rt t) (logged x)"
  by (cases "promise w") (auto simp: typed_def of_type_def)

lemma waitFor_log:
  assumes "waitFor rt ws t = (x, ws')"
  shows "grows k ws ws' (logged x) \<and> list_all (of_type rt t) (logged x)"
proof (cases "pump rt t new_wait (inbound ws)")
  case None
  with assms show ?thesis by (auto simp: waitFor_def grows_def idle_step_refl)
next
  case (Some p)
  obtain w rest where p: "p = (w, rest)" by (cases p)
  have ty: "typed rt t w" using Some p pump_typed typed_new_wait by blast
  have "settle (promise w) (ws\<lparr>inbound := rest\<rparr>) = (x, ws')"
    using assms Some p by (simp add: waitFor_def)
  from settle_log[OF ty this] show ?thesis by (simp add: grows_def idle_step_def)
qed

lemma reader_handler_typed:
  "reader_handler rt t msg w = Some w' \<Longrightarrow> typed rt t w \<Longrightarrow> typed rt t w'"
  by (auto simp: reader_handler_def split: if_splits dest: on_message_typed)

lemma frame_loop_typed:
  "frame_loop rt (reader_handler rt t) b w = Some (b', w') \<Longrightarrow> typed rt t w \<Longrightarrow> typed rt t w'"
proof (induction "length b" arbitrary: b w rule: less_induct)
  case less
  show ?case
  proof (cases "4 \<le> length b \<and> \<not> (readUInt32BE b \<le> 0 \<or> 2000000 < readUInt32BE b)
                \<and> \<not> length b < 4 + readUInt32BE b")
    case False
    with less.prems show ?thesis
      by (subst (asm) frame_loop.simps) (auto simp: Let_def split: if_splits)
  next
    case True
    show ?thesis
    proof (cases "JSON_parse rt (take (readUInt32BE b) (drop 4 b))")
      case None
      with True less.prems show ?thesis
        by (subst (asm) frame_loop.simps) (auto simp: Let_def split: if_splits)
    next
      case (Some msg)
      with True less.prems obtain h' where
        h: "reader_handler rt t msg w = Some h'"
        and r: "frame_loop rt (reader_handler rt t) (drop (4 + readUInt32BE b) b) h' = Some (b', w')"
        by (subst (asm) frame_loop.simps) (auto simp: Let_def split: if_splits option.splits)
      have "typed rt t h'" using h less.prems(2) by (rule reader_handler_typed)
      moreover have "length (drop (4 + readUInt32BE b) b) < length b" using True by auto
      ultimately show ?thesis using less.hyps r by blast
    qed
  qed
qed

lemma emit_tcp_typed:
  "emit_tcp rt t (w, b) e = Some (w', b') \<Longrightarrow> typed rt t w \<Longrightarrow> typed rt t w'"
  by (cases e)
     (auto simp: on_data_def on_timeout_typed split: if_splits option.splits dest: frame_loop_typed)

lemma pump_tcp_typed:
  "pump_tcp rt t (w, b) es = Some ((w', b'), rest) \<Longrightarrow> typed rt t w \<Longrightarrow> typed rt t w'"
proof (induction es arbitrary: w b)
  case Nil
  then show ?case by (auto split: option.splits if_splits simp: on_timeout_typed)
next
  case (Cons e es)
  then show ?case
    by (auto split: option.splits if_splits dest: emit_tcp_typed)
qed

lemma waitFor_tcp_log:
  assumes "waitFor_tcp rt ws t = (x, ws')"
  shows "grows True ws ws' (logged x) \<and> list_all (of_type rt t) (logged x)"
proof (cases "pump_tcp rt t (new_wait, ws) (inbound ws)")
  case None
  with assms show ?thesis by (auto simp: waitFor_tcp_def grows_def idle_step_refl)
next
  case (Some p)
  obtain w sock rest where p: "p = ((w, sock), rest)" by (cases p) auto
  have ty: "typed rt t w" using Some p pump_tcp_typed typed_new_wait by blast
  note f = pump_tcp_frame[OF Some[unfolded p]]
  have "settle (promise w) (sock\<lparr>inbound := rest\<rparr>) = (x, ws')"
    using assms Some p by (simp add: waitFor_tcp_def)
  from settle_log[OF ty this] f show ?thesis
    by (auto simp: grows_def idle_step_def split: if_splits)
qed

lemma page_deals_empty: "\<not> truthy (length_of (deal_of r)) \<Longrightarrow> page_deals r = []"
  by (simp add: page_deals_def)

lemma page_deals_nonempty:
  "truthy (length_of (deal_of r)) \<Longrightarrow> iterate (deal_of r) = Inr ds \<Longrightarrow> page_deals r = ds \<and> ds \<noteq> []"
  by (cases "deal_of r") (auto simp: page_deals_def)

lemma dealLoop_log:
  assumes aw: "\<And>ws t x ws'. awaitFor ws t = (x, ws') \<Longrightarrow>
                 grows k ws ws' (logged x) \<and> list_all (of_type rt t) (logged x)"
  shows "40 - pages = n \<Longrightarrow>
         dealLoop awaitFor rt req res a ws allDeals pageFrom pages = (x, ws') \<Longrightarrow>
         \<exists>rs. grows k ws ws' rs \<and> list_all (of_type rt res) rs
            \<and> (\<forall>allDeals' pages'. x = Returned (allDeals', pages') \<longrightarrow>
                  allDeals' = allDeals @ concat (map page_deals rs)
                \<and> pages' = pages + length (filter (\<lambda>r. page_deals r \<noteq> []) rs))
            \<and> (\<forall>p ps. rs = p # ps \<and> \<not> truthy (length_of (deal_of p)) \<longrightarrow>
                  ps = [] \<and> x = Returned (allDeals, pages))"
proof (induction n arbitrary: ws allDeals pageFrom pages)
  case 0
  then show ?case by (intro exI[of _ "[]"]) (auto simp: dealLoop_done grows_refl)
next
  case (Suc n)
  then have lt: "pages < 40" by simp
  obtain y ws2 where w: "awaitFor (sendMsg ws req (deal_request a pageFrom)) res = (y, ws2)"
    by (cases "awaitFor (sendMsg ws req (deal_request a pageFrom)) res")
  from aw[OF w] have g: "grows k ws ws2 (logged y)" and ty: "list_all (of_type rt res) (logged y)"
    by (simp_all add: grows_sendMsg)
  note unf = dealLoop_unfold[where awaitFor=awaitFor and rt=rt and allDeals=allDeals, OF lt w]
  show ?case
  proof (cases y)
    case Never
    with Suc.prems(2) unf g show ?thesis by (intro exI[of _ "[]"]) auto
  next
    case (Threw e)
    with Suc.prems(2) unf g show ?thesis by (intro exI[of _ "[]"]) auto
  next
    case (Returned r)
    show ?thesis
    proof (cases "truthy (length_of (deal_of r))")
      case False
      with Returned Suc.prems(2) unf g ty show ?thesis
        by (intro exI[of _ "[r]"]) (auto simp: page_deals_empty)
    next
      case True
      show ?thesis
      proof (cases "iterate (deal_of r)")
        case (Inl e)
        with True Returned Suc.prems(2) unf g ty show ?thesis
          by (intro exI[of _ "[r]"]) (auto simp: Let_def)
      next
        case (Inr ds)
        note pd = page_deals_nonempty[OF True Inr]
        consider (stop) "x = Returned (allDeals @ ds, pages + 1)" "ws' = ws2"
          | (err) e where "x = Threw e" "ws' = ws2"
          | (go) ts where "dealLoop awaitFor rt req res a ws2 (allDeals @ ds) (plus1 (Math_max ts)) (pages + 1)
                            = (x, ws')"
          using True Inr Returned Suc.prems(2) unf
          by (auto simp: Let_def split: if_splits sum.splits)
        then show ?thesis
        proof cases
          case stop
          with g ty Returned pd True show ?thesis
            by (intro exI[of _ "[r]"]) auto
        next
          case err
          with g ty Returned pd True show ?thesis
            by (intro exI[of _ "[r]"]) auto
        next
          case go
          have "40 - (pages + 1) = n" using Suc.prems(1) by simp
          from Suc.IH[OF this go] obtain rs where
            rs: "grows k ws2 ws' rs" "list_all (of_type rt res) rs"
                "\<forall>allDeals' pages'. x = Returned (allDeals', pages') \<longrightarrow>
                   allDeals' = (allDeals @ ds) @ concat (map page_deals rs)
                 \<and> pages' = (pages + 1) + length (filter (\<lambda>r. page_deals r \<noteq> []) rs)"
            by blast
          from grows_trans[OF g rs(1)] rs(2,3) ty Returned pd True show ?thesis
            by (intro exI[of _ "r # rs"]) auto
        qed
      qed
    qed
  qed
qed


lemma symbolList_log:
  assumes "symbolList rt a ws symbols = ((x, symbols'), ws')"
  shows "grows k ws ws' (logged (fst (waitFor rt (sendMsg ws 2119
            [(''ctidTraderAccountId'', PNum (ctidAccountId a)),
             (''includeArchivedSymbols'', PBool False)]) 2120)))
       \<and> list_all (of_type rt 2120) (logged (fst (waitFor rt (sendMsg ws 2119
            [(''ctidTraderAccountId'', PNum (ctidAccountId a)),
             (''includeArchivedSymbols'', PBool False)]) 2120)))"
proof -
  let ?ws1 = "sendMsg ws 2119 [(''ctidTraderAccountId'', PNum (ctidAccountId a)),
                               (''includeArchivedSymbols'', PBool False)]"
  obtain y ws2 where w: "waitFor rt ?ws1 2120 = (y, ws2)" by (cases "waitFor rt ?ws1 2120")
  have "ws' = ws2"
    using assms w
    by (auto simp: symbolList_def Let_def split: result.splits sum.splits prod.splits option.splits)
  with waitFor_log[OF w] w show ?thesis by (simp add: grows_sendMsg)
qed

lemma detailLoop_log:
  "detailLoop rt a uniqueIds i ws tabs = ((x, tabs'), ws') \<Longrightarrow>
   \<exists>new. grows k ws ws' new \<and> list_all (of_type rt 2126) new"
proof (induction "length uniqueIds - i" arbitrary: i ws tabs rule: less_induct)
  case less
  show ?case
  proof (cases "i < length uniqueIds")
    case False
    with less.prems show ?thesis
      by (subst (asm) detailLoop.simps) (auto simp: grows_refl intro: exI[of _ "[]"])
  next
    case True
    let ?ws1 = "sendMsg ws 2125 [(''ctidTraderAccountId'', PNum (ctidAccountId a)),
                                 (''symbolId'', PNums (take 50 (drop i uniqueIds)))]"
    obtain y ws2 where w: "waitFor rt ?ws1 2126 = (y, ws2)" by (cases "waitFor rt ?ws1 2126")
    from waitFor_log[OF w] have g: "grows k ws ws2 (logged y)" "list_all (of_type rt 2126) (logged y)"
      by (simp_all add: grows_sendMsg)
    consider (stop) "ws' = ws2"
      | (go) tabs2 where "detailLoop rt a uniqueIds (i + 50) ws2 tabs2 = ((x, tabs'), ws')"
      using less.prems True w
      by (subst (asm) detailLoop.simps)
         (auto simp: Let_def split: result.splits sum.splits prod.splits option.splits)
    then show ?thesis
    proof cases
      case stop
      with g show ?thesis by blast
    next
      case go
      have "length uniqueIds - (i + 50) < length uniqueIds - i" using True by simp
      from less.hyps[OF this go] obtain new where
        "grows k ws2 ws' new" "list_all (of_type rt 2126) new" by blast
      with g grows_trans[OF g(1) this(1)] show ?thesis
        by (intro exI[of _ "logged y @ new"]) auto
    qed
  qed
qed

lemma symbolDetails_log:
  assumes "symbolDetails rt a allDeals ws tabs = (x, ws')"
  shows "\<exists>new. grows k ws ws' new \<and> list_all (of_type rt 2126) new"
proof (cases "uniqueIds_of rt allDeals")
  case (Inl e)
  with assms show ?thesis by (auto simp: symbolDetails_def grows_refl intro: exI[of _ "[]"])
next
  case (Inr ids)
  show ?thesis
  proof (cases "ids = []")
    case True
    with Inr assms show ?thesis by (auto simp: symbolDetails_def grows_refl intro: exI[of _ "[]"])
  next
    case False
    obtain y tabs' ws2 where d: "detailLoop rt a ids 0 ws tabs = ((y, tabs'), ws2)"
      by (cases "detailLoop rt a ids 0 ws tabs") auto
    have "ws' = ws2" using assms Inr False d
      by (auto simp: symbolDetails_def split: result.splits)
    with detailLoop_log[OF d] show ?thesis by simp
  qed
qed

lemma symbolDetails_no_deals:
  "symbolDetails rt a [] ws tabs = (Returned tabs, ws)"
  by (simp add: symbolDetails_def uniqueIds_of_def)

lemma fetchDeals_log:
  assumes "fetchDeals rt a symbols ws = (x, ws')"
  shows "\<exists>rs post. grows k ws ws' (rs @ post) \<and> list_all (of_type rt 2134) rs
           \<and> list_all (of_type rt 2126) post
           \<and> (\<forall>r. x = Returned r \<longrightarrow>
                 res_total r = length (res_deals r)
               \<and> res_deals r = concat (map page_deals rs)
               \<and> res_pages r = length (filter (\<lambda>p. page_deals p \<noteq> []) rs))
           \<and> (\<forall>p ps. rs = p # ps \<and> \<not> truthy (length_of (deal_of p)) \<longrightarrow>
                 (\<exists>r. x = Returned r \<and> res_deals r = [] \<and> res_pages r = 0 \<and> res_total r = 0))"
proof -
  obtain y ws1 where d: "dealLoop (waitFor rt) rt 2133 2134 a ws [] (fromTimestamp a) 0 = (y, ws1)"
    by (cases "dealLoop (waitFor rt) rt 2133 2134 a ws [] (fromTimestamp a) 0")
  from dealLoop_log[where awaitFor="waitFor rt" and rt=rt and n=40 and k=k, OF waitFor_log _ d]
  obtain rs where rs: "grows k ws ws1 rs" "list_all (of_type rt 2134) rs"
      "\<forall>allDeals' pages'. y = Returned (allDeals', pages') \<longrightarrow>
          allDeals' = [] @ concat (map page_deals rs)
        \<and> pages' = 0 + length (filter (\<lambda>r. page_deals r \<noteq> []) rs)"
      "\<forall>p ps. rs = p # ps \<and> \<not> truthy (length_of (deal_of p)) \<longrightarrow> ps = [] \<and> y = Returned ([], 0)"
    by auto
  show ?thesis
  proof (cases y)
    case Never
    with assms d rs show ?thesis
      by (intro exI[of _ rs] exI[of _ "[]"]) (auto simp: fetchDeals_def)
  next
    case (Threw e)
    with assms d rs show ?thesis
      by (intro exI[of _ rs] exI[of _ "[]"]) (auto simp: fetchDeals_def)
  next
    case (Returned dp)
    obtain allDeals pages where dp: "dp = (allDeals, pages)" by (cases dp)
    obtain z ws2 where sd: "symbolDetails rt a allDeals ws1 (symbols, Map.empty) = (z, ws2)"
      by (cases "symbolDetails rt a allDeals ws1 (symbols, Map.empty)")
    from symbolDetails_log[OF sd] obtain post where
      post: "grows k ws1 ws2 post" "list_all (of_type rt 2126) post" by blast
    have w': "ws' = ws2" using assms d Returned dp sd
      by (auto simp: fetchDeals_def split: result.splits prod.splits)
    have ret: "\<forall>r. x = Returned r \<longrightarrow> res_deals r = allDeals \<and> res_pages r = pages
                 \<and> res_total r = length allDeals"
      using assms d Returned dp sd by (auto simp: fetchDeals_def split: result.splits prod.splits)
    have first: "\<forall>p ps. rs = p # ps \<and> \<not> truthy (length_of (deal_of p)) \<longrightarrow>
                 (\<exists>r. x = Returned r \<and> res_deals r = [] \<and> res_pages r = 0 \<and> res_total r = 0)"
    proof (intro allI impI)
      fix p ps assume "rs = p # ps \<and> \<not> truthy (length_of (deal_of p))"
      with rs(4) Returned dp have "allDeals = []" "pages = 0" by auto
      with assms d Returned dp show
        "\<exists>r. x = Returned r \<and> res_deals r = [] \<and> res_pages r = 0 \<and> res_total r = 0"
        by (auto simp: fetchDeals_def symbolDetails_no_deals)
    qed
    from grows_trans[OF rs(1) post(1)] w' rs(2,3) post(2) ret first Returned dp show ?thesis
      by (intro exI[of _ rs] exI[of _ post]) auto
  qed
qed

lemma authenticate_log:
  assumes aw: "\<And>ws t x ws'. awaitFor ws t = (x, ws') \<Longrightarrow>
                 grows k ws ws' (logged x) \<and> list_all (of_type rt t) (logged x)"
      and run: "authenticate awaitFor a ws rest = (x, ws')"
  shows "\<exists>pre. list_all (\<lambda>m. of_type rt 2101 m \<or> of_type rt 2103 m) pre
           \<and> ((grows k ws ws' pre \<and> (\<forall>r. x \<noteq> Returned r))
              \<or> (\<exists>ws2. grows k ws ws2 pre \<and> rest ws2 = (x, ws')))"
proof -
  let ?ws0 = "sendMsg ws 2100 [(''clientId'', PJson (clientId a)),
                               (''clientSecret'', PJson (clientSecret a))]"
  obtain y1 ws1 where w1: "awaitFor ?ws0 2101 = (y1, ws1)" by (cases "awaitFor ?ws0 2101")
  from aw[OF w1] have g1: "grows k ws ws1 (logged y1)" "list_all (of_type rt 2101) (logged y1)"
    by (simp_all add: grows_sendMsg)
  show ?thesis
  proof (cases y1)
    case Never
    with run w1 g1 show ?thesis by (intro exI[of _ "[]"]) (auto simp: authenticate_def)
  next
    case (Threw e)
    with run w1 g1 show ?thesis by (intro exI[of _ "[]"]) (auto simp: authenticate_def)
  next
    case (Returned m1)
    let ?ws1 = "sendMsg ws1 2102 [(''ctidTraderAccountId'', PNum (ctidAccountId a)),
                                  (''accessToken'', PJson (accessToken a))]"
    obtain y2 ws2 where w2: "awaitFor ?ws1 2103 = (y2, ws2)" by (cases "awaitFor ?ws1 2103")
    from aw[OF w2] have g2: "grows k ws1 ws2 (logged y2)" "list_all (of_type rt 2103) (logged y2)"
      by (simp_all add: grows_sendMsg)
    note g = grows_trans[OF g1(1) g2(1)]
    have ty: "list_all (\<lambda>m. of_type rt 2101 m \<or> of_type rt 2103 m) (logged y1 @ logged y2)"
      using g1(2) g2(2) by (auto simp: list_all_iff)
    show ?thesis
    proof (cases y2)
      case Never
      with run w1 w2 Returned g ty show ?thesis
        by (intro exI[of _ "logged y1 @ logged y2"]) (auto simp: authenticate_def)
    next
      case (Threw e)
      with run w1 w2 Returned g ty show ?thesis
        by (intro exI[of _ "logged y1 @ logged y2"]) (auto simp: authenticate_def)
    next
      case (Returned m2)
      with run w1 w2 \<open>y1 = Returned m1\<close> have "rest ws2 = (x, ws')"
        by (simp add: authenticate_def)
      with g ty show ?thesis
        by (intro exI[of _ "logged y1 @ logged y2"]) blast
    qed
  qed
qed

lemma fetchSymbols_log:
  assumes "fetchSymbols rt a ws = (x, ws')"
  shows "\<exists>pre ws1. grows k ws ws1 pre \<and> list_all (of_type rt 2120) pre
           \<and> ((x = Never \<and> ws' = ws1) \<or> (\<exists>symbols. fetchDeals rt a symbols ws1 = (x, ws')))"
proof -
  obtain y symbols ws1 where sl: "symbolList rt a ws Map.empty = ((y, symbols), ws1)"
    by (cases "symbolList rt a ws Map.empty") auto
  from symbolList_log[OF sl] obtain pre where
    pre: "grows k ws ws1 pre" "list_all (of_type rt 2120) pre" by blast
  have "(x = Never \<and> ws' = ws1) \<or> fetchDeals rt a symbols ws1 = (x, ws')"
    using assms sl by (cases y) (auto simp: fetchSymbols_def)
  with pre show ?thesis by blast
qed

lemma filter_other_type:
  "list_all (of_type rt t) xs \<Longrightarrow> t \<noteq> t' \<Longrightarrow> filter (of_type rt t') xs = []"
  by (induction xs) (auto simp: of_type_def)

lemma filter_same_type: "list_all (of_type rt t) xs \<Longrightarrow> filter (of_type rt t) xs = xs"
  by (induction xs) auto

lemma filter_auth_types:
  "list_all (\<lambda>m. of_type rt 2101 m \<or> of_type rt 2103 m) xs \<Longrightarrow> t \<noteq> 2101 \<Longrightarrow> t \<noteq> 2103 \<Longrightarrow>
   filter (of_type rt t) xs = []"
  by (induction xs) (auto simp: of_type_def)

lemma grows_new_messages: "grows k ws ws' new \<Longrightarrow> new_messages ws ws' = new"
  by (simp add: grows_def new_messages_def)

lemma counts_pages_no_page:
  "filter (of_type rt res) new = [] \<Longrightarrow> \<forall>r. x \<noteq> Returned r \<Longrightarrow> counts_pages rt res new x"
  by (simp add: counts_pages_def)

lemma syncTry_log:
  assumes "authenticate (waitFor rt) a ws (fetchSymbols rt a) = (x, ws')"
  shows "\<exists>new. grows k ws ws' new \<and> counts_pages rt 2134 new x"
proof -
  from authenticate_log[where awaitFor="waitFor rt" and rt=rt and k=k, OF waitFor_log assms]
  obtain pre where pre: "list_all (\<lambda>m. of_type rt 2101 m \<or> of_type rt 2103 m) pre"
    and alt: "(grows k ws ws' pre \<and> (\<forall>r. x \<noteq> Returned r))
              \<or> (\<exists>ws2. grows k ws ws2 pre \<and> fetchSymbols rt a ws2 = (x, ws'))"
    by blast
  have f0: "filter (of_type rt 2134) pre = []" using pre by (rule filter_auth_types) simp_all
  from alt show ?thesis
  proof (elim disjE conjE exE)
    assume "grows k ws ws' pre" "\<forall>r. x \<noteq> Returned r"
    with f0 show ?thesis by (intro exI[of _ pre]) (simp add: counts_pages_no_page)
  next
    fix ws2 assume g2: "grows k ws ws2 pre" and fs: "fetchSymbols rt a ws2 = (x, ws')"
    from fetchSymbols_log[OF fs] obtain sy ws3 where
      sy: "grows k ws2 ws3 sy" "list_all (of_type rt 2120) sy"
      and alt2: "(x = Never \<and> ws' = ws3) \<or> (\<exists>symbols. fetchDeals rt a symbols ws3 = (x, ws'))"
      by blast
    have f1: "filter (of_type rt 2134) sy = []" using sy(2) by (rule filter_other_type) simp
    note g3 = grows_trans[OF g2 sy(1)]
    from alt2 show ?thesis
    proof (elim disjE conjE exE)
      assume "x = Never" "ws' = ws3"
      with g3 f0 f1 show ?thesis
        by (intro exI[of _ "pre @ sy"]) (simp add: counts_pages_no_page)
    next
      fix symbols assume fd: "fetchDeals rt a symbols ws3 = (x, ws')"
      from fetchDeals_log[OF fd] obtain rs post where
        rp: "grows k ws3 ws' (rs @ post)" "list_all (of_type rt 2134) rs"
            "list_all (of_type rt 2126) post"
            "\<forall>r. x = Returned r \<longrightarrow>
                 res_total r = length (res_deals r)
               \<and> res_deals r = concat (map page_deals rs)
               \<and> res_pages r = length (filter (\<lambda>p. page_deals p \<noteq> []) rs)"
            "\<forall>p ps. rs = p # ps \<and> \<not> truthy (length_of (deal_of p)) \<longrightarrow>
                 (\<exists>r. x = Returned r \<and> res_deals r = [] \<and> res_pages r = 0 \<and> res_total r = 0)"
        by blast
      have f2: "filter (of_type rt 2134) post = []" using rp(3) by (rule filter_other_type) simp
      have f: "filter (of_type rt 2134) ((pre @ sy) @ rs @ post) = rs"
        using f0 f1 f2 filter_same_type[OF rp(2)] by simp
      have "counts_pages rt 2134 ((pre @ sy) @ rs @ post) x"
        unfolding counts_pages_def f using rp(4,5) by blast
      with grows_trans[OF g3 rp(1)] show ?thesis by blast
    qed
  qed
qed

lemma with_connection_cases:
  assumes "with_connection connect s body = (x, s')"
  shows "((\<forall>r. x \<noteq> Returned r) \<and> (\<exists>y. connect s = (y, s') \<and> (\<forall>u. y \<noteq> Returned u)))
       \<or> (\<exists>ws ws'. connect s = (Returned (), ws) \<and> body ws = (x, ws')
            \<and> s' = (if x = Never then ws' else ws'\<lparr>terminated := terminated ws' + 1\<rparr>))"
  using assms by (auto simp: with_connection_def split: result.splits prod.splits)

lemma connectWS_cases:
  assumes "connectWS h host' s = (y, s0)"
  shows "received s0 = received s \<and> idle_destroys s0 = idle_destroys s \<and> y \<noteq> Never
       \<and> (converts host' \<longrightarrow> connects s0 = connects s + 1)
       \<and> (\<forall>u. y = Returned u \<longrightarrow>
             h = Opens \<and> converts host' \<and> s0 = s\<lparr>connects := connects s + 1\<rparr>)"
  using assms by (cases h) (auto simp: connectWS_def split: if_splits)

lemma connectCtrader_cases:
  assumes "connectCtrader h host' s = (y, s0)"
  shows "received s0 = received s \<and> connects s0 = connects s + 1 \<and> y \<noteq> Never
       \<and> (\<forall>u. y = Returned u \<longrightarrow>
             h = Opens \<and> converts host'
           \<and> s0 = s\<lparr>connects := connects s + 1, destroyed := False\<rparr>)"
  using assms by (cases h) (auto simp: connectCtrader_def on_idle_def Let_def split: if_splits)


lemma counts_pages_prefix:
  "filter (of_type rt res) pre = [] \<Longrightarrow> counts_pages rt res new x \<Longrightarrow>
   counts_pages rt res (pre @ new) x"
  by (simp add: counts_pages_def)

lemma deal_result_counts:
  assumes aw: "\<And>ws t x ws'. awaitFor ws t = (x, ws') \<Longrightarrow>
                 grows k ws ws' (logged x) \<and> list_all (of_type rt t) (logged x)"
      and d: "dealLoop awaitFor rt req res a ws [] pf 0 = (y, ws1)"
  shows "\<exists>rs. grows k ws ws1 rs
           \<and> counts_pages rt res rs
                (case y of Never \<Rightarrow> Never | Threw e \<Rightarrow> Threw e
                 | Returned (allDeals, pages) \<Rightarrow>
                     Returned \<lparr>res_deals = allDeals, res_symbols = sy, res_lotSizes = lo,
                               res_pages = pages, res_total = length allDeals\<rparr>)"
proof -
  from dealLoop_log[where awaitFor=awaitFor and rt=rt and n=40, OF aw _ d]
  obtain rs where rs: "grows k ws ws1 rs" "list_all (of_type rt res) rs"
      "\<forall>allDeals' pages'. y = Returned (allDeals', pages') \<longrightarrow>
          allDeals' = [] @ concat (map page_deals rs)
        \<and> pages' = 0 + length (filter (\<lambda>r. page_deals r \<noteq> []) rs)"
      "\<forall>p ps. rs = p # ps \<and> \<not> truthy (length_of (deal_of p)) \<longrightarrow> ps = [] \<and> y = Returned ([], 0)"
    by auto
  have "counts_pages rt res rs
          (case y of Never \<Rightarrow> Never | Threw e \<Rightarrow> Threw e
           | Returned (allDeals, pages) \<Rightarrow>
               Returned \<lparr>res_deals = allDeals, res_symbols = sy, res_lotSizes = lo,
                         res_pages = pages, res_total = length allDeals\<rparr>)"
    unfolding counts_pages_def filter_same_type[OF rs(2)]
    using rs(3,4) by (cases y) (auto split: prod.splits)
  with rs(1) show ?thesis by blast
qed

lemma plain_fetchDeals_log:
  assumes "plain_fetchDeals rt a ws = (x, ws')"
  shows "\<exists>new. grows k ws ws' new \<and> counts_pages rt 2156 new x"
proof -
  obtain y ws3 where d: "dealLoop (waitFor rt) rt 2155 2156 a ws [] (fromTimestamp a) 0 = (y, ws3)"
    by (cases "dealLoop (waitFor rt) rt 2155 2156 a ws [] (fromTimestamp a) 0")
  have x: "ws' = ws3" "x = (case y of Never \<Rightarrow> Never | Threw e \<Rightarrow> Threw e
             | Returned (allDeals, pages) \<Rightarrow>
                 Returned \<lparr>res_deals = allDeals, res_symbols = Map.empty, res_lotSizes = None,
                           res_pages = pages, res_total = length allDeals\<rparr>)"
    using assms d by (auto simp: plain_fetchDeals_def split: result.splits prod.splits)
  from deal_result_counts[where awaitFor="waitFor rt" and rt=rt and k=k and sy=Map.empty and lo=None,
      OF waitFor_log d]
  show ?thesis unfolding x by blast
qed

lemma tcp_fetchDeals_log:
  assumes "tcp_fetchDeals rt a symbols ws = (x, ws')"
  shows "\<exists>new. grows True ws ws' new \<and> counts_pages rt 2156 new x"
proof -
  obtain y ws3 where d: "dealLoop (waitFor_tcp rt) rt 2155 2156 a ws [] (fromTimestamp a) 0 = (y, ws3)"
    by (cases "dealLoop (waitFor_tcp rt) rt 2155 2156 a ws [] (fromTimestamp a) 0")
  have x: "ws' = ws3" "x = (case y of Never \<Rightarrow> Never | Threw e \<Rightarrow> Threw e
             | Returned (allDeals, pages) \<Rightarrow>
                 Returned \<lparr>res_deals = allDeals, res_symbols = symbols, res_lotSizes = None,
                           res_pages = pages, res_total = length allDeals\<rparr>)"
    using assms d by (auto simp: tcp_fetchDeals_def split: result.splits prod.splits)
  from deal_result_counts[where awaitFor="waitFor_tcp rt" and rt=rt and k=True and sy=symbols
      and lo=None, OF waitFor_tcp_log d]
  show ?thesis unfolding x by blast
qed

lemma tcp_fetchSymbols_log:
  assumes "tcp_fetchSymbols rt a ws = (x, ws')"
  shows "\<exists>new. grows True ws ws' new \<and> counts_pages rt 2156 new x"
proof -
  let ?ws1 = "sendMsg ws 2119 [(''ctidTraderAccountId'', PNum (ctidAccountId a)),
                               (''includeArchivedSymbols'', PBool False)]"
  obtain y ws2 where w: "waitFor_tcp rt ?ws1 2120 = (y, ws2)" by (cases "waitFor_tcp rt ?ws1 2120")
  from waitFor_tcp_log[OF w] have g: "grows True ws ws2 (logged y)" "list_all (of_type rt 2120) (logged y)"
    by (simp_all add: grows_sendMsg)
  have f: "filter (of_type rt 2156) (logged y) = []" using g(2) by (rule filter_other_type) simp
  have "(ws' = ws2 \<and> (\<forall>r. x \<noteq> Returned r)) \<or> (\<exists>symbols. tcp_fetchDeals rt a symbols ws2 = (x, ws'))"
    using assms w by (auto simp: tcp_fetchSymbols_def split: result.splits sum.splits)
  then show ?thesis
  proof (elim disjE conjE exE)
    assume "ws' = ws2" "\<forall>r. x \<noteq> Returned r"
    with g f show ?thesis by (intro exI[of _ "logged y"]) (simp add: counts_pages_no_page)
  next
    fix symbols assume "tcp_fetchDeals rt a symbols ws2 = (x, ws')"
    from tcp_fetchDeals_log[OF this] obtain new where
      "grows True ws2 ws' new" "counts_pages rt 2156 new x" by blast
    with grows_trans[OF g(1) this(1)] counts_pages_prefix[OF f this(2)] show ?thesis by blast
  qed
qed

text \<open>The two auth steps followed by a step that logs and counts as above.\<close>

lemma authenticate_counts:
  assumes aw: "\<And>ws t x ws'. awaitFor ws t = (x, ws') \<Longrightarrow>
                 grows k ws ws' (logged x) \<and> list_all (of_type rt t) (logged x)"
      and rest: "\<And>ws x ws'. rest ws = (x, ws') \<Longrightarrow> \<exists>new. grows k ws ws' new \<and> counts_pages rt res new x"
      and res: "res \<noteq> 2101" "res \<noteq> 2103"
      and run: "authenticate awaitFor a ws rest = (x, ws')"
  shows "\<exists>new. grows k ws ws' new \<and> counts_pages rt res new x"
proof -
  from authenticate_log[where awaitFor=awaitFor and rt=rt, OF aw run]
  obtain pre where pre: "list_all (\<lambda>m. of_type rt 2101 m \<or> of_type rt 2103 m) pre"
    and alt: "(grows k ws ws' pre \<and> (\<forall>r. x \<noteq> Returned r))
              \<or> (\<exists>ws2. grows k ws ws2 pre \<and> rest ws2 = (x, ws'))"
    by blast
  have f0: "filter (of_type rt res) pre = []" using pre res by (rule filter_auth_types)
  from alt show ?thesis
  proof (elim disjE conjE exE)
    assume "grows k ws ws' pre" "\<forall>r. x \<noteq> Returned r"
    with f0 show ?thesis by (intro exI[of _ pre]) (simp add: counts_pages_no_page)
  next
    fix ws2 assume g2: "grows k ws ws2 pre" and r: "rest ws2 = (x, ws')"
    from rest[OF r] obtain new where "grows k ws2 ws' new" "counts_pages rt res new x" by blast
    with grows_trans[OF g2 this(1)] counts_pages_prefix[OF f0 this(2)] show ?thesis by blast
  qed
qed

lemma with_connection_counts:
  assumes body: "\<And>ws x ws'. body ws = (x, ws') \<Longrightarrow> \<exists>new. grows k ws ws' new \<and> counts_pages rt res new x"
      and con: "\<And>y s0. connect s = (y, s0) \<Longrightarrow> received s0 = received s"
      and run: "with_connection connect s body = (x, s')"
  shows "received s' = received s @ new_messages s s'
       \<and> counts_pages rt res (new_messages s s') x
       \<and> (\<forall>ws. connect s = (Returned (), ws) \<and> x \<noteq> Never \<longrightarrow>
            terminated s' = terminated ws + 1 \<and> connects s' = connects ws
          \<and> (if k then idle_step ws s'
             else idle_destroys s' = idle_destroys ws \<and> destroyed s' = destroyed ws))"
  using with_connection_cases[OF run]
proof (elim disjE conjE exE)
  fix y assume "\<forall>r. x \<noteq> Returned r" "connect s = (y, s')" "\<forall>u. y \<noteq> Returned u"
  with con[of y s'] show ?thesis by (simp add: new_messages_def counts_pages_no_page)
next
  fix ws ws' assume c: "connect s = (Returned (), ws)"
    and r: "body ws = (x, ws')"
    and e: "s' = (if x = Never then ws' else ws'\<lparr>terminated := terminated ws' + 1\<rparr>)"
  from body[OF r] obtain new where
    n: "grows k ws ws' new" "counts_pages rt res new x" by blast
  then show ?thesis using e c con[OF c]
    by (auto simp: grows_def new_messages_def idle_step_def)
qed

lemma index_log:
  assumes "syncAccount rt h a s = (x, s')"
  shows "received s' = received s @ new_messages s s'
       \<and> counts_pages rt 2134 (new_messages s s') x
       \<and> (h = Opens \<and> converts (host a) \<and> x \<noteq> Never \<longrightarrow>
            terminated s' = terminated s + 1 \<and> connects s' = connects s + 1
          \<and> idle_destroys s' = idle_destroys s)"
proof -
  have "received s' = received s @ new_messages s s'
       \<and> counts_pages rt 2134 (new_messages s s') x
       \<and> (\<forall>ws. connectWS h (host a) s = (Returned (), ws) \<and> x \<noteq> Never \<longrightarrow>
            terminated s' = terminated ws + 1 \<and> connects s' = connects ws
          \<and> (if False then idle_step ws s'
             else idle_destroys s' = idle_destroys ws \<and> destroyed s' = destroyed ws))"
  proof (rule with_connection_counts[OF _ _ assms[unfolded syncAccount_def]])
    fix ws x ws' assume "authenticate (waitFor rt) a ws (fetchSymbols rt a) = (x, ws')"
    then show "\<exists>new. grows False ws ws' new \<and> counts_pages rt 2134 new x" by (rule syncTry_log)
  next
    fix y s0 assume "connectWS h (host a) s = (y, s0)"
    then show "received s0 = received s" by (simp add: connectWS_cases)
  qed
  then show ?thesis by (auto simp: connectWS_def)
qed

lemma plain_log:
  assumes "syncAccount_plain rt h a s = (x, s')"
  shows "received s' = received s @ new_messages s s'
       \<and> counts_pages rt 2156 (new_messages s s') x
       \<and> (h = Opens \<and> converts (host a) \<and> x \<noteq> Never \<longrightarrow>
            terminated s' = terminated s + 1 \<and> connects s' = connects s + 1
          \<and> idle_destroys s' = idle_destroys s)"
proof -
  have "received s' = received s @ new_messages s s'
       \<and> counts_pages rt 2156 (new_messages s s') x
       \<and> (\<forall>ws. connectWS h (host a) s = (Returned (), ws) \<and> x \<noteq> Never \<longrightarrow>
            terminated s' = terminated ws + 1 \<and> connects s' = connects ws
          \<and> (if False then idle_step ws s'
             else idle_destroys s' = idle_destroys ws \<and> destroyed s' = destroyed ws))"
  proof (rule with_connection_counts[OF _ _ assms[unfolded syncAccount_plain_def]])
    fix ws x ws' assume "authenticate (waitFor rt) a ws (plain_fetchDeals rt a) = (x, ws')"
    from authenticate_counts[where awaitFor="waitFor rt" and rt=rt and res=2156 and k=False,
        OF waitFor_log plain_fetchDeals_log _ _ this]
    show "\<exists>new. grows False ws ws' new \<and> counts_pages rt 2156 new x" by simp
  next
    fix y s0 assume "connectWS h (host a) s = (y, s0)"
    then show "received s0 = received s" by (simp add: connectWS_cases)
  qed
  then show ?thesis by (auto simp: connectWS_def)
qed

lemma grows_buf: "grows k (ws\<lparr>buf := b\<rparr>) ws' new = grows k ws ws' new"
  by (simp add: grows_def idle_step_def)

lemma tcp_log:
  assumes "syncAccount_tcp rt h a s = (x, s')"
  shows "received s' = received s @ new_messages s s'
       \<and> counts_pages rt 2156 (new_messages s s') x
       \<and> (h = Opens \<and> converts (host a) \<and> x \<noteq> Never \<longrightarrow>
            terminated s' = terminated s + 1 \<and> connects s' = connects s + 1
          \<and> (idle_destroys s' = idle_destroys s \<or> idle_destroys s' = idle_destroys s + 1))"
proof -
  have *: "received s' = received s @ new_messages s s'
       \<and> counts_pages rt 2156 (new_messages s s') x
       \<and> (\<forall>ws. connectCtrader h (host a) s = (Returned (), ws) \<and> x \<noteq> Never \<longrightarrow>
            terminated s' = terminated ws + 1 \<and> connects s' = connects ws
          \<and> (if True then idle_step ws s'
             else idle_destroys s' = idle_destroys ws \<and> destroyed s' = destroyed ws))"
  proof (rule with_connection_counts[OF _ _ assms[unfolded syncAccount_tcp_def]])
    fix ws x ws'
    assume "authenticate (waitFor_tcp rt) a (ws\<lparr>buf := []\<rparr>) (tcp_fetchSymbols rt a) = (x, ws')"
    from authenticate_counts[where awaitFor="waitFor_tcp rt" and rt=rt and res=2156 and k=True,
        OF waitFor_tcp_log tcp_fetchSymbols_log _ _ this]
    show "\<exists>new. grows True ws ws' new \<and> counts_pages rt 2156 new x" by (simp add: grows_buf)
  next
    fix y s0 assume "connectCtrader h (host a) s = (y, s0)"
    then show "received s0 = received s" by (simp add: connectCtrader_cases)
  qed
  have "terminated s' = terminated s + 1 \<and> connects s' = connects s + 1
          \<and> (idle_destroys s' = idle_destroys s \<or> idle_destroys s' = idle_destroys s + 1)"
    if h: "h = Opens" and host: "converts (host a)" and x: "x \<noteq> Never"
  proof -
    from h host have c: "connectCtrader h (host a) s
                    = (Returned (), s\<lparr>connects := connects s + 1, destroyed := False\<rparr>)"
      by (simp add: connectCtrader_def Let_def)
    from * c x show ?thesis by (auto simp: idle_step_def split: if_splits)
  qed
  with * show ?thesis by simp
qed

section \<open>The pagination example\<close>

text \<open>The first message that a run of the loop logs is the response to its first request.\<close>

lemma dealLoop_head_response:
  assumes aw: "\<And>ws t x ws'. awaitFor ws t = (x, ws') \<Longrightarrow>
                 grows k ws ws' (logged x) \<and> list_all (of_type rt t) (logged x)"
      and lt: "pages < 40"
      and w: "awaitFor (sendMsg ws req (deal_request a pageFrom)) res = (y, ws2)"
      and run: "dealLoop awaitFor rt req res a ws allDeals pageFrom pages = (x, ws')"
      and log: "new_messages ws ws' = r # rest"
  shows "y = Returned r \<and> new_messages ws2 ws' = rest"
proof -
  from aw[OF w] have g: "grows k ws ws2 (logged y)" by (simp add: grows_sendMsg)
  note unf = dealLoop_unfold[where awaitFor=awaitFor and rt=rt and allDeals=allDeals, OF lt w]
  have "ws' = ws2 \<or> (\<exists>al pf. dealLoop awaitFor rt req res a ws2 al pf (pages + 1) = (x, ws'))"
    using run unf by (auto simp: Let_def split: result.splits sum.splits if_splits)
  then obtain rs where rs: "grows k ws2 ws' rs"
  proof (elim disjE exE)
    assume "ws' = ws2"
    then have "grows k ws2 ws' []" by (simp add: grows_refl)
    then show ?thesis by (rule that)
  next
    fix al pf assume "dealLoop awaitFor rt req res a ws2 al pf (pages + 1) = (x, ws')"
    from dealLoop_log[where awaitFor=awaitFor and rt=rt, OF aw refl this]
    show ?thesis using that by blast
  qed
  have nonret: "ws' = ws2" if "\<forall>m. y \<noteq> Returned m"
    using that run unf by (cases y) auto
  from grows_new_messages[OF grows_trans[OF g rs]] log have l: "logged y @ rs = r # rest" by simp
  show ?thesis
  proof (cases y)
    case (Returned m)
    with l grows_new_messages[OF rs] show ?thesis by simp
  next
    case Never
    with nonret have "ws' = ws2" by simp
    with g grows_new_messages[of k ws ws2 "logged y"] log Never show ?thesis by simp
  next
    case (Threw e)
    with nonret have "ws' = ws2" by simp
    with g grows_new_messages[of k ws ws2 "logged y"] log Threw show ?thesis by simp
  qed
qed

lemma two_responses:
  assumes aw: "\<And>ws t x ws'. awaitFor ws t = (x, ws') \<Longrightarrow>
                 grows k ws ws' (logged x) \<and> list_all (of_type rt t) (logged x)"
      and fr: "\<And>ws t. sent (snd (awaitFor ws t)) = sent ws"
      and run: "dealLoop awaitFor rt req res a ws [] pageFrom 0 = (x, ws')"
      and log: "new_messages ws ws' = r1 # r2 # further"
      and p1: "deal_of r1 = JArr ds1" "length ds1 = 500"
              "execution_timestamps rt ds1 = Inr ts1" "Math_max ts1 = Num 1000"
      and p2: "deal_of r2 = JArr ds2" "length ds2 = 120"
  shows "x = Returned (ds1 @ ds2, 2) \<and> further = []
       \<and> sent ws' = sent ws @ [(req, deal_request a pageFrom), (req, deal_request a (Num 1001))]"
proof -
  obtain y ws2 where w1: "awaitFor (sendMsg ws req (deal_request a pageFrom)) res = (y, ws2)"
    by (cases "awaitFor (sendMsg ws req (deal_request a pageFrom)) res")
  from dealLoop_head_response[where awaitFor=awaitFor and rt=rt, OF aw _ w1 run log]
  have y: "y = Returned r1" and l2: "new_messages ws2 ws' = r2 # further" by simp_all
  have s2: "sent ws2 = sent ws @ [(req, deal_request a pageFrom)]"
    using fr[of "sendMsg ws req (deal_request a pageFrom)" res] w1 by (simp add: sendMsg_def)
  have step: "dealLoop awaitFor rt req res a ws [] pageFrom 0 =
     (if num_ge (plus1 (Math_max ts1)) (toTimestamp a)
      then (Returned ([] @ ds1, 0 + 1), ws2)
      else dealLoop awaitFor rt req res a ws2 ([] @ ds1) (plus1 (Math_max ts1)) (0 + 1))"
    using page_full[where awaitFor=awaitFor and rt=rt and allDeals="[]", OF _ w1[unfolded y] p1(1) _ p1(3)]
      p1(2) by simp
  have go: "\<not> num_ge (plus1 (Math_max ts1)) (toTimestamp a)"
  proof
    assume "num_ge (plus1 (Math_max ts1)) (toTimestamp a)"
    with run step have "ws' = ws2" by simp
    with l2 show False by (simp add: new_messages_def)
  qed
  with run step p1(4) have run2: "dealLoop awaitFor rt req res a ws2 ds1 (Num 1001) 1 = (x, ws')"
    by simp
  obtain y2 ws4 where w2: "awaitFor (sendMsg ws2 req (deal_request a (Num 1001))) res = (y2, ws4)"
    by (cases "awaitFor (sendMsg ws2 req (deal_request a (Num 1001))) res")
  from dealLoop_head_response[where awaitFor=awaitFor and rt=rt, OF aw _ w2 run2 l2]
  have y2: "y2 = Returned r2" and l4: "new_messages ws4 ws' = further" by simp_all
  have s4: "sent ws4 = sent ws2 @ [(req, deal_request a (Num 1001))]"
    using fr[of "sendMsg ws2 req (deal_request a (Num 1001))" res] w2 by (simp add: sendMsg_def)
  have "dealLoop awaitFor rt req res a ws2 ds1 (Num 1001) 1 = (Returned (ds1 @ ds2, 1 + 1), ws4)"
    using p2(2) by (intro page_last[where awaitFor=awaitFor, OF _ w2[unfolded y2] p2(1)]) auto
  with run2 have "x = Returned (ds1 @ ds2, 2)" "ws' = ws4" by simp_all
  with l4 s2 s4 show ?thesis by (simp add: new_messages_def)
qed

text \<open>
  Read from the log of a run, with either \<^verbatim>\<open>waitFor\<close>: when the first two messages that
  resolved a wait of the loop are a response of 500 deals with largest execution timestamp
  1000 and a response of 120 deals, the run returned the 620 deals after two requests.
\<close>

lemma two_responses_websocket:
  assumes run: "dealLoop (waitFor rt) rt 2133 2134 a ws [] (fromTimestamp a) 0 = (x, ws')"
      and log: "new_messages ws ws' = r1 # r2 # further"
      and p1: "deal_of r1 = JArr ds1" "length ds1 = 500"
              "execution_timestamps rt ds1 = Inr ts1" "Math_max ts1 = Num 1000"
      and p2: "deal_of r2 = JArr ds2" "length ds2 = 120"
  shows "x = Returned (ds1 @ ds2, 2) \<and> further = []
       \<and> sent ws' = sent ws @ [(2133, deal_request a (fromTimestamp a)),
                                 (2133, deal_request a (Num 1001))]"
  using two_responses[where awaitFor="waitFor rt" and rt=rt and k=False,
      OF waitFor_log waitFor_frame(1) run log p1 p2] .

lemma two_responses_tcp:
  assumes run: "dealLoop (waitFor_tcp rt) rt 2155 2156 a sock [] (fromTimestamp a) 0 = (x, sock')"
      and log: "new_messages sock sock' = r1 # r2 # further"
      and p1: "deal_of r1 = JArr ds1" "length ds1 = 500"
              "execution_timestamps rt ds1 = Inr ts1" "Math_max ts1 = Num 1000"
      and p2: "deal_of r2 = JArr ds2" "length ds2 = 120"
  shows "x = Returned (ds1 @ ds2, 2) \<and> further = []
       \<and> sent sock' = sent sock @ [(2155, deal_request a (fromTimestamp a)),
                                     (2155, deal_request a (Num 1001))]"
  using two_responses[where awaitFor="waitFor_tcp rt" and rt=rt and k=True,
      OF waitFor_tcp_log waitFor_tcp_frame(1) run log p1 p2] .

text \<open>The two pages of the example over TCP, each response arriving as one chunk.\<close>

lemma two_pages_generic:
  assumes w1: "awaitFor (sendMsg ws req (deal_request a pf)) res = (Returned r1, ws2)"
      and w2: "awaitFor (sendMsg ws2 req (deal_request a (Num 1001))) res = (Returned r2, ws4)"
      and p1: "deal_of r1 = JArr ds1" "length ds1 = 500"
              "execution_timestamps rt ds1 = Inr ts1" "Math_max ts1 = Num 1000"
      and p2: "deal_of r2 = JArr ds2" "length ds2 = 120"
      and to: "\<not> num_ge (Num 1001) (toTimestamp a)"
  shows "dealLoop awaitFor rt req res a ws [] pf 0 = (Returned (ds1 @ ds2, 2), ws4)"
proof -
  have s1: "dealLoop awaitFor rt req res a ws [] pf 0
            = dealLoop awaitFor rt req res a ws2 ([] @ ds1) (Num 1001) (0 + 1)"
    using page_full[where awaitFor=awaitFor and allDeals="[]", OF _ w1 p1(1) _ p1(3)] p1(2,4) to
    by simp
  have s2: "dealLoop awaitFor rt req res a ws2 ([] @ ds1) (Num 1001) (0 + 1)
            = (Returned (([] @ ds1) @ ds2, (0 + 1) + 1), ws4)"
    using p2(2) by (intro page_last[where awaitFor=awaitFor, OF _ w2 p2(1)]) auto
  show ?thesis unfolding s1 s2 by simp
qed

lemma two_pages_run_tcp:
  assumes p1: "single_frame rt c1 r1" "payloadType_of rt r1 = Some (Num 2156)"
              "deal_of r1 = JArr ds1" "length ds1 = 500"
              "execution_timestamps rt ds1 = Inr ts1" "Math_max ts1 = Num 1000"
      and p2: "single_frame rt c2 r2" "payloadType_of rt r2 = Some (Num 2156)"
              "deal_of r2 = JArr ds2" "length ds2 = 120"
      and to: "\<not> num_ge (Num 1001) (toTimestamp a)"
      and sock: "buf sock = []" "\<not> destroyed sock"
  shows "dealLoop (waitFor_tcp rt) rt 2155 2156 a (sock\<lparr>inbound := Data c1 # Data c2 # rest\<rparr>) []
           (fromTimestamp a) 0
         = (Returned (ds1 @ ds2, 2),
            sock\<lparr>buf := [], inbound := rest,
               sent := sent sock @ [(2155, deal_request a (fromTimestamp a)),
                                    (2155, deal_request a (Num 1001))],
               received := received sock @ [r1, r2]\<rparr>)"
proof -
  let ?ws1 = "sendMsg (sock\<lparr>inbound := Data c1 # Data c2 # rest\<rparr>) 2155 (deal_request a (fromTimestamp a))"
  let ?ws2 = "?ws1\<lparr>buf := [], inbound := Data c2 # rest, received := received ?ws1 @ [r1]\<rparr>"
  let ?ws3 = "sendMsg ?ws2 2155 (deal_request a (Num 1001))"
  let ?ws4 = "?ws3\<lparr>buf := [], inbound := rest, received := received ?ws3 @ [r2]\<rparr>"
  have w1: "waitFor_tcp rt ?ws1 2156 = (Returned r1, ?ws2)"
    by (rule waitFor_tcp_hit[OF _ _ _ p1(1,2)]) (simp_all add: sendMsg_def sock)
  have w2: "waitFor_tcp rt ?ws3 2156 = (Returned r2, ?ws4)"
    by (rule waitFor_tcp_hit[OF _ _ _ p2(1,2)]) (simp_all add: sendMsg_def sock)
  from two_pages_generic[where awaitFor="waitFor_tcp rt" and rt=rt, OF w1 w2 p1(3-6) p2(3,4) to]
  show ?thesis by (simp add: sendMsg_def)
qed

lemma tcp_page_facts:
  "single_frame paging_runtime_tcp [0, 0, 0, 1, 1] full_page_tcp"
  "payloadType_of paging_runtime_tcp full_page_tcp = Some (Num 2156)"
  "deal_of full_page_tcp = JArr (replicate 500 (JObj [(''executionTimestamp'', JNum 1000)]))"
  "execution_timestamps paging_runtime_tcp (replicate 500 (JObj [(''executionTimestamp'', JNum 1000)]))
     = Inr (replicate 500 (Num 1000))"
  "single_frame paging_runtime_tcp [0, 0, 0, 1, 2] partial_page_tcp"
  "payloadType_of paging_runtime_tcp partial_page_tcp = Some (Num 2156)"
  "deal_of partial_page_tcp = JArr (replicate 120 (JObj [(''executionTimestamp'', JNum 1500)]))"
  by (simp_all add: paging_runtime_tcp_def table_runtime_def full_page_tcp_def partial_page_tcp_def
        payloadType_of_def deal_of_def single_frame_def readUInt32BE_def
        execution_timestamps_replicate)

text \<open>
  C1 (as amended). The pagination loop of \<^verbatim>\<open>syncAccount\<close> is started with no deal and
  \<^verbatim>\<open>pages = 0\<close>; the remote side answers the first deal-list request with 500 deals whose
  largest execution timestamp is 1000 and the second with 120 deals; and the cursor 1001 has
  not reached \<^verbatim>\<open>toTimestamp\<close> (\<^verbatim>\<open>1001 >= toTimestamp\<close> is false). Then the loop sends exactly two
  deal-list requests, the first with \<^verbatim>\<open>fromTimestamp\<close> as given and the second with
  \<^verbatim>\<open>fromTimestamp\<close> 1001, both with the given \<^verbatim>\<open>toTimestamp\<close> and 500 rows at most, and returns
  after the second response with the 620 deals and \<^verbatim>\<open>pages = 2\<close>; what arrives after the second
  response is left unread. This holds for the loop of src/index.js, where each response is a
  WebSocket message, and for the loop of src/unnamed/part\_000, where each response arrives as
  one chunk holding one frame, on a socket that is not destroyed and whose reader has nothing
  buffered.
\<close>

theorem pagination_two_pages:
  "(JSON_parse rt d1 = Some r1 \<and> payloadType_of rt r1 = Some (Num 2134)
      \<and> deal_of r1 = JArr ds1 \<and> length ds1 = 500
      \<and> execution_timestamps rt ds1 = Inr ts1 \<and> Math_max ts1 = Num 1000
      \<and> JSON_parse rt d2 = Some r2 \<and> payloadType_of rt r2 = Some (Num 2134)
      \<and> deal_of r2 = JArr ds2 \<and> length ds2 = 120
      \<and> \<not> num_ge (Num 1001) (toTimestamp a) \<longrightarrow>
    dealLoop (waitFor rt) rt 2133 2134 a (ws\<lparr>inbound := Data d1 # Data d2 # rest\<rparr>) []
      (fromTimestamp a) 0
    = (Returned (ds1 @ ds2, 2),
       ws\<lparr>inbound := rest,
          sent := sent ws @
            [(2133, [(''ctidTraderAccountId'', PNum (ctidAccountId a)),
                     (''fromTimestamp'', PNum (fromTimestamp a)),
                     (''toTimestamp'', PNum (toTimestamp a)), (''maxRows'', PNum (Num 500))]),
             (2133, [(''ctidTraderAccountId'', PNum (ctidAccountId a)),
                     (''fromTimestamp'', PNum (Num 1001)),
                     (''toTimestamp'', PNum (toTimestamp a)), (''maxRows'', PNum (Num 500))])],
          received := received ws @ [r1, r2]\<rparr>)
    \<and> length (ds1 @ ds2) = 620)
 \<and> (single_frame rt c1 q1 \<and> payloadType_of rt q1 = Some (Num 2156)
      \<and> deal_of q1 = JArr es1 \<and> length es1 = 500
      \<and> execution_timestamps rt es1 = Inr us1 \<and> Math_max us1 = Num 1000
      \<and> single_frame rt c2 q2 \<and> payloadType_of rt q2 = Some (Num 2156)
      \<and> deal_of q2 = JArr es2 \<and> length es2 = 120
      \<and> \<not> num_ge (Num 1001) (toTimestamp a) \<and> buf sock = [] \<and> \<not> destroyed sock \<longrightarrow>
    dealLoop (waitFor_tcp rt) rt 2155 2156 a (sock\<lparr>inbound := Data c1 # Data c2 # later\<rparr>) []
      (fromTimestamp a) 0
    = (Returned (es1 @ es2, 2),
       sock\<lparr>buf := [], inbound := later,
          sent := sent sock @
            [(2155, [(''ctidTraderAccountId'', PNum (ctidAccountId a)),
                     (''fromTimestamp'', PNum (fromTimestamp a)),
                     (''toTimestamp'', PNum (toTimestamp a)), (''maxRows'', PNum (Num 500))]),
             (2155, [(''ctidTraderAccountId'', PNum (ctidAccountId a)),
                     (''fromTimestamp'', PNum (Num 1001)),
                     (''toTimestamp'', PNum (toTimestamp a)), (''maxRows'', PNum (Num 500))])],
          received := received sock @ [q1, q2]\<rparr>)
    \<and> length (es1 @ es2) = 620)"
proof (intro conjI impI)
  assume h: "JSON_parse rt d1 = Some r1 \<and> payloadType_of rt r1 = Some (Num 2134)
      \<and> deal_of r1 = JArr ds1 \<and> length ds1 = 500
      \<and> execution_timestamps rt ds1 = Inr ts1 \<and> Math_max ts1 = Num 1000
      \<and> JSON_parse rt d2 = Some r2 \<and> payloadType_of rt r2 = Some (Num 2134)
      \<and> deal_of r2 = JArr ds2 \<and> length ds2 = 120
      \<and> \<not> num_ge (Num 1001) (toTimestamp a)"
  then show "length (ds1 @ ds2) = 620" by simp
  from h two_pages_run[where rt=rt and ?d1.0=d1 and ?r1.0=r1 and ?ds1.0=ds1 and ?ts1.0=ts1
      and ?d2.0=d2 and ?r2.0=r2 and ?ds2.0=ds2 and a=a and ws=ws and rest=rest]
  show "dealLoop (waitFor rt) rt 2133 2134 a (ws\<lparr>inbound := Data d1 # Data d2 # rest\<rparr>) []
      (fromTimestamp a) 0
    = (Returned (ds1 @ ds2, 2),
       ws\<lparr>inbound := rest,
          sent := sent ws @
            [(2133, [(''ctidTraderAccountId'', PNum (ctidAccountId a)),
                     (''fromTimestamp'', PNum (fromTimestamp a)),
                     (''toTimestamp'', PNum (toTimestamp a)), (''maxRows'', PNum (Num 500))]),
             (2133, [(''ctidTraderAccountId'', PNum (ctidAccountId a)),
                     (''fromTimestamp'', PNum (Num 1001)),
                     (''toTimestamp'', PNum (toTimestamp a)), (''maxRows'', PNum (Num 500))])],
          received := received ws @ [r1, r2]\<rparr>)"
    by (simp add: deal_request_def)
next
  assume h: "single_frame rt c1 q1 \<and> payloadType_of rt q1 = Some (Num 2156)
      \<and> deal_of q1 = JArr es1 \<and> length es1 = 500
      \<and> execution_timestamps rt es1 = Inr us1 \<and> Math_max us1 = Num 1000
      \<and> single_frame rt c2 q2 \<and> payloadType_of rt q2 = Some (Num 2156)
      \<and> deal_of q2 = JArr es2 \<and> length es2 = 120
      \<and> \<not> num_ge (Num 1001) (toTimestamp a) \<and> buf sock = [] \<and> \<not> destroyed sock"
  then show "length (es1 @ es2) = 620" by simp
  from h two_pages_run_tcp[where rt=rt and ?c1.0=c1 and ?r1.0=q1 and ?ds1.0=es1 and ?ts1.0=us1
      and ?c2.0=c2 and ?r2.0=q2 and ?ds2.0=es2 and a=a and sock=sock and rest=later]
  show "dealLoop (waitFor_tcp rt) rt 2155 2156 a (sock\<lparr>inbound := Data c1 # Data c2 # later\<rparr>) []
      (fromTimestamp a) 0
    = (Returned (es1 @ es2, 2),
       sock\<lparr>buf := [], inbound := later,
          sent := sent sock @
            [(2155, [(''ctidTraderAccountId'', PNum (ctidAccountId a)),
                     (''fromTimestamp'', PNum (fromTimestamp a)),
                     (''toTimestamp'', PNum (toTimestamp a)), (''maxRows'', PNum (Num 500))]),
             (2155, [(''ctidTraderAccountId'', PNum (ctidAccountId a)),
                     (''fromTimestamp'', PNum (Num 1001)),
                     (''toTimestamp'', PNum (toTimestamp a)), (''maxRows'', PNum (Num 500))])],
          received := received sock @ [q1, q2]\<rparr>)"
    by (simp add: deal_request_def)
qed

theorem pagination_two_pages_witness:
  "dealLoop (waitFor paging_runtime) paging_runtime 2133 2134 (window 5000)
     (idle\<lparr>inbound := [Data [1], Data [2]]\<rparr>) [] (Num 0) 0
   = (Returned (replicate 500 (JObj [(''executionTimestamp'', JNum 1000)])
                @ replicate 120 (JObj [(''executionTimestamp'', JNum 1500)]), 2),
      idle\<lparr>inbound := [],
           sent := [(2133, [(''ctidTraderAccountId'', PNum (Num 1)), (''fromTimestamp'', PNum (Num 0)),
                            (''toTimestamp'', PNum (Num 5000)), (''maxRows'', PNum (Num 500))]),
                    (2133, [(''ctidTraderAccountId'', PNum (Num 1)),
                            (''fromTimestamp'', PNum (Num 1001)),
                            (''toTimestamp'', PNum (Num 5000)), (''maxRows'', PNum (Num 500))])],
           received := [full_page, partial_page]\<rparr>)
 \<and> dealLoop (waitFor_tcp paging_runtime_tcp) paging_runtime_tcp 2155 2156 (window 5000)
     (idle\<lparr>inbound := [Data [0, 0, 0, 1, 1], Data [0, 0, 0, 1, 2]]\<rparr>) [] (Num 0) 0
   = (Returned (replicate 500 (JObj [(''executionTimestamp'', JNum 1000)])
                @ replicate 120 (JObj [(''executionTimestamp'', JNum 1500)]), 2),
      idle\<lparr>inbound := [],
           sent := [(2155, [(''ctidTraderAccountId'', PNum (Num 1)), (''fromTimestamp'', PNum (Num 0)),
                            (''toTimestamp'', PNum (Num 5000)), (''maxRows'', PNum (Num 500))]),
                    (2155, [(''ctidTraderAccountId'', PNum (Num 1)),
                            (''fromTimestamp'', PNum (Num 1001)),
                            (''toTimestamp'', PNum (Num 5000)), (''maxRows'', PNum (Num 500))])],
           received := [full_page_tcp, partial_page_tcp]\<rparr>)"
proof -
  note t = pagination_two_pages [where rt = paging_runtime and a = "window 5000" and ws = idle
      and rest = "[]" and ?d1.0 = "[1]" and ?r1.0 = full_page
      and ?ds1.0 = "replicate 500 (JObj [(''executionTimestamp'', JNum 1000)])"
      and ?ts1.0 = "replicate 500 (Num 1000)"
      and ?d2.0 = "[2]" and ?r2.0 = partial_page
      and ?ds2.0 = "replicate 120 (JObj [(''executionTimestamp'', JNum 1500)])", THEN conjunct1]
  note u = pagination_two_pages [where rt = paging_runtime_tcp and a = "window 5000" and sock = idle
      and later = "[]" and ?c1.0 = "[0, 0, 0, 1, 1]" and ?q1.0 = full_page_tcp
      and ?es1.0 = "replicate 500 (JObj [(''executionTimestamp'', JNum 1000)])"
      and ?us1.0 = "replicate 500 (Num 1000)"
      and ?c2.0 = "[0, 0, 0, 1, 2]" and ?q2.0 = partial_page_tcp
      and ?es2.0 = "replicate 120 (JObj [(''executionTimestamp'', JNum 1500)])", THEN conjunct2]
  have 1: "dealLoop (waitFor paging_runtime) paging_runtime 2133 2134 (window 5000)
     (idle\<lparr>inbound := [Data [1], Data [2]]\<rparr>) [] (Num 0) 0
   = (Returned (replicate 500 (JObj [(''executionTimestamp'', JNum 1000)])
                @ replicate 120 (JObj [(''executionTimestamp'', JNum 1500)]), 2),
      idle\<lparr>inbound := [],
           sent := [(2133, [(''ctidTraderAccountId'', PNum (Num 1)), (''fromTimestamp'', PNum (Num 0)),
                            (''toTimestamp'', PNum (Num 5000)), (''maxRows'', PNum (Num 500))]),
                    (2133, [(''ctidTraderAccountId'', PNum (Num 1)),
                            (''fromTimestamp'', PNum (Num 1001)),
                            (''toTimestamp'', PNum (Num 5000)), (''maxRows'', PNum (Num 500))])],
           received := [full_page, partial_page]\<rparr>)"
    using t by (simp add: full_page_facts partial_page_facts window_def idle_def)
  have 2: "dealLoop (waitFor_tcp paging_runtime_tcp) paging_runtime_tcp 2155 2156 (window 5000)
     (idle\<lparr>inbound := [Data [0, 0, 0, 1, 1], Data [0, 0, 0, 1, 2]]\<rparr>) [] (Num 0) 0
   = (Returned (replicate 500 (JObj [(''executionTimestamp'', JNum 1000)])
                @ replicate 120 (JObj [(''executionTimestamp'', JNum 1500)]), 2),
      idle\<lparr>inbound := [],
           sent := [(2155, [(''ctidTraderAccountId'', PNum (Num 1)), (''fromTimestamp'', PNum (Num 0)),
                            (''toTimestamp'', PNum (Num 5000)), (''maxRows'', PNum (Num 500))]),
                    (2155, [(''ctidTraderAccountId'', PNum (Num 1)),
                            (''fromTimestamp'', PNum (Num 1001)),
                            (''toTimestamp'', PNum (Num 5000)), (''maxRows'', PNum (Num 500))])],
           received := [full_page_tcp, partial_page_tcp]\<rparr>)"
    using u by (simp add: tcp_page_facts Math_max_replicate window_def idle_def)
  from 1 2 show ?thesis by simp
qed

text \<open>
  The same two responses with a window that ends at 1001: the first response is read, the
  cursor 1001 has reached \<^verbatim>\<open>toTimestamp\<close>, and the loop returns the 500 deals and \<^verbatim>\<open>pages = 1\<close>
  after one request. The second response is left unread.
\<close>

theorem pagination_window_reached:
  "JSON_parse paging_runtime [1] = Some full_page
 \<and> JSON_parse paging_runtime [2] = Some partial_page
 \<and> length (page_deals full_page) = 500
 \<and> map_timestamps paging_runtime (deal_of full_page) = Inr (replicate 500 (Num 1000))
 \<and> Math_max (replicate 500 (Num 1000)) = Num 1000
 \<and> length (page_deals partial_page) = 120
 \<and> dealLoop (waitFor paging_runtime) paging_runtime 2133 2134 (window 1001)
      (idle\<lparr>inbound := [Data [1], Data [2]]\<rparr>) [] (Num 0) 0
    = (Returned (replicate 500 (JObj [(''executionTimestamp'', JNum 1000)]), 1),
       idle\<lparr>inbound := [Data [2]],
            sent := [(2133, [(''ctidTraderAccountId'', PNum (Num 1)), (''fromTimestamp'', PNum (Num 0)),
                             (''toTimestamp'', PNum (Num 1001)), (''maxRows'', PNum (Num 500))])],
            received := [full_page]\<rparr>)"
  using window_reached_run
  by (simp add: full_page_facts partial_page_facts page_deals_def deal_request_def window_def)

lemmas run_simps =
  syncAccount_def with_connection_def connectWS_def authenticate_def fetchSymbols_def
  symbolList_def fetchDeals_def symbolDetails_def uniqueIds_of_def waitFor_def handler_def
  on_message_def sendMsg_def new_wait_def resolve_def reject_def on_timeout_def
  payloadType_of_def deal_of_def table_runtime_def session_runtime_def idle_def window_def
  deal_request_def Let_def three_deals_def coalesce_def nullish_def

lemmas tcp_run_simps =
  syncAccount_tcp_def connectCtrader_def on_idle_def tcp_fetchSymbols_def tcp_fetchDeals_def
  waitFor_tcp_def on_data_def reader_handler_def readUInt32BE_def frame_loop.simps


lemma empty_first_page_run:
  "syncAccount session_runtime Opens (window 5000)
     (idle\<lparr>inbound := [Data [1], Data [2], TimerFired, Data [3]]\<rparr>)
   = (Returned \<lparr>res_deals = [], res_symbols = Map.empty, res_lotSizes = Some Map.empty,
                res_pages = 0, res_total = 0\<rparr>,
      idle\<lparr>sent := [(2100, [(''clientId'', PJson None), (''clientSecret'', PJson None)]),
                    (2102, [(''ctidTraderAccountId'', PNum (Num 1)), (''accessToken'', PJson None)]),
                    (2119, [(''ctidTraderAccountId'', PNum (Num 1)),
                            (''includeArchivedSymbols'', PBool False)]),
                    (2133, deal_request (window 5000) (Num 0))],
           received := [JObj [(''payloadType'', JNum 2101)], JObj [(''payloadType'', JNum 2103)],
                        JObj [(''payloadType'', JNum 2134), (''payload'', JObj [])]],
           terminated := 1, connects := 1\<rparr>)"
  by (simp add: run_simps dealLoop.simps)






text \<open>
  C10. For the three variants of \<^verbatim>\<open>syncAccount\<close>: the messages that resolved a wait during the
  call are appended to the log, and with respect to the deal-list responses among them (type
  2134 in src/index.js, 2156 in the other two) a returned result has \<^verbatim>\<open>total\<close> equal to the
  number of its deals, its deals are the deals of those responses in order, and \<^verbatim>\<open>pages\<close> is
  the number of those responses that added deals; when the first deal-list response is empty
  the call returns with no deal, \<^verbatim>\<open>pages = 0\<close> and \<^verbatim>\<open>total = 0\<close>.
\<close>

theorem sync_result_counts:
  "(syncAccount rt h a s = (x, s') \<longrightarrow>
      received s' = received s @ new_messages s s' \<and> counts_pages rt 2134 (new_messages s s') x)
 \<and> (syncAccount_plain rt h a s = (y, t) \<longrightarrow>
      received t = received s @ new_messages s t \<and> counts_pages rt 2156 (new_messages s t) y)
 \<and> (syncAccount_tcp rt h a s = (z, u) \<longrightarrow>
      received u = received s @ new_messages s u \<and> counts_pages rt 2156 (new_messages s u) z)"
proof (intro conjI impI)
  assume "syncAccount rt h a s = (x, s')"
  from index_log[OF this] show "received s' = received s @ new_messages s s'"
    and "counts_pages rt 2134 (new_messages s s') x" by simp_all
next
  assume "syncAccount_plain rt h a s = (y, t)"
  from plain_log[OF this] show "received t = received s @ new_messages s t"
    and "counts_pages rt 2156 (new_messages s t) y" by simp_all
next
  assume "syncAccount_tcp rt h a s = (z, u)"
  from tcp_log[OF this] show "received u = received s @ new_messages s u"
    and "counts_pages rt 2156 (new_messages s u) z" by simp_all
qed

theorem sync_result_counts_witness:
  "fst (syncAccount session_runtime Opens (window 5000)
          (idle\<lparr>inbound := [Data [1], Data [2], TimerFired, Data [3]]\<rparr>))
     = Returned \<lparr>res_deals = [], res_symbols = Map.empty, res_lotSizes = Some Map.empty,
                 res_pages = 0, res_total = 0\<rparr>
 \<and> counts_pages session_runtime 2134
      [JObj [(''payloadType'', JNum 2101)], JObj [(''payloadType'', JNum 2103)],
       JObj [(''payloadType'', JNum 2134), (''payload'', JObj [])]]
      (Returned \<lparr>res_deals = [], res_symbols = Map.empty, res_lotSizes = Some Map.empty,
                 res_pages = 0, res_total = 0\<rparr> :: symtab sync_result result)"
  using sync_result_counts [THEN conjunct1, rule_format, OF empty_first_page_run]
  unfolding empty_first_page_run by (simp add: new_messages_def idle_def)

section \<open>Symbol details: backfill of names and lot sizes\<close>

lemma detailLoop_done:
  "\<not> i < length uniqueIds \<Longrightarrow> detailLoop rt a uniqueIds i ws tabs = ((Returned (), tabs), ws)"
  by (subst detailLoop.simps) simp

text \<open>
  C7. The symbol-detail step is entered with the Symbol Table \<open>{7: "EURUSD"}\<close> and an empty
  Lot-Size Table, for deals with at most 50 distinct symbol identifiers (one batch), and the
  batch response carries the two records \<open>{symbolId: 7, name: "EURUSD_X", lotSize: 100000}\<close> and
  \<open>{symbolId: 9, name: "GBPUSD", lotSize: 100000}\<close>. Then the step returns the Symbol Table
  \<open>{7: "EURUSD", 9: "GBPUSD"}\<close> (the name of 7 is kept) and the Lot-Size Table
  \<open>{7: 100000, 9: 100000}\<close>, after one symbol-detail request.
\<close>

theorem symbol_backfill:
  assumes ids: "uniqueIds_of rt allDeals = Inr uniqueIds" "uniqueIds \<noteq> []" "length uniqueIds \<le> 50"
      and d: "JSON_parse rt d = Some detRes" "payloadType_of rt detRes = Some (Num 2126)"
             "opt_get (get detRes ''payload'') ''symbolDetails'' = Some (JArr backfill_details)"
  shows "symbolDetails rt a allDeals (ws\<lparr>inbound := Data d # rest\<rparr>)
           ([Num 7 \<mapsto> JStr ''EURUSD''], Map.empty)
         = (Returned ([Num 7 \<mapsto> JStr ''EURUSD'', Num 9 \<mapsto> JStr ''GBPUSD''],
                      [Num 7 \<mapsto> Num 100000, Num 9 \<mapsto> Num 100000]),
            ws\<lparr>inbound := rest,
               sent := sent ws @ [(2125, [(''ctidTraderAccountId'', PNum (ctidAccountId a)),
                                          (''symbolId'', PNums uniqueIds)])],
               received := received ws @ [detRes]\<rparr>)"
proof -
  let ?ws0 = "ws\<lparr>inbound := Data d # rest\<rparr>"
  let ?ws1 = "sendMsg ?ws0 2125 [(''ctidTraderAccountId'', PNum (ctidAccountId a)),
                                 (''symbolId'', PNums (take 50 (drop 0 uniqueIds)))]"
  let ?ws2 = "?ws1\<lparr>inbound := rest, received := received ?ws1 @ [detRes]\<rparr>"
  have n: "detRes \<noteq> JNull" using d(2) by (auto dest: not_JNull_by_type)
  have w: "waitFor rt ?ws1 2126 = (Returned detRes, ?ws2)"
    by (rule waitFor_hit[OF _ d(1) n d(2)]) (simp add: sendMsg_def)
  have e: "detail_entries rt backfill_details ([Num 7 \<mapsto> JStr ''EURUSD''], Map.empty)
           = (None, [Num 7 \<mapsto> JStr ''EURUSD'', Num 9 \<mapsto> JStr ''GBPUSD''],
                    [Num 7 \<mapsto> Num 100000, Num 9 \<mapsto> Num 100000])"
    by (simp add: backfill_details_def coalesce_def nullish_def Let_def)
  have "detailLoop rt a uniqueIds 0 ?ws0 ([Num 7 \<mapsto> JStr ''EURUSD''], Map.empty)
        = ((Returned (), [Num 7 \<mapsto> JStr ''EURUSD'', Num 9 \<mapsto> JStr ''GBPUSD''],
                         [Num 7 \<mapsto> Num 100000, Num 9 \<mapsto> Num 100000]), ?ws2)"
    using ids(2,3) w d(3) e
    by (subst detailLoop.simps) (simp add: detailLoop_done)
  then show ?thesis using ids by (simp add: symbolDetails_def sendMsg_def)
qed

theorem symbol_backfill_witness:
  "symbolDetails (table_runtime [([1], backfill_response)]) (window 5000) backfill_deals
     (idle\<lparr>inbound := [Data [1]]\<rparr>) ([Num 7 \<mapsto> JStr ''EURUSD''], Map.empty)
   = (Returned ([Num 7 \<mapsto> JStr ''EURUSD'', Num 9 \<mapsto> JStr ''GBPUSD''],
                [Num 7 \<mapsto> Num 100000, Num 9 \<mapsto> Num 100000]),
      idle\<lparr>inbound := [],
           sent := [(2125, [(''ctidTraderAccountId'', PNum (Num 1)),
                            (''symbolId'', PNums [Num 7, Num 9])])],
           received := [backfill_response]\<rparr>)"
  using symbol_backfill [where rt = "table_runtime [([1], backfill_response)]" and allDeals = backfill_deals
      and uniqueIds = "[Num 7, Num 9]" and d = "[1]" and detRes = backfill_response
      and a = "window 5000" and ws = idle and rest = "[]"]
  by (simp add: table_runtime_def backfill_response_def backfill_deals_def uniqueIds_of_def
        payloadType_of_def window_def idle_def)

section \<open>The service boundary\<close>

lemma syncAccount_connects:
  assumes "converts (host a)"
  shows "connects (snd (syncAccount rt h a s)) = connects s + 1"
proof -
  obtain x s' where run: "syncAccount rt h a s = (x, s')" by (cases "syncAccount rt h a s")
  from with_connection_cases[OF run[unfolded syncAccount_def]]
  have "connects s' = connects s + 1"
  proof (elim disjE conjE exE)
    fix y assume "connectWS h (host a) s = (y, s')"
    from connectWS_cases[OF this] assms show ?thesis by simp
  next
    fix ws ws'
    assume c: "connectWS h (host a) s = (Returned (), ws)"
      and r: "authenticate (waitFor rt) a ws (fetchSymbols rt a) = (x, ws')"
      and e: "s' = (if x = Never then ws' else ws'\<lparr>terminated := terminated ws' + 1\<rparr>)"
    from syncTry_log[OF r, where k = False] connectWS_cases[OF c] assms e
    show ?thesis by (auto simp: grows_def)
  qed
  with run show ?thesis by simp
qed

lemma account_of_cases:
  "account_of rt body =
     (if converts (get body ''ctidAccountId'') \<and> converts (get body ''fromTimestamp'')
         \<and> converts (get body ''toTimestamp'')
      then Inr \<lparr>host = get body ''host'', clientId = get body ''clientId'',
                clientSecret = get body ''clientSecret'', accessToken = get body ''accessToken'',
                ctidAccountId = Number rt (get body ''ctidAccountId''),
                fromTimestamp = Number rt (get body ''fromTimestamp''),
                toTimestamp = Number rt (get body ''toTimestamp'')\<rparr>
      else Inl TypeError)"
  by (simp add: account_of_def)

text \<open>
  C8 (as amended). The handler of POST /sync, on a parsed body that is not \<^verbatim>\<open>null\<close>, computes
  the list of the seven required fields that are absent, null or the empty string, in the
  order of the field list. When the list is not empty it replies with the failure whose text is \<open>Missing: \<close> (\<open>Missing fields: \<close> in
  src/unnamed/part\_000) followed by exactly those names joined by \<open>, \<close>, and the connection
  state is untouched (no socket is constructed, nothing is sent). When the list is empty and
  the conversion of \<^verbatim>\<open>ctidAccountId\<close>, \<^verbatim>\<open>fromTimestamp\<close> and \<^verbatim>\<open>toTimestamp\<close> to numbers returns,
  the handler calls \<^verbatim>\<open>syncAccount\<close> with the four other fields as given and the three numbers,
  and replies from its outcome; one socket is then constructed in src/index.js when the host
  converts to a string. When the list is empty and one of the three conversions throws, the
  handler replies with the failure of that error and \<^verbatim>\<open>syncAccount\<close> is not called: the
  connection state is untouched.
\<close>

theorem validation:
  "missing_fields body =
     filter (\<lambda>k. get body k = None \<or> get body k = Some JNull \<or> get body k = Some (JStr ''''))
       [''host'', ''clientId'', ''clientSecret'', ''accessToken'', ''ctidAccountId'',
        ''fromTimestamp'', ''toTimestamp'']
 \<and> (body \<noteq> JNull \<and> missing_fields body \<noteq> [] \<longrightarrow>
       postSync rt h body s
         = (Some (Failure (Literal (''Missing: '' @ join (missing_fields body) '', ''))), s)
     \<and> postSync_plain rt h body s
         = (Some (Failure (Literal (''Missing: '' @ join (missing_fields body) '', ''))), s)
     \<and> postSync_tcp rt h body s
         = (Some (Failure (Literal (''Missing fields: '' @ join (missing_fields body) '', ''))), s))
 \<and> (missing_fields body = [] \<and> converts (get body ''ctidAccountId'')
      \<and> converts (get body ''fromTimestamp'') \<and> converts (get body ''toTimestamp'')
      \<and> a = \<lparr>host = get body ''host'', clientId = get body ''clientId'',
               clientSecret = get body ''clientSecret'', accessToken = get body ''accessToken'',
               ctidAccountId = Number rt (get body ''ctidAccountId''),
               fromTimestamp = Number rt (get body ''fromTimestamp''),
               toTimestamp = Number rt (get body ''toTimestamp'')\<rparr> \<longrightarrow>
       postSync rt h body s =
         (case syncAccount rt h a s of
            (Never, s') \<Rightarrow> (None, s')
          | (Threw e, s') \<Rightarrow> (Some (Failure (Message_of e)), s')
          | (Returned result, s') \<Rightarrow> (Some (Success result), s'))
     \<and> postSync_plain rt h body s =
         (case syncAccount_plain rt h a s of
            (Never, s') \<Rightarrow> (None, s')
          | (Threw e, s') \<Rightarrow> (Some (Failure (Message_of e)), s')
          | (Returned result, s') \<Rightarrow> (Some (Success result), s'))
     \<and> postSync_tcp rt h body s =
         (case syncAccount_tcp rt h a s of
            (Never, s') \<Rightarrow> (None, s')
          | (Threw e, s') \<Rightarrow> (Some (Failure (Message_of e)), s')
          | (Returned result, s') \<Rightarrow> (Some (Success result), s'))
     \<and> (converts (get body ''host'') \<longrightarrow>
          connects (snd (postSync rt h body s)) = connects s + 1))
 \<and> (missing_fields body = []
      \<and> \<not> (converts (get body ''ctidAccountId'') \<and> converts (get body ''fromTimestamp'')
            \<and> converts (get body ''toTimestamp'')) \<longrightarrow>
       postSync rt h body s = (Some (Failure (Message_of TypeError)), s)
     \<and> postSync_plain rt h body s = (Some (Failure (Message_of TypeError)), s)
     \<and> postSync_tcp rt h body s = (Some (Failure (Message_of TypeError)), s))"
proof -
  have 1: "missing_fields body =
     filter (\<lambda>k. get body k = None \<or> get body k = Some JNull \<or> get body k = Some (JStr ''''))
       [''host'', ''clientId'', ''clientSecret'', ''accessToken'', ''ctidAccountId'',
        ''fromTimestamp'', ''toTimestamp'']"
    unfolding missing_fields_def required_fields_def is_missing_def ..
  have 2: "postSync rt h body s
         = (Some (Failure (Literal (''Missing: '' @ join (missing_fields body) '', ''))), s)
     \<and> postSync_plain rt h body s
         = (Some (Failure (Literal (''Missing: '' @ join (missing_fields body) '', ''))), s)
     \<and> postSync_tcp rt h body s
         = (Some (Failure (Literal (''Missing fields: '' @ join (missing_fields body) '', ''))), s)"
    if "body \<noteq> JNull \<and> missing_fields body \<noteq> []"
    using that by (simp add: postSync_def postSync_plain_def postSync_tcp_def respond_def)
  have 3: "postSync rt h body s =
         (case syncAccount rt h a s of
            (Never, s') \<Rightarrow> (None, s')
          | (Threw e, s') \<Rightarrow> (Some (Failure (Message_of e)), s')
          | (Returned result, s') \<Rightarrow> (Some (Success result), s'))
     \<and> postSync_plain rt h body s =
         (case syncAccount_plain rt h a s of
            (Never, s') \<Rightarrow> (None, s')
          | (Threw e, s') \<Rightarrow> (Some (Failure (Message_of e)), s')
          | (Returned result, s') \<Rightarrow> (Some (Success result), s'))
     \<and> postSync_tcp rt h body s =
         (case syncAccount_tcp rt h a s of
            (Never, s') \<Rightarrow> (None, s')
          | (Threw e, s') \<Rightarrow> (Some (Failure (Message_of e)), s')
          | (Returned result, s') \<Rightarrow> (Some (Success result), s'))
     \<and> (converts (get body ''host'') \<longrightarrow>
          connects (snd (postSync rt h body s)) = connects s + 1)"
    if m: "missing_fields body = [] \<and> converts (get body ''ctidAccountId'')
      \<and> converts (get body ''fromTimestamp'') \<and> converts (get body ''toTimestamp'')
      \<and> a = \<lparr>host = get body ''host'', clientId = get body ''clientId'',
               clientSecret = get body ''clientSecret'', accessToken = get body ''accessToken'',
               ctidAccountId = Number rt (get body ''ctidAccountId''),
               fromTimestamp = Number rt (get body ''fromTimestamp''),
               toTimestamp = Number rt (get body ''toTimestamp'')\<rparr>"
  proof -
    from m have acc: "account_of rt body = Inr a" by (simp add: account_of_cases)
    from m have nn: "body \<noteq> JNull"
      by (auto simp: missing_fields_def required_fields_def is_missing_def)
    have p: "postSync rt h body s =
         (case syncAccount rt h a s of
            (Never, s') \<Rightarrow> (None, s')
          | (Threw e, s') \<Rightarrow> (Some (Failure (Message_of e)), s')
          | (Returned result, s') \<Rightarrow> (Some (Success result), s'))"
      using m acc nn by (simp add: postSync_def respond_def)
    have q: "postSync_plain rt h body s =
         (case syncAccount_plain rt h a s of
            (Never, s') \<Rightarrow> (None, s')
          | (Threw e, s') \<Rightarrow> (Some (Failure (Message_of e)), s')
          | (Returned result, s') \<Rightarrow> (Some (Success result), s'))"
      using m acc nn by (simp add: postSync_plain_def respond_def)
    have r: "postSync_tcp rt h body s =
         (case syncAccount_tcp rt h a s of
            (Never, s') \<Rightarrow> (None, s')
          | (Threw e, s') \<Rightarrow> (Some (Failure (Message_of e)), s')
          | (Returned result, s') \<Rightarrow> (Some (Success result), s'))"
      using m acc nn by (simp add: postSync_tcp_def respond_def)
    have "snd (postSync rt h body s) = snd (syncAccount rt h a s)"
      unfolding p by (simp split: prod.splits result.splits)
    moreover have "host a = get body ''host''" using m by simp
    ultimately have c: "converts (get body ''host'') \<longrightarrow>
          connects (snd (postSync rt h body s)) = connects s + 1"
      by (simp add: syncAccount_connects)
    from p q r c show ?thesis by simp
  qed
  have 4: "postSync rt h body s = (Some (Failure (Message_of TypeError)), s)
     \<and> postSync_plain rt h body s = (Some (Failure (Message_of TypeError)), s)
     \<and> postSync_tcp rt h body s = (Some (Failure (Message_of TypeError)), s)"
    if m: "missing_fields body = []
      \<and> \<not> (converts (get body ''ctidAccountId'') \<and> converts (get body ''fromTimestamp'')
            \<and> converts (get body ''toTimestamp''))"
  proof -
    from m have "account_of rt body = Inl TypeError" by (simp add: account_of_cases)
    moreover from m have "body \<noteq> JNull"
      by (auto simp: missing_fields_def required_fields_def is_missing_def)
    ultimately show ?thesis using m
      by (simp add: postSync_def postSync_plain_def postSync_tcp_def respond_def)
  qed
  from 1 2 3 4 show ?thesis by blast
qed

theorem validation_witness:
  "postSync session_runtime Opens incomplete_body idle
     = (Some (Failure (Literal ''Missing: clientId, clientSecret, toTimestamp'')), idle)
 \<and> postSync_tcp session_runtime Opens incomplete_body idle
     = (Some (Failure (Literal ''Missing fields: clientId, clientSecret, toTimestamp'')), idle)
 \<and> connects (snd (postSync session_runtime Opens complete_body idle)) = 1"
proof -
  let ?a = "\<lparr>host = get complete_body ''host'', clientId = get complete_body ''clientId'',
             clientSecret = get complete_body ''clientSecret'',
             accessToken = get complete_body ''accessToken'',
             ctidAccountId = Number session_runtime (get complete_body ''ctidAccountId''),
             fromTimestamp = Number session_runtime (get complete_body ''fromTimestamp''),
             toTimestamp = Number session_runtime (get complete_body ''toTimestamp'')\<rparr>"
  have 1: "missing_fields incomplete_body = [''clientId'', ''clientSecret'', ''toTimestamp'']"
    by (simp add: missing_fields_def required_fields_def is_missing_def incomplete_body_def)
  have 2: "missing_fields complete_body = [] \<and> converts (get complete_body ''ctidAccountId'')
      \<and> converts (get complete_body ''fromTimestamp'') \<and> converts (get complete_body ''toTimestamp'')
      \<and> ?a = ?a"
    by (simp add: missing_fields_def required_fields_def is_missing_def complete_body_def)
  have 3: "converts (get complete_body ''host'')"
    by (simp add: complete_body_def)
  have a: "postSync session_runtime Opens incomplete_body idle
     = (Some (Failure (Literal (''Missing: '' @ join (missing_fields incomplete_body) '', ''))), idle)
     \<and> postSync_plain session_runtime Opens incomplete_body idle
     = (Some (Failure (Literal (''Missing: '' @ join (missing_fields incomplete_body) '', ''))), idle)
     \<and> postSync_tcp session_runtime Opens incomplete_body idle
     = (Some (Failure (Literal (''Missing fields: '' @ join (missing_fields incomplete_body) '', ''))), idle)"
    by (rule validation [THEN conjunct2, THEN conjunct1, rule_format])
       (simp add: 1, simp add: incomplete_body_def)
  have b: "connects (snd (postSync session_runtime Opens complete_body idle)) = connects idle + 1"
    using validation [where body = complete_body and rt = session_runtime and h = Opens
        and s = idle and a = ?a, THEN conjunct2, THEN conjunct2, THEN conjunct1, rule_format, OF 2]
      3 by blast
  from a b show ?thesis unfolding 1 by (simp add: idle_def)
qed

text \<open>
  A request body with the seven fields present and not empty, whose account identifier is
  the object \<^verbatim>\<open>{"toString": 1}\<close>: the conversion throws inside the \<^verbatim>\<open>try\<close> block, the handler
  replies with the failure of the \<^verbatim>\<open>TypeError\<close>, and \<^verbatim>\<open>syncAccount\<close> has not been called: no socket
  is constructed and nothing is sent.
\<close>

theorem validation_unconvertible_field:
  "missing_fields unconvertible_body = []
 \<and> account_of session_runtime unconvertible_body = Inl TypeError
 \<and> postSync session_runtime Opens unconvertible_body idle
     = (Some (Failure (Message_of TypeError)), idle)
 \<and> postSync_plain session_runtime Opens unconvertible_body idle
     = (Some (Failure (Message_of TypeError)), idle)
 \<and> postSync_tcp session_runtime Opens unconvertible_body idle
     = (Some (Failure (Message_of TypeError)), idle)
 \<and> connects idle = 0 \<and> sent idle = []"
  by (simp add: missing_fields_def required_fields_def is_missing_def unconvertible_body_def
        unconvertible_def postSync_def postSync_plain_def postSync_tcp_def respond_def
        account_of_def idle_def)

section \<open>The symbol-list step\<close>

lemma iterate_error: "iterate v = Inl e \<Longrightarrow> e = TypeError"
  by (cases v) auto

lemma symbol_entries_error: "symbol_entries rt ss sy = (Some e, sy') \<Longrightarrow> e = TypeError"
proof (induction ss arbitrary: sy)
  case Nil
  then show ?case by simp
next
  case (Cons s ss)
  then show ?case by (cases s) (auto simp: Let_def split: if_splits)
qed

lemma symbolList_threw:
  assumes "symbolList rt a ws sy = ((Threw e, sy'), ws')"
  shows "e = TypeError \<or> sy' = sy"
proof -
  let ?ws = "sendMsg ws 2119 [(''ctidTraderAccountId'', PNum (ctidAccountId a)),
                              (''includeArchivedSymbols'', PBool False)]"
  obtain y wsx where w: "waitFor rt ?ws 2120 = (y, wsx)" by (cases "waitFor rt ?ws 2120")
  show ?thesis
  proof (cases y)
    case (Returned symRes)
    let ?l = "or_else (coalesce (opt_get (get symRes ''payload'') ''symbol'')
                                (opt_get (get symRes ''payload'') ''symbols'')) (JArr [])"
    show ?thesis
    proof (cases "iterate ?l")
      case (Inl e')
      with assms w Returned show ?thesis
        by (auto simp: symbolList_def Let_def dest: iterate_error)
    next
      case (Inr ss)
      obtain r sy2 where se: "symbol_entries rt ss sy = (r, sy2)" by (cases "symbol_entries rt ss sy")
      with assms w Returned Inr show ?thesis
        by (cases r) (auto simp: symbolList_def Let_def dest: symbol_entries_error)
    qed
  qed (use assms w in \<open>auto simp: symbolList_def Let_def\<close>)
qed

text \<open>
  C6 (as amended). In src/index.js, after the connection is made and both auth steps have
  succeeded, a symbol-list step that fails with any error is caught: \<^verbatim>\<open>syncAccount\<close> goes on
  with the deal pagination on the Symbol Table the step left, and its outcome is that of the
  remaining steps, followed by the \<^verbatim>\<open>finally\<close> block. In particular it returns a successful result when the pagination and
  the symbol-detail step return. After a timeout or a remote error the Symbol Table is empty.
\<close>

theorem symbol_list_failure_nonfatal:
  assumes host: "converts (host a)"
      and auth1: "waitFor rt (sendMsg (s\<lparr>connects := connects s + 1\<rparr>) 2100
                     [(''clientId'', PJson (clientId a)), (''clientSecret'', PJson (clientSecret a))])
                    2101 = (Returned appAuth, ws1)"
      and auth2: "waitFor rt (sendMsg ws1 2102
                     [(''ctidTraderAccountId'', PNum (ctidAccountId a)),
                      (''accessToken'', PJson (accessToken a))])
                    2103 = (Returned accountAuth, ws2)"
      and sym: "symbolList rt a ws2 Map.empty = ((Threw e, symbols), ws3)"
  shows "syncAccount rt Opens a s =
           (case fetchDeals rt a symbols ws3 of
              (Never, ws') \<Rightarrow> (Never, ws')
            | (Threw e', ws') \<Rightarrow> (Threw e', ws'\<lparr>terminated := terminated ws' + 1\<rparr>)
            | (Returned r, ws') \<Rightarrow> (Returned r, ws'\<lparr>terminated := terminated ws' + 1\<rparr>))
       \<and> (dealLoop (waitFor rt) rt 2133 2134 a ws3 [] (fromTimestamp a) 0
              = (Returned (allDeals, pages), ws4)
            \<and> symbolDetails rt a allDeals ws4 (symbols, Map.empty)
              = (Returned (symbols', lotSizes), ws5)
          \<longrightarrow> syncAccount rt Opens a s =
                (Returned \<lparr>res_deals = allDeals, res_symbols = symbols',
                           res_lotSizes = Some lotSizes, res_pages = pages,
                           res_total = length allDeals\<rparr>,
                 ws5\<lparr>terminated := terminated ws5 + 1\<rparr>))
       \<and> (e = Timeout 2120 \<or> (\<exists>pt d. e = CTraderError pt d) \<longrightarrow> symbols = Map.empty)"
proof (intro conjI impI)
  show 1: "syncAccount rt Opens a s =
           (case fetchDeals rt a symbols ws3 of
              (Never, ws') \<Rightarrow> (Never, ws')
            | (Threw e', ws') \<Rightarrow> (Threw e', ws'\<lparr>terminated := terminated ws' + 1\<rparr>)
            | (Returned r, ws') \<Rightarrow> (Returned r, ws'\<lparr>terminated := terminated ws' + 1\<rparr>))"
    using host auth1 auth2 sym
    by (simp add: syncAccount_def with_connection_def connectWS_def authenticate_def
          fetchSymbols_def)
  assume "dealLoop (waitFor rt) rt 2133 2134 a ws3 [] (fromTimestamp a) 0
              = (Returned (allDeals, pages), ws4)
            \<and> symbolDetails rt a allDeals ws4 (symbols, Map.empty)
              = (Returned (symbols', lotSizes), ws5)"
  then show "syncAccount rt Opens a s =
                (Returned \<lparr>res_deals = allDeals, res_symbols = symbols',
                           res_lotSizes = Some lotSizes, res_pages = pages,
                           res_total = length allDeals\<rparr>,
                 ws5\<lparr>terminated := terminated ws5 + 1\<rparr>)"
    unfolding 1 by (simp add: fetchDeals_def)
next
  assume e: "e = Timeout 2120 \<or> (\<exists>pt d. e = CTraderError pt d)"
  with symbolList_threw[OF sym] show "symbols = Map.empty" by auto
qed


text \<open>
  The end-to-end scenario: both auth steps succeed, the symbol list times out, one page of three
  deals on symbol 7 arrives, and the symbol detail gives lot size 100000 for 7.
\<close>

theorem symbol_list_failure_nonfatal_witness:
  "syncAccount session_runtime Opens (window 5000)
     (idle\<lparr>inbound := [Data [1], Data [2], TimerFired, Data [4], Data [5]]\<rparr>)
   = (Returned \<lparr>res_deals = three_deals, res_symbols = Map.empty,
                res_lotSizes = Some [Num 7 \<mapsto> Num 100000], res_pages = 1, res_total = 3\<rparr>,
      idle\<lparr>sent := [(2100, [(''clientId'', PJson None), (''clientSecret'', PJson None)]),
                    (2102, [(''ctidTraderAccountId'', PNum (Num 1)), (''accessToken'', PJson None)]),
                    (2119, [(''ctidTraderAccountId'', PNum (Num 1)),
                            (''includeArchivedSymbols'', PBool False)]),
                    (2133, deal_request (window 5000) (Num 0)),
                    (2125, [(''ctidTraderAccountId'', PNum (Num 1)), (''symbolId'', PNums [Num 7])])],
           received := [JObj [(''payloadType'', JNum 2101)], JObj [(''payloadType'', JNum 2103)],
                        JObj [(''payloadType'', JNum 2134),
                              (''payload'', JObj [(''deal'', JArr three_deals)])],
                        JObj [(''payloadType'', JNum 2126),
                              (''payload'', JObj [(''symbolDetails'',
                                 JArr [JObj [(''symbolId'', JNum 7), (''lotSize'', JNum 100000)]])])]],
           terminated := 1, connects := 1\<rparr>)"
proof -
  let ?rt = session_runtime and ?a = "window 5000"
  let ?m1 = "JObj [(''payloadType'', JNum 2101)]" and ?m2 = "JObj [(''payloadType'', JNum 2103)]"
  let ?m4 = "JObj [(''payloadType'', JNum 2134), (''payload'', JObj [(''deal'', JArr three_deals)])]"
  let ?m5 = "JObj [(''payloadType'', JNum 2126),
                   (''payload'', JObj [(''symbolDetails'',
                      JArr [JObj [(''symbolId'', JNum 7), (''lotSize'', JNum 100000)]])])]"
  let ?q1 = "(2100, [(''clientId'', PJson None), (''clientSecret'', PJson None)])"
  let ?q2 = "(2102, [(''ctidTraderAccountId'', PNum (Num 1)), (''accessToken'', PJson None)])"
  let ?q3 = "(2119, [(''ctidTraderAccountId'', PNum (Num 1)), (''includeArchivedSymbols'', PBool False)])"
  let ?q4 = "(2133, deal_request (window 5000) (Num 0))"
  let ?q5 = "(2125, [(''ctidTraderAccountId'', PNum (Num 1)), (''symbolId'', PNums [Num 7])])"
  let ?s = "idle\<lparr>inbound := [Data [1], Data [2], TimerFired, Data [4], Data [5]]\<rparr>"
  let ?ws1 = "\<lparr>inbound = [Data [2], TimerFired, Data [4], Data [5]], buf = [], sent = [?q1],
              received = [?m1], terminated = 0, connects = 1,
              destroyed = False, idle_destroys = 0\<rparr>"
  let ?ws2 = "\<lparr>inbound = [TimerFired, Data [4], Data [5]], buf = [], sent = [?q1, ?q2],
              received = [?m1, ?m2], terminated = 0, connects = 1,
              destroyed = False, idle_destroys = 0\<rparr>"
  let ?ws3 = "\<lparr>inbound = [Data [4], Data [5]], buf = [], sent = [?q1, ?q2, ?q3],
              received = [?m1, ?m2], terminated = 0, connects = 1,
              destroyed = False, idle_destroys = 0\<rparr>"
  let ?ws4 = "\<lparr>inbound = [Data [5]], buf = [], sent = [?q1, ?q2, ?q3, ?q4],
              received = [?m1, ?m2, ?m4], terminated = 0, connects = 1,
              destroyed = False, idle_destroys = 0\<rparr>"
  let ?ws5 = "\<lparr>inbound = [], buf = [], sent = [?q1, ?q2, ?q3, ?q4, ?q5],
              received = [?m1, ?m2, ?m4, ?m5], terminated = 0, connects = 1,
              destroyed = False, idle_destroys = 0\<rparr>"
  have h: "converts (host ?a)" by (simp add: window_def)
  have a1: "waitFor ?rt (sendMsg (?s\<lparr>connects := connects ?s + 1\<rparr>) 2100
               [(''clientId'', PJson (clientId ?a)), (''clientSecret'', PJson (clientSecret ?a))]) 2101
            = (Returned ?m1, ?ws1)"
    by (simp add: run_simps)
  have a2: "waitFor ?rt (sendMsg ?ws1 2102 [(''ctidTraderAccountId'', PNum (ctidAccountId ?a)),
                                            (''accessToken'', PJson (accessToken ?a))]) 2103
            = (Returned ?m2, ?ws2)"
    by (simp add: run_simps)
  have sy: "symbolList ?rt ?a ?ws2 Map.empty = ((Threw (Timeout 2120), Map.empty), ?ws3)"
    by (simp add: run_simps)
  have dl: "dealLoop (waitFor ?rt) ?rt 2133 2134 ?a ?ws3 [] (fromTimestamp ?a) 0
              = (Returned (three_deals, 1), ?ws4)"
    by (simp add: run_simps dealLoop.simps)
  have sd: "symbolDetails ?rt ?a three_deals ?ws4 (Map.empty, Map.empty)
              = (Returned (Map.empty, [Num 7 \<mapsto> Num 100000]), ?ws5)"
    by (simp add: run_simps detailLoop.simps)
  have "syncAccount ?rt Opens ?a ?s =
          (Returned \<lparr>res_deals = three_deals, res_symbols = Map.empty,
                     res_lotSizes = Some [Num 7 \<mapsto> Num 100000], res_pages = 1,
                     res_total = length three_deals\<rparr>,
           ?ws5\<lparr>terminated := terminated ?ws5 + 1\<rparr>)"
    using symbol_list_failure_nonfatal [where rt = ?rt and a = ?a and s = ?s and ?ws1.0 = ?ws1 and ?ws2.0 = ?ws2
        and ?ws3.0 = ?ws3 and ?ws4.0 = ?ws4 and ?ws5.0 = ?ws5 and e = "Timeout 2120"
        and symbols = Map.empty and symbols' = Map.empty and lotSizes = "[Num 7 \<mapsto> Num 100000]"
        and allDeals = three_deals and pages = 1 and appAuth = ?m1 and accountAuth = ?m2,
        OF h a1 a2 sy]
      dl sd by blast
  then show ?thesis
    by (simp add: idle_def three_deals_def)
qed


text \<open>
  The TCP variant (src/unnamed/part\_000) does not guard the step. With the same auth responses
  and a symbol list that times out (the socket's idle timeout has fired before), the sync
  throws the timeout; with a remote error in answer to the symbol-list request, the sync
  throws that error. In both runs the deal-list response that follows is never read.
\<close>

theorem symbol_list_failure_counterexample:
  "syncAccount_tcp session_runtime Opens (window 5000)
     (idle\<lparr>inbound := [Data [0, 0, 0, 1, 1], Data [0, 0, 0, 1, 2], SocketIdle, TimerFired,
                        Data [0, 0, 0, 1, 6]]\<rparr>)
   = (Threw (Timeout 2120),
      idle\<lparr>inbound := [Data [0, 0, 0, 1, 6]],
           sent := [(2100, [(''clientId'', PJson None), (''clientSecret'', PJson None)]),
                    (2102, [(''ctidTraderAccountId'', PNum (Num 1)), (''accessToken'', PJson None)]),
                    (2119, [(''ctidTraderAccountId'', PNum (Num 1)),
                            (''includeArchivedSymbols'', PBool False)])],
           received := [JObj [(''payloadType'', JNum 2101)], JObj [(''payloadType'', JNum 2103)]],
           terminated := 1, connects := 1, destroyed := True, idle_destroys := 1\<rparr>)
 \<and> syncAccount_tcp session_runtime Opens (window 5000)
     (idle\<lparr>inbound := [Data [0, 0, 0, 1, 1], Data [0, 0, 0, 1, 2], Data [0, 0, 0, 1, 8],
                        Data [0, 0, 0, 1, 6]]\<rparr>)
   = (Threw (CTraderError (Num 2142) (Coded (Some (JStr ''REQUEST_FREQUENCY_EXCEEDED'')))),
      idle\<lparr>inbound := [Data [0, 0, 0, 1, 6]],
           sent := [(2100, [(''clientId'', PJson None), (''clientSecret'', PJson None)]),
                    (2102, [(''ctidTraderAccountId'', PNum (Num 1)), (''accessToken'', PJson None)]),
                    (2119, [(''ctidTraderAccountId'', PNum (Num 1)),
                            (''includeArchivedSymbols'', PBool False)])],
           received := [JObj [(''payloadType'', JNum 2101)], JObj [(''payloadType'', JNum 2103)]],
           terminated := 1, connects := 1\<rparr>)"
  by (simp add: run_simps tcp_run_simps error_detail_def)

section \<open>The frame reader: a frame that does not parse\<close>

text \<open>
  C5. A read delivers two complete frames, the first with the one-byte body \<open>{\<close> (byte 123),
  which \<^verbatim>\<open>JSON.parse\<close> rejects, the second with a body that parses. The loop stops at the first
  frame without removing it: no message is handed to the handlers and all ten bytes stay
  buffered, although two full frames are buffered. The next read, a further good frame, changes
  nothing but the length of the buffer. For contrast, a read of two good frames yields two
  messages and empties the buffer.
\<close>

theorem unparsable_frame_blocks_reader:
  "on_data (table_runtime [([1], JObj [(''payloadType'', JNum 2101)])]) collect []
     ([0, 0, 0, 1, 123] @ [0, 0, 0, 1, 1]) []
   = Some ([0, 0, 0, 1, 123, 0, 0, 0, 1, 1], [])
 \<and> on_data (table_runtime [([1], JObj [(''payloadType'', JNum 2101)])]) collect
      [0, 0, 0, 1, 123, 0, 0, 0, 1, 1] [0, 0, 0, 1, 1] []
   = Some ([0, 0, 0, 1, 123, 0, 0, 0, 1, 1, 0, 0, 0, 1, 1], [])
 \<and> on_data (table_runtime [([1], JObj [(''payloadType'', JNum 2101)])]) collect []
     ([0, 0, 0, 1, 1] @ [0, 0, 0, 1, 1]) []
   = Some ([], [JObj [(''payloadType'', JNum 2101)], JObj [(''payloadType'', JNum 2101)]])"
  by (simp add: on_data_def frame_loop.simps readUInt32BE_def table_runtime_def collect_def)


end
